(* ===== verification/JS_Prelude.thy ===== *)
theory JS_Prelude
  imports Complex_Main "HOL-Library.Sublist"
begin

text \<open>
  Shared prelude of the Lost-and-Found development.

  The TypeScript sources call a handful of ECMAScript built-ins on strings and
  arrays: \<^verbatim>\<open>toLowerCase\<close>, \<^verbatim>\<open>includes\<close> and \<^verbatim>\<open>trim\<close> on strings,
  \<^verbatim>\<open>slice\<close>, \<^verbatim>\<open>findIndex\<close>, \<^verbatim>\<open>filter\<close> and \<^verbatim>\<open>push\<close> on arrays, the
  truthiness test of a string (\<^verbatim>\<open>!s\<close>, \<^verbatim>\<open>s || d\<close>) and \<^verbatim>\<open>Math.ceil\<close> of a
  quotient. This theory gives each of them an executable HOL definition
  together with the lemmas the component theories share, so that the
  components read like the code that calls them.

  Conventions.
  \<^item> A JavaScript string is a \<^typ>\<open>string\<close>. Case folding and white space are
    modelled on ASCII only: \<open>toLowerCase\<close> maps \<open>A\<close>..\<open>Z\<close> to \<open>a\<close>..\<open>z\<close>
    and leaves every other character alone, and \<open>isWhiteSpace\<close> holds for TAB,
    LF, VT, FF, CR and SPACE. On ASCII input both agree with ECMAScript; the
    Unicode mappings beyond ASCII are not modelled.
  \<^item> A JavaScript number that the code uses as an index, a page or a count is
    an \<^typ>\<open>int\<close>; array lengths are \<^typ>\<open>nat\<close>.
  \<^item> A JavaScript array is a list; \<^verbatim>\<open>xs.filter(p)\<close> is \<^const>\<open>filter\<close> and
    \<^verbatim>\<open>xs.push(x)\<close> is \<open>xs @ [x]\<close>.

  \<open>remove_nth\<close> and the lemmas on lists at the end serve the queues of
  theory \<open>Board\<close>.

  The collection \<open>js_defs\<close> holds the unfolding equations of the built-ins
  (for evaluating closed terms by \<open>simp\<close>); \<open>js_simps\<close> holds their
  characteristic lemmas.
\<close>

named_theorems js_defs "unfolding equations of the modelled ECMAScript built-ins"
named_theorems js_simps "characteristic lemmas of the modelled ECMAScript built-ins"


section \<open>Definitions\<close>

subsection \<open>Strings\<close>

definition toLowerCase_char :: "char \<Rightarrow> char" where
  "toLowerCase_char c =
     (if 65 \<le> (of_char c :: nat) \<and> (of_char c :: nat) \<le> 90
      then char_of (of_char c + (32 :: nat)) else c)"

definition toLowerCase :: "string \<Rightarrow> string" where
  "toLowerCase s = map toLowerCase_char s"

text \<open>
  \<^verbatim>\<open>s.includes(q)\<close>: scan the start positions of \<open>s\<close> from the left and test
  whether \<open>q\<close> is a prefix of the rest.
\<close>

fun includes_str :: "string \<Rightarrow> string \<Rightarrow> bool" where
  "includes_str [] q = (q = [])"
| "includes_str (c # s) q = (prefix q (c # s) \<or> includes_str s q)"

definition isWhiteSpace :: "char \<Rightarrow> bool" where
  "isWhiteSpace c \<longleftrightarrow> (of_char c :: nat) \<in> {9, 10, 11, 12, 13, 32}"

definition trimStart :: "string \<Rightarrow> string" where
  "trimStart s = dropWhile isWhiteSpace s"

definition trimEnd :: "string \<Rightarrow> string" where
  "trimEnd s = rev (dropWhile isWhiteSpace (rev s))"

definition trim :: "string \<Rightarrow> string" where
  "trim s = trimEnd (trimStart s)"

text \<open>\<^verbatim>\<open>ToBoolean\<close> on a string: only the empty string is falsy.\<close>

definition truthy :: "string \<Rightarrow> bool" where
  "truthy s \<longleftrightarrow> s \<noteq> []"

text \<open>\<^verbatim>\<open>a || b\<close> on strings.\<close>

definition or_else :: "string \<Rightarrow> string \<Rightarrow> string" where
  "or_else a b = (if truthy a then a else b)"

subsection \<open>Arrays and numbers\<close>

text \<open>
  \<^verbatim>\<open>Array.prototype.slice(start, end)\<close>. A negative argument counts from the
  end of the array, and both arguments are clamped to \<open>0..len\<close>; the result is
  empty when the clamped end does not exceed the clamped start.
\<close>

definition relativeIndex :: "int \<Rightarrow> nat \<Rightarrow> nat" where
  "relativeIndex rel len =
     (if rel < 0 then nat (max (int len + rel) 0) else nat (min rel (int len)))"

definition slice :: "'a list \<Rightarrow> int \<Rightarrow> int \<Rightarrow> 'a list" where
  "slice xs start end =
     (let len = length xs;
          k = relativeIndex start len;
          final = relativeIndex end len
      in take (final - k) (drop k xs))"

text \<open>
  \<^verbatim>\<open>Array.prototype.findIndex(p)\<close>: the index of the first element that satisfies
  \<open>p\<close>, and \<open>-1\<close> when there is none.
\<close>

fun findIndex :: "('a \<Rightarrow> bool) \<Rightarrow> 'a list \<Rightarrow> int" where
  "findIndex P [] = - 1"
| "findIndex P (x # xs) =
     (if P x then 0 else (let i = findIndex P xs in if i = - 1 then - 1 else i + 1))"

text \<open>\<^verbatim>\<open>Math.ceil(a / b)\<close> for an array length \<open>a\<close> and a count \<open>b\<close>.\<close>

definition ceil_div :: "nat \<Rightarrow> nat \<Rightarrow> int" where
  "ceil_div a b = \<lceil>real a / real b\<rceil>"


subsection \<open>Lists\<close>

text \<open>A list without its element at index \<open>k\<close>; the whole list when there is no such element.\<close>

definition remove_nth :: "nat \<Rightarrow> 'a list \<Rightarrow> 'a list" where
  "remove_nth k xs = take k xs @ drop (Suc k) xs"


section \<open>Lemmas on strings\<close>

lemmas string_defs [js_defs] =
  toLowerCase_def toLowerCase_char_def char_of_eq_iff isWhiteSpace_def
  trimStart_def trimEnd_def trim_def truthy_def or_else_def


subsection \<open>Case folding\<close>

lemma of_char_toLowerCase_char:
  "(of_char (toLowerCase_char c) :: nat) =
     (if 65 \<le> (of_char c :: nat) \<and> (of_char c :: nat) \<le> 90
      then of_char c + 32 else of_char c)"
  by (auto simp: toLowerCase_char_def)

lemma toLowerCase_char_other:
  "\<not> (65 \<le> (of_char c :: nat) \<and> (of_char c :: nat) \<le> 90) \<Longrightarrow> toLowerCase_char c = c"
  by (auto simp: toLowerCase_char_def)

lemma toLowerCase_char_idem [simp]:
  "toLowerCase_char (toLowerCase_char c) = toLowerCase_char c"
  by (rule toLowerCase_char_other) (simp add: of_char_toLowerCase_char)

lemma toLowerCase_Nil [simp, js_simps]: "toLowerCase [] = []"
  by (simp add: toLowerCase_def)

lemma toLowerCase_Cons [js_simps]:
  "toLowerCase (c # s) = toLowerCase_char c # toLowerCase s"
  by (simp add: toLowerCase_def)

lemma toLowerCase_append [js_simps]:
  "toLowerCase (s @ t) = toLowerCase s @ toLowerCase t"
  by (simp add: toLowerCase_def)

lemma length_toLowerCase [simp, js_simps]: "length (toLowerCase s) = length s"
  by (simp add: toLowerCase_def)

lemma toLowerCase_idem [simp, js_simps]: "toLowerCase (toLowerCase s) = toLowerCase s"
  by (simp add: toLowerCase_def)

lemma toLowerCase_eq_Nil_iff [simp]: "toLowerCase s = [] \<longleftrightarrow> s = []"
  by (simp add: toLowerCase_def)


subsection \<open>Substring search\<close>

lemma includes_str_iff_sublist [js_simps]: "includes_str s q \<longleftrightarrow> sublist q s"
  by (induction s) (auto simp: sublist_Cons_right)

lemma includes_str_iff: "includes_str s q \<longleftrightarrow> (\<exists>pre post. s = pre @ q @ post)"
  by (simp add: includes_str_iff_sublist sublist_def)

lemma includes_str_Nil [simp, js_simps]: "includes_str s []"
  by (simp add: includes_str_iff_sublist)

lemma includes_str_refl [simp, js_simps]: "includes_str s s"
  by (simp add: includes_str_iff_sublist)

lemma includes_str_length: "includes_str s q \<Longrightarrow> length q \<le> length s"
  by (auto simp: includes_str_iff)

lemma includes_str_trans:
  "includes_str s q \<Longrightarrow> includes_str q r \<Longrightarrow> includes_str s r"
  unfolding includes_str_iff_sublist by (rule sublist_order.order.trans)

lemma includes_toLowerCase_mono:
  "includes_str s q \<Longrightarrow> includes_str (toLowerCase s) (toLowerCase q)"
  unfolding includes_str_iff by (metis toLowerCase_append)


subsection \<open>Trimming and truthiness\<close>

lemma all_dropWhile_iff: "(\<forall>x \<in> set (dropWhile P xs). P x) \<longleftrightarrow> (\<forall>x \<in> set xs. P x)"
  by (induction xs) auto

lemma trim_eq_Nil_iff [js_simps]: "trim s = [] \<longleftrightarrow> (\<forall>c \<in> set s. isWhiteSpace c)"
  by (simp add: trim_def trimStart_def trimEnd_def all_dropWhile_iff)

lemma trim_Nil [simp, js_simps]: "trim [] = []"
  by (simp add: trim_eq_Nil_iff)

lemma truthy_trim_iff [js_simps]: "truthy (trim s) \<longleftrightarrow> (\<exists>c \<in> set s. \<not> isWhiteSpace c)"
  by (simp add: truthy_def trim_eq_Nil_iff)

lemma truthy_trim_imp_truthy: "truthy (trim s) \<Longrightarrow> truthy s"
  by (auto simp: truthy_trim_iff truthy_def)

lemma dropWhile_hd: "dropWhile P xs \<noteq> [] \<Longrightarrow> \<not> P (hd (dropWhile P xs))"
  by (simp add: hd_dropWhile)

lemma trimStart_hd: "trimStart s \<noteq> [] \<Longrightarrow> \<not> isWhiteSpace (hd (trimStart s))"
  unfolding trimStart_def by (rule dropWhile_hd)

lemma trimEnd_last: "trimEnd s \<noteq> [] \<Longrightarrow> \<not> isWhiteSpace (last (trimEnd s))"
  unfolding trimEnd_def by (simp add: last_rev hd_dropWhile)

lemma trimEnd_prefix: "prefix (trimEnd s) s"
proof -
  have "suffix (dropWhile isWhiteSpace (rev s)) (rev s)"
    by (rule suffix_dropWhile)
  then show ?thesis
    by (simp add: trimEnd_def suffix_to_prefix)
qed

lemma trimStart_suffix: "suffix (trimStart s) s"
  unfolding trimStart_def by (rule suffix_dropWhile)

lemma trim_sublist: "sublist (trim s) s"
proof -
  have "sublist (trimEnd (trimStart s)) (trimStart s)"
    by (rule prefix_imp_sublist [OF trimEnd_prefix])
  moreover have "sublist (trimStart s) s"
    by (rule suffix_imp_sublist [OF trimStart_suffix])
  ultimately show ?thesis
    unfolding trim_def by (rule sublist_order.order.trans)
qed

lemma or_else_truthy [simp, js_simps]: "truthy b \<Longrightarrow> truthy (or_else a b)"
  by (simp add: or_else_def)

lemma or_else_eq [js_simps]: "or_else a b = (if a = [] then b else a)"
  by (simp add: or_else_def truthy_def)


section \<open>Lemmas on arrays and numbers\<close>

lemmas array_defs [js_defs] = relativeIndex_def slice_def Let_def ceil_div_def


subsection \<open>Slices\<close>

lemma relativeIndex_le [simp]: "relativeIndex rel len \<le> len"
  by (auto simp: relativeIndex_def)

lemma relativeIndex_nonneg [js_simps]: "0 \<le> rel \<Longrightarrow> relativeIndex rel len = min (nat rel) len"
  by (auto simp: relativeIndex_def)

lemma slice_nonneg [js_simps]:
  "0 \<le> a \<Longrightarrow> 0 \<le> b \<Longrightarrow> slice xs a b = take (nat b - nat a) (drop (nat a) xs)"
  by (auto simp: slice_def relativeIndex_def Let_def min_def)

lemma length_slice_le [js_simps]:
  "0 \<le> a \<Longrightarrow> 0 \<le> b \<Longrightarrow> int (length (slice xs a b)) \<le> max 0 (b - a)"
  by (auto simp: slice_nonneg)

lemma length_slice_le_length [simp, js_simps]: "length (slice xs a b) \<le> length xs"
  by (simp add: slice_def Let_def)

lemma slice_sublist: "sublist (slice xs a b) xs"
proof -
  have "sublist (take n (drop k xs)) (drop k xs)" for n k
    by (rule prefix_imp_sublist [OF take_is_prefix])
  moreover have "sublist (drop k xs) xs" for k
    by (rule suffix_imp_sublist [OF suffix_drop])
  ultimately have "sublist (take n (drop k xs)) xs" for n k
    by (rule sublist_order.order.trans)
  then show ?thesis
    by (simp add: slice_def Let_def)
qed

lemma set_slice_subset: "set (slice xs a b) \<subseteq> set xs"
  using slice_sublist [of xs a b] by (rule set_mono_sublist)

lemma slice_whole [simp, js_simps]: "slice xs 0 (int (length xs)) = xs"
  by (simp add: slice_nonneg)

lemma slice_empty_range [js_simps]: "0 \<le> a \<Longrightarrow> int (length xs) \<le> a \<Longrightarrow> slice xs a b = []"
  by (auto simp: slice_def relativeIndex_def Let_def)


subsection \<open>Searching by predicate\<close>

lemma findIndex_ge: "- 1 \<le> findIndex P xs"
  by (induction xs) (auto simp: Let_def)

lemma findIndex_succ_neq [simp]:
  "findIndex P xs + 1 \<noteq> - 1" "2 + findIndex P xs \<noteq> 0"
  using findIndex_ge [of P xs] by auto

lemma findIndex_none_iff [js_simps]: "findIndex P xs = - 1 \<longleftrightarrow> (\<forall>x \<in> set xs. \<not> P x)"
  by (induction xs) (auto simp: Let_def)

lemma findIndex_lt: "findIndex P xs \<noteq> - 1 \<Longrightarrow> findIndex P xs < int (length xs)"
  by (induction xs) (auto simp: Let_def)

lemma findIndex_nat_lt: "findIndex P xs \<noteq> - 1 \<Longrightarrow> nat (findIndex P xs) < length xs"
  using findIndex_lt [of P xs] findIndex_ge [of P xs] by linarith

lemma findIndex_Cons_nat:
  "\<not> P x \<Longrightarrow> findIndex P xs \<noteq> - 1 \<Longrightarrow>
     nat (findIndex P (x # xs)) = Suc (nat (findIndex P xs))"
  using findIndex_ge [of P xs] by (simp add: Let_def nat_add_distrib)

lemma findIndex_nth [js_simps]: "findIndex P xs \<noteq> - 1 \<Longrightarrow> P (xs ! nat (findIndex P xs))"
proof (induction xs)
  case Nil
  then show ?case by simp
next
  case (Cons x xs)
  show ?case
  proof (cases "P x")
    case True
    then show ?thesis by simp
  next
    case False
    with Cons.prems have found: "findIndex P xs \<noteq> - 1"
      by (auto simp: Let_def split: if_splits)
    with False have "nat (findIndex P (x # xs)) = Suc (nat (findIndex P xs))"
      by (rule findIndex_Cons_nat)
    moreover from found have "P (xs ! nat (findIndex P xs))"
      by (rule Cons.IH)
    ultimately show ?thesis by simp
  qed
qed

lemma findIndex_first [js_simps]:
  "findIndex P xs \<noteq> - 1 \<Longrightarrow> j < nat (findIndex P xs) \<Longrightarrow> \<not> P (xs ! j)"
proof (induction xs arbitrary: j)
  case Nil
  then show ?case by simp
next
  case (Cons x xs)
  show ?case
  proof (cases "P x")
    case True
    with Cons.prems show ?thesis by simp
  next
    case False
    with Cons.prems have found: "findIndex P xs \<noteq> - 1"
      by (auto simp: Let_def split: if_splits)
    with False have "nat (findIndex P (x # xs)) = Suc (nat (findIndex P xs))"
      by (rule findIndex_Cons_nat)
    with Cons.prems(2) have j: "j < Suc (nat (findIndex P xs))"
      by simp
    show ?thesis
    proof (cases j)
      case 0
      with False show ?thesis by simp
    next
      case (Suc k)
      with j have "k < nat (findIndex P xs)" by simp
      with found have "\<not> P (xs ! k)" by (rule Cons.IH)
      with Suc show ?thesis by simp
    qed
  qed
qed

text \<open>The index as a length, and the assignment at the index found, without indices.\<close>

lemma findIndex_takeWhile:
  "findIndex P xs = (if list_ex P xs then int (length (takeWhile (\<lambda>x. \<not> P x) xs)) else - 1)"
  by (induction xs) (auto simp: Let_def)

lemma list_update_findIndex:
  "findIndex P xs \<noteq> - 1 \<Longrightarrow>
     xs[nat (findIndex P xs) := y] = takeWhile (\<lambda>x. \<not> P x) xs @ y # tl (dropWhile (\<lambda>x. \<not> P x) xs)"
proof (induction xs)
  case Nil
  then show ?case by simp
next
  case (Cons x xs)
  show ?case
  proof (cases "P x")
    case True
    then show ?thesis by simp
  next
    case False
    with Cons.prems have found: "findIndex P xs \<noteq> - 1"
      by (auto simp: Let_def split: if_splits)
    with False have "nat (findIndex P (x # xs)) = Suc (nat (findIndex P xs))"
      by (rule findIndex_Cons_nat)
    with Cons.IH [OF found] False show ?thesis by simp
  qed
qed


subsection \<open>Rounded-up quotients\<close>

lemma neg_div_neg_eq:
  fixes a b :: int
  assumes "0 < b"
  shows "- (- a div b) = (a + b - 1) div b"
proof -
  define q r where "q = a div b" and "r = a mod b"
  have a: "a = b * q + r" by (simp add: q_def r_def)
  have r: "0 \<le> r" "r < b" using assms by (simp_all add: r_def)
  have nz: "b \<noteq> 0" using assms by simp
  have lhs: "- (- a div b) = (if r = 0 then q else q + 1)"
    using assms by (simp add: zdiv_zminus1_eq_if q_def r_def)
  have "(a + b - 1) div b = (if r = 0 then q else q + 1)"
  proof (cases "r = 0")
    case True
    have "(a + b - 1) div b = ((b - 1) + b * q) div b"
      using a True by (simp add: algebra_simps)
    also have "\<dots> = q + (b - 1) div b"
      using nz by (rule div_mult_self2)
    also have "(b - 1) div b = 0"
      using assms by (simp add: div_pos_pos_trivial)
    finally show ?thesis using True by simp
  next
    case False
    have "(a + b - 1) div b = ((r - 1) + b * (q + 1)) div b"
      using a by (simp add: algebra_simps)
    also have "\<dots> = (q + 1) + (r - 1) div b"
      using nz by (rule div_mult_self2)
    also have "(r - 1) div b = 0"
      using r False by (simp add: div_pos_pos_trivial)
    finally show ?thesis using False by simp
  qed
  with lhs show ?thesis by simp
qed

lemma ceil_div_eq [js_simps]:
  "ceil_div a b = (if b = 0 then 0 else (int a + int b - 1) div int b)"
proof (cases "b = 0")
  case True
  then show ?thesis by (simp add: ceil_div_def)
next
  case False
  have "\<lceil>real a / real b\<rceil> = \<lceil>of_int (int a) / of_int (int b) :: real\<rceil>"
    by simp
  also have "\<dots> = - (- int a div int b)"
    by (rule ceiling_divide_eq_div)
  also have "\<dots> = (int a + int b - 1) div int b"
    using False by (intro neg_div_neg_eq) simp
  finally show ?thesis using False by (simp add: ceil_div_def)
qed

lemma ceil_div_nonneg [simp, js_simps]: "0 \<le> ceil_div a b"
  by (simp add: ceil_div_eq pos_imp_zdiv_nonneg_iff)

lemma ceil_div_bounds:
  assumes "0 < b"
  shows "int a \<le> ceil_div a b * int b" and "ceil_div a b * int b < int a + int b"
proof -
  let ?q = "(int a + int b - 1) div int b"
  let ?r = "(int a + int b - 1) mod int b"
  have q: "ceil_div a b = ?q"
    using assms by (simp add: ceil_div_eq)
  have eq: "?q * int b + ?r = int a + int b - 1"
    by simp
  have r: "0 \<le> ?r" "?r < int b"
    using assms by simp_all
  from eq r show "int a \<le> ceil_div a b * int b"
    unfolding q by linarith
  from eq r show "ceil_div a b * int b < int a + int b"
    unfolding q by linarith
qed

lemma ceil_div_eq_0_iff [js_simps]: "0 < b \<Longrightarrow> ceil_div a b = 0 \<longleftrightarrow> a = 0"
  using ceil_div_bounds [of b a] by (cases "a = 0") (auto simp: ceil_div_eq)

lemma ceil_div_le_iff:
  assumes "0 < b"
  shows "ceil_div a b \<le> n \<longleftrightarrow> int a \<le> n * int b"
proof
  assume "ceil_div a b \<le> n"
  then have "ceil_div a b * int b \<le> n * int b"
    by (simp add: mult_right_mono)
  with ceil_div_bounds(1) [OF assms, of a] show "int a \<le> n * int b"
    by linarith
next
  assume le: "int a \<le> n * int b"
  show "ceil_div a b \<le> n"
  proof (rule ccontr)
    assume "\<not> ceil_div a b \<le> n"
    then have "n + 1 \<le> ceil_div a b" by simp
    then have "(n + 1) * int b \<le> ceil_div a b * int b"
      by (simp add: mult_right_mono)
    with ceil_div_bounds(2) [OF assms, of a] le show False
      by (simp add: algebra_simps)
  qed
qed


section \<open>Lemmas on lists\<close>

lemma set_remove_nth_subset: "set (remove_nth k xs) \<subseteq> set xs"
  by (auto simp: remove_nth_def dest: in_set_takeD in_set_dropD)

lemma list_all_remove_nth: "list_all P xs \<Longrightarrow> list_all P (remove_nth k xs)"
  using set_remove_nth_subset [of k xs] by (auto simp: list_all_iff)

lemma remove_nth_decomp: "k < length xs \<Longrightarrow> xs = take k xs @ xs ! k # drop (Suc k) xs"
  by (simp add: id_take_nth_drop)

lemma length_filter_remove_nth:
  assumes "k < length xs"
  shows "length (filter P (remove_nth k xs)) + (if P (xs ! k) then 1 else 0) = length (filter P xs)"
proof -
  have "length (filter P xs) = length (filter P (take k xs @ xs ! k # drop (Suc k) xs))"
    using remove_nth_decomp [OF assms] by simp
  then show ?thesis
    by (simp add: remove_nth_def)
qed

lemma remove_nth_0 [simp]: "remove_nth 0 (x # xs) = xs"
  by (simp add: remove_nth_def)

lemma length_filter_update:
  "k < length xs \<Longrightarrow> P y = P (xs ! k) \<Longrightarrow> length (filter P (xs[k := y])) = length (filter P xs)"
proof (induction xs arbitrary: k)
  case Nil
  then show ?case by simp
next
  case (Cons x xs)
  then show ?case by (cases k) auto
qed

lemma list_ex_removed:
  "k < length xs \<Longrightarrow> list_ex P xs \<longleftrightarrow> P (xs ! k) \<or> list_ex P (remove_nth k xs)"
proof -
  assume "k < length xs"
  then have "list_ex P xs = list_ex P (take k xs @ xs ! k # drop (Suc k) xs)"
    using remove_nth_decomp [of k xs] by simp
  then show ?thesis
    by (auto simp: remove_nth_def)
qed

end
