(* ===== verification/Regex.thy ===== *)
theory Regex
  imports JS_Prelude
begin

text \<open>
  The regular expressions that the sources test strings with.

  \<^verbatim>\<open>src/src/pages/img.tsx\<close> accepts the type of a file by
  \<^verbatim>\<open>file.type.match(/^image\/(jpeg|jpg|png|webp)$/)\<close>. The pattern is anchored
  at both ends, so the test asks whether the whole string is a word of the
  pattern. \<open>rexp\<close> is the fragment of patterns that the sources use:
  characters, concatenation and alternation. \<open>lang\<close> is the set of words of
  a pattern, its meaning; \<open>regex_test\<close> is the test as a program, which reads
  the string once from the left and takes the derivative of the pattern by
  each character. The lemmas show that the program decides the meaning.
\<close>

section \<open>Patterns\<close>

datatype rexp = Zero | One | Atom char | Plus rexp rexp | Times rexp rexp

primrec lang :: "rexp \<Rightarrow> string set" where
  "lang Zero = {}"
| "lang One = {[]}"
| "lang (Atom c) = {[c]}"
| "lang (Plus r s) = lang r \<union> lang s"
| "lang (Times r s) = {u @ v | u v. u \<in> lang r \<and> v \<in> lang s}"

primrec nullable :: "rexp \<Rightarrow> bool" where
  "nullable Zero = False"
| "nullable One = True"
| "nullable (Atom c) = False"
| "nullable (Plus r s) = (nullable r \<or> nullable s)"
| "nullable (Times r s) = (nullable r \<and> nullable s)"

primrec deriv :: "char \<Rightarrow> rexp \<Rightarrow> rexp" where
  "deriv c Zero = Zero"
| "deriv c One = Zero"
| "deriv c (Atom d) = (if c = d then One else Zero)"
| "deriv c (Plus r s) = Plus (deriv c r) (deriv c s)"
| "deriv c (Times r s) =
     (if nullable r then Plus (Times (deriv c r) s) (deriv c s) else Times (deriv c r) s)"

text \<open>\<^verbatim>\<open>/^r$/.test(s)\<close>, and with it whether \<^verbatim>\<open>s.match(/^r$/)\<close> is not \<^verbatim>\<open>null\<close>.\<close>

definition regex_test :: "rexp \<Rightarrow> string \<Rightarrow> bool" where
  "regex_test r s = nullable (foldl (\<lambda>r c. deriv c r) r s)"

text \<open>A string of characters as a pattern, and a group of alternatives.\<close>

primrec literal :: "string \<Rightarrow> rexp" where
  "literal [] = One"
| "literal (c # cs) = Times (Atom c) (literal cs)"

primrec alternatives :: "string list \<Rightarrow> rexp" where
  "alternatives [] = Zero"
| "alternatives (w # ws) = Plus (literal w) (alternatives ws)"


section \<open>Lemmas\<close>

lemma nullable_iff: "nullable r \<longleftrightarrow> [] \<in> lang r"
  by (induction r) auto

lemma lang_deriv: "lang (deriv c r) = {w. c # w \<in> lang r}"
proof (induction r)
  case (Times r s)
  have "{w. c # w \<in> lang (Times r s)} =
      {u @ v | u v. c # u \<in> lang r \<and> v \<in> lang s} \<union> {w. [] \<in> lang r \<and> c # w \<in> lang s}"
    by (auto simp: Cons_eq_append_conv)
  with Times show ?case
    by (auto simp: nullable_iff)
qed auto

lemma regex_test_Nil [simp]: "regex_test r [] = nullable r"
  by (simp add: regex_test_def)

lemma regex_test_Cons [simp]: "regex_test r (c # s) = regex_test (deriv c r) s"
  by (simp add: regex_test_def)

lemma regex_test_iff: "regex_test r s \<longleftrightarrow> s \<in> lang r"
  by (induction s arbitrary: r) (simp_all add: nullable_iff lang_deriv)

lemma lang_literal [simp]: "lang (literal w) = {w}"
  by (induction w) auto

lemma lang_alternatives [simp]: "lang (alternatives ws) = set ws"
  by (induction ws) auto

lemma lang_Times_literal [simp]: "lang (Times (literal w) r) = (\<lambda>v. w @ v) ` lang r"
  by auto

end
