(* ===== verification/Types.thy ===== *)
theory Types
  imports JS_Prelude
begin

text \<open>
  The data model of \<^verbatim>\<open>src/src/types.ts\<close>.

  \<^item> The string-literal unions \<^verbatim>\<open>"Lost" | "Found"\<close> and \<^verbatim>\<open>"Active" | "Done"\<close>
    are the datatypes \<open>ItemType\<close> and \<open>ItemStatus\<close>; \<open>ItemType_str\<close> and
    \<open>ItemStatus_str\<close> give back the literal a value is written with.
  \<^item> The interface \<^verbatim>\<open>CreateItemData\<close> is a record, and \<^verbatim>\<open>Item\<close> extends it by
    \<open>id'\<close> (the field \<^verbatim>\<open>id\<close>; the name \<open>id\<close> is HOL's identity function) and
    the optional \<open>createdAt\<close>: every \<open>Item\<close> is structurally a
    \<open>CreateItemData\<close>, as in TypeScript.
  \<^item> \<^verbatim>\<open>keyof CreateItemData\<close> is the datatype \<open>CreateItemData_key\<close>, an
    instance of the class \<open>enum\<close>, so that a statement over all keys of an
    object is executable. A well-typed assignment \<^verbatim>\<open>[field]: value\<close> to a
    \<^verbatim>\<open>CreateItemData\<close> is a \<open>field_change\<close>; \<open>apply_change\<close> performs it.
  \<^item> \<^verbatim>\<open>Partial<Item>\<close>, the type of an update payload, is the record
    \<open>PartialItem\<close> of optional fields; \<open>partial_of\<close> is the use of an
    \<open>Item\<close> at that type.
  \<^item> \<^verbatim>\<open>ItemsState\<close> is the state record of the Redux slice in \<open>Store\<close>.
  \<^item> \<open>example_item\<close> builds the concrete items that instantiate theorems.
\<close>

section \<open>Items\<close>

datatype ItemType = Lost | Found

datatype ItemStatus = Active | Done

record CreateItemData =
  imageUrl :: string
  name :: string
  location :: string
  date :: string
  type :: ItemType
  status :: ItemStatus

record Item = CreateItemData +
  id' :: string
  createdAt :: "string option"

record ItemsState =
  items :: "Item list"
  loading :: bool
  error :: "string option"

text \<open>
  \<^verbatim>\<open>Partial<Item>\<close>: every field of \<open>Item\<close> made optional. \<open>None\<close> is a
  field that is absent or \<^verbatim>\<open>undefined\<close>.
\<close>

record PartialItem =
  p_id :: "string option"
  p_imageUrl :: "string option"
  p_name :: "string option"
  p_location :: "string option"
  p_date :: "string option"
  p_type :: "ItemType option"
  p_status :: "ItemStatus option"
  p_createdAt :: "string option"

text \<open>An \<open>Item\<close> used where a \<^verbatim>\<open>Partial<Item>\<close> is expected.\<close>

definition partial_of :: "Item \<Rightarrow> PartialItem" where
  "partial_of item =
     \<lparr>p_id = Some (id' item), p_imageUrl = Some (imageUrl item), p_name = Some (name item),
      p_location = Some (location item), p_date = Some (date item), p_type = Some (type item),
      p_status = Some (status item), p_createdAt = createdAt item\<rparr>"

text \<open>The empty object \<^verbatim>\<open>{}\<close> as a \<^verbatim>\<open>Partial<Item>\<close>.\<close>

definition empty_partial :: PartialItem where
  "empty_partial =
     \<lparr>p_id = None, p_imageUrl = None, p_name = None, p_location = None, p_date = None,
      p_type = None, p_status = None, p_createdAt = None\<rparr>"

fun ItemType_str :: "ItemType \<Rightarrow> string" where
  "ItemType_str Lost = ''Lost''"
| "ItemType_str Found = ''Found''"

fun ItemStatus_str :: "ItemStatus \<Rightarrow> string" where
  "ItemStatus_str Active = ''Active''"
| "ItemStatus_str Done = ''Done''"


section \<open>Keys and assignments\<close>

datatype CreateItemData_key = K_imageUrl | K_name | K_location | K_date | K_type | K_status

datatype field_change =
    Set_imageUrl string
  | Set_name string
  | Set_location string
  | Set_date string
  | Set_type ItemType
  | Set_status ItemStatus

fun change_key :: "field_change \<Rightarrow> CreateItemData_key" where
  "change_key (Set_imageUrl v) = K_imageUrl"
| "change_key (Set_name v) = K_name"
| "change_key (Set_location v) = K_location"
| "change_key (Set_date v) = K_date"
| "change_key (Set_type v) = K_type"
| "change_key (Set_status v) = K_status"

text \<open>The object spread \<^verbatim>\<open>{ ...prev, [field]: value }\<close> on a \<^verbatim>\<open>CreateItemData\<close>.\<close>

fun apply_change :: "field_change \<Rightarrow> 'a CreateItemData_scheme \<Rightarrow> 'a CreateItemData_scheme" where
  "apply_change (Set_imageUrl v) d = d\<lparr>imageUrl := v\<rparr>"
| "apply_change (Set_name v) d = d\<lparr>name := v\<rparr>"
| "apply_change (Set_location v) d = d\<lparr>location := v\<rparr>"
| "apply_change (Set_date v) d = d\<lparr>date := v\<rparr>"
| "apply_change (Set_type v) d = d\<lparr>type := v\<rparr>"
| "apply_change (Set_status v) d = d\<lparr>status := v\<rparr>"

definition all_keys :: "CreateItemData_key list" where
  "all_keys = [K_imageUrl, K_name, K_location, K_date, K_type, K_status]"

instantiation CreateItemData_key :: enum
begin

definition enum_CreateItemData_key :: "CreateItemData_key list" where
  "enum_CreateItemData_key = all_keys"

definition enum_all_CreateItemData_key :: "(CreateItemData_key \<Rightarrow> bool) \<Rightarrow> bool" where
  "enum_all_CreateItemData_key P = list_all P all_keys"

definition enum_ex_CreateItemData_key :: "(CreateItemData_key \<Rightarrow> bool) \<Rightarrow> bool" where
  "enum_ex_CreateItemData_key P = list_ex P all_keys"

instance
proof
  show univ: "(UNIV :: CreateItemData_key set) = set enum_class.enum"
  proof -
    have "k \<in> set all_keys" for k
      by (cases k) (simp_all add: all_keys_def)
    then show ?thesis
      by (auto simp: enum_CreateItemData_key_def)
  qed
  show "distinct (enum_class.enum :: CreateItemData_key list)"
    by (simp add: enum_CreateItemData_key_def all_keys_def)
  show "enum_class.enum_all P = Ball UNIV P" for P :: "CreateItemData_key \<Rightarrow> bool"
    unfolding univ by (simp add: enum_all_CreateItemData_key_def enum_CreateItemData_key_def list_all_iff)
  show "enum_class.enum_ex P = Bex UNIV P" for P :: "CreateItemData_key \<Rightarrow> bool"
    unfolding univ by (simp add: enum_ex_CreateItemData_key_def enum_CreateItemData_key_def list_ex_iff)
qed

end


section \<open>Example data\<close>

text \<open>An item with the given identifier, name, type and status, for concrete instances of the theorems.\<close>

definition example_item :: "string \<Rightarrow> string \<Rightarrow> ItemType \<Rightarrow> ItemStatus \<Rightarrow> Item" where
  "example_item i n t st =
     \<lparr>imageUrl = [], name = n, location = ''Hall'', date = ''2025-01-01'', type = t, status = st,
      id' = i, createdAt = None\<rparr>"


section \<open>Lemmas\<close>

lemma example_item_fields [simp]:
  "id' (example_item i n t st) = i"
  "name (example_item i n t st) = n"
  "type (example_item i n t st) = t"
  "status (example_item i n t st) = st"
  "imageUrl (example_item i n t st) = []"
  by (simp_all add: example_item_def)

lemma partial_of_inj [simp]: "partial_of a = partial_of b \<longleftrightarrow> a = b"
  by (cases a; cases b) (auto simp: partial_of_def)

lemma partial_of_fields [simp]:
  "p_id (partial_of item) = Some (id' item)"
  "p_imageUrl (partial_of item) = Some (imageUrl item)"
  "p_name (partial_of item) = Some (name item)"
  "p_location (partial_of item) = Some (location item)"
  "p_date (partial_of item) = Some (date item)"
  "p_type (partial_of item) = Some (type item)"
  "p_status (partial_of item) = Some (status item)"
  "p_createdAt (partial_of item) = createdAt item"
  by (simp_all add: partial_of_def)

lemma ItemType_str_inj [simp]: "ItemType_str a = ItemType_str b \<longleftrightarrow> a = b"
  by (cases a; cases b) simp_all

lemma ItemStatus_str_inj [simp]: "ItemStatus_str a = ItemStatus_str b \<longleftrightarrow> a = b"
  by (cases a; cases b) simp_all

lemma ItemType_str_truthy [simp]: "truthy (ItemType_str t)"
  by (cases t) (simp_all add: truthy_def)

lemma ItemStatus_str_truthy [simp]: "truthy (ItemStatus_str s)"
  by (cases s) (simp_all add: truthy_def)

lemma set_all_keys [simp]: "set all_keys = UNIV"
  using enum_UNIV [where 'a = CreateItemData_key] by (simp add: enum_CreateItemData_key_def)

lemma distinct_all_keys [simp]: "distinct all_keys"
  by (simp add: all_keys_def)

lemma length_all_keys [simp]: "length all_keys = 6"
  by (simp add: all_keys_def)

text \<open>An assignment changes the field of its key and no other field.\<close>

lemma apply_change_other:
  "change_key c \<noteq> K_imageUrl \<Longrightarrow> imageUrl (apply_change c d) = imageUrl d"
  "change_key c \<noteq> K_name \<Longrightarrow> name (apply_change c d) = name d"
  "change_key c \<noteq> K_location \<Longrightarrow> location (apply_change c d) = location d"
  "change_key c \<noteq> K_date \<Longrightarrow> date (apply_change c d) = date d"
  "change_key c \<noteq> K_type \<Longrightarrow> type (apply_change c d) = type d"
  "change_key c \<noteq> K_status \<Longrightarrow> status (apply_change c d) = status d"
  by (cases c; simp)+

lemma apply_change_more [simp]:
  "CreateItemData.more (apply_change c d) = CreateItemData.more d"
  by (cases c) simp_all

lemma apply_change_idem [simp]: "apply_change c (apply_change c d) = apply_change c d"
  by (cases c) simp_all

lemma apply_change_same_key:
  "change_key c = change_key c' \<Longrightarrow> apply_change c (apply_change c' d) = apply_change c d"
  by (cases c; cases c') simp_all

lemma apply_change_commute:
  "change_key c \<noteq> change_key c' \<Longrightarrow>
     apply_change c (apply_change c' d) = apply_change c' (apply_change c d)"
  by (cases c; cases c') simp_all

end
