(* ===== verification/Api.thy ===== *)
theory Api
  imports Types
begin

text \<open>
  The HTTP client of \<^verbatim>\<open>src/src/services/api.ts\<close> and the effects a view can
  ask for.

  Each of the four exported functions builds one request against the remote
  collection and hands back the body of the answer. The model keeps the
  request as a value: a \<open>request\<close> has the verb, the path below the base
  address and the body that \<^verbatim>\<open>axios\<close> is given. The definitions
  \<open>getItems\<close>, \<open>createItem\<close>, \<open>updateItem_req\<close> (the function
  \<^verbatim>\<open>updateItem\<close>; the reducer of the slice has that name in \<open>Store\<close>) and
  \<open>deleteItem\<close> are the requests of the four functions. Sending and the
  network are not modelled; the answer reaches a view as an event of its
  machine.

  A view does not send by itself: its handlers return \<open>command\<close>s, the calls
  that leave the component. \<open>Send\<close> is a call of one of the four functions
  through a mutation, \<open>InvalidateItems\<close> is
  \<^verbatim>\<open>queryClient.invalidateQueries({ queryKey: ["items"] })\<close>, and \<open>OnClose\<close>
  and \<open>OnDelete\<close> are the callbacks a parent passes to the detail dialog.

  \<open>api_call\<close> names the four calls; \<open>encode\<close> is the request of a call
  and \<open>decode\<close> reads a request back as the remote collection does, after
  the table of its interface. A request is well formed (\<open>wf_request\<close>) when
  it can be read back.

  The lemmas say which verb and path each function uses, that a request
  determines the call that built it, and that \<open>decode\<close> is the inverse of
  \<open>encode\<close> on the calls whose identifier is not empty.
\<close>

section \<open>Requests\<close>

datatype http_verb = GET | POST | PUT | DELETE

datatype body = NoBody | CreateBody CreateItemData | PartialBody PartialItem

record request =
  req_verb :: http_verb
  req_path :: string
  req_body :: body

definition baseURL :: string where
  "baseURL = ''https://6888b4f0adf0e59551bb0dbe.mockapi.io/api/v1''"

definition getItems :: request where
  "getItems = \<lparr>req_verb = GET, req_path = ''/items'', req_body = NoBody\<rparr>"

definition createItem :: "CreateItemData \<Rightarrow> request" where
  "createItem d = \<lparr>req_verb = POST, req_path = ''/items'', req_body = CreateBody d\<rparr>"

definition updateItem_req :: "string \<Rightarrow> PartialItem \<Rightarrow> request" where
  "updateItem_req i d = \<lparr>req_verb = PUT, req_path = ''/items/'' @ i, req_body = PartialBody d\<rparr>"

definition deleteItem :: "string \<Rightarrow> request" where
  "deleteItem i = \<lparr>req_verb = DELETE, req_path = ''/items/'' @ i, req_body = NoBody\<rparr>"

text \<open>The address a request goes to.\<close>

definition url :: "request \<Rightarrow> string" where
  "url r = baseURL @ req_path r"


section \<open>The interface of the remote collection\<close>

text \<open>
  The four calls of the client, and the table of the interface that the
  remote collection offers: which verb, path and body make up a call. An
  identifier that is part of a path must not be empty. \<open>decode\<close> reads a
  request as the remote collection does, \<open>encode\<close> is the request that the
  client builds for a call.
\<close>

datatype api_call =
    ListCall
  | CreateCall CreateItemData
  | UpdateCall string PartialItem
  | DeleteCall string

fun encode :: "api_call \<Rightarrow> request" where
  "encode ListCall = getItems"
| "encode (CreateCall d) = createItem d"
| "encode (UpdateCall i p) = updateItem_req i p"
| "encode (DeleteCall i) = deleteItem i"

definition item_id :: "string \<Rightarrow> string option" where
  "item_id path =
     (if prefix ''/items/'' path \<and> length ''/items/'' < length path
      then Some (drop (length ''/items/'') path) else None)"

definition decode :: "request \<Rightarrow> api_call option" where
  "decode r =
     (case (req_verb r, req_body r) of
        (GET, NoBody) \<Rightarrow> if req_path r = ''/items'' then Some ListCall else None
      | (POST, CreateBody d) \<Rightarrow> if req_path r = ''/items'' then Some (CreateCall d) else None
      | (PUT, PartialBody p) \<Rightarrow> map_option (\<lambda>i. UpdateCall i p) (item_id (req_path r))
      | (DELETE, NoBody) \<Rightarrow> map_option DeleteCall (item_id (req_path r))
      | _ \<Rightarrow> None)"

definition wf_request :: "request \<Rightarrow> bool" where
  "wf_request r \<longleftrightarrow> decode r \<noteq> None"

fun wf_call :: "api_call \<Rightarrow> bool" where
  "wf_call (UpdateCall i p) = truthy i"
| "wf_call (DeleteCall i) = truthy i"
| "wf_call c = True"


section \<open>Commands of a view\<close>

datatype command = Send request | InvalidateItems | OnClose | OnDelete string

definition is_send :: "http_verb \<Rightarrow> command \<Rightarrow> bool" where
  "is_send v c = (case c of Send r \<Rightarrow> req_verb r = v | _ \<Rightarrow> False)"


section \<open>Lemmas\<close>

lemmas api_defs = getItems_def createItem_def updateItem_req_def deleteItem_def

lemma req_verb_simps [simp]:
  "req_verb getItems = GET"
  "req_verb (createItem d) = POST"
  "req_verb (updateItem_req i p) = PUT"
  "req_verb (deleteItem i) = DELETE"
  by (simp_all add: api_defs)

lemma req_path_simps [simp]:
  "req_path getItems = ''/items''"
  "req_path (createItem d) = ''/items''"
  "req_path (updateItem_req i p) = ''/items/'' @ i"
  "req_path (deleteItem i) = ''/items/'' @ i"
  by (simp_all add: api_defs)

lemma req_body_simps [simp]:
  "req_body getItems = NoBody"
  "req_body (createItem d) = CreateBody d"
  "req_body (updateItem_req i p) = PartialBody p"
  "req_body (deleteItem i) = NoBody"
  by (simp_all add: api_defs)

lemma createItem_inj [simp]: "createItem d = createItem d' \<longleftrightarrow> d = d'"
  by (auto simp: createItem_def)

lemma updateItem_req_inj [simp]: "updateItem_req i p = updateItem_req j q \<longleftrightarrow> i = j \<and> p = q"
  by (auto simp: updateItem_req_def)

lemma deleteItem_inj [simp]: "deleteItem i = deleteItem j \<longleftrightarrow> i = j"
  by (auto simp: deleteItem_def)

lemma request_distinct [simp]:
  "createItem d \<noteq> updateItem_req i p" "createItem d \<noteq> deleteItem i" "createItem d \<noteq> getItems"
  "updateItem_req i p \<noteq> createItem d" "updateItem_req i p \<noteq> deleteItem j" "updateItem_req i p \<noteq> getItems"
  "deleteItem i \<noteq> createItem d" "deleteItem i \<noteq> updateItem_req j p" "deleteItem i \<noteq> getItems"
  "getItems \<noteq> createItem d" "getItems \<noteq> updateItem_req i p" "getItems \<noteq> deleteItem i"
  by (simp_all add: api_defs)

lemma is_send_simps [simp]:
  "is_send v (Send r) \<longleftrightarrow> req_verb r = v"
  "\<not> is_send v InvalidateItems"
  "\<not> is_send v OnClose"
  "\<not> is_send v (OnDelete i)"
  by (simp_all add: is_send_def)

lemma item_id_path [simp]: "item_id (''/items/'' @ i) = (if i = [] then None else Some i)"
  by (simp add: item_id_def)

lemma item_id_Some_iff: "item_id path = Some i \<longleftrightarrow> path = ''/items/'' @ i \<and> i \<noteq> []"
  by (auto simp: item_id_def prefix_def)

lemma decode_encode: "decode (encode c) = (if wf_call c then Some c else None)"
  by (cases c) (simp_all add: decode_def api_defs truthy_def item_id_def)

lemma encode_decode: "decode r = Some c \<Longrightarrow> encode c = r"
  by (cases r; cases c)
    (auto simp: decode_def api_defs item_id_Some_iff
      split: http_verb.splits body.splits if_splits)

lemma wf_request_simps [simp]:
  "wf_request getItems"
  "wf_request (createItem d)"
  "wf_request (updateItem_req i p) \<longleftrightarrow> truthy i"
  "wf_request (deleteItem i) \<longleftrightarrow> truthy i"
  using decode_encode [of ListCall] decode_encode [of "CreateCall d"]
    decode_encode [of "UpdateCall i p"] decode_encode [of "DeleteCall i"]
  by (simp_all add: wf_request_def)

lemma url_prefix: "prefix baseURL (url r)"
  by (simp add: url_def)


section \<open>Properties\<close>

text \<open>
  Claim C19 (requests are read back as the calls that built them). A request
  is read as a call exactly when it is the request the client builds for that
  call and the identifier of the call, if it has one, is not empty.
\<close>

theorem request_roundtrip:
  "decode r = Some c \<longleftrightarrow> encode c = r \<and> wf_call c"
proof
  assume d: "decode r = Some c"
  then have e: "encode c = r"
    by (rule encode_decode)
  with d decode_encode [of c] show "encode c = r \<and> wf_call c"
    by (simp split: if_splits)
next
  assume "encode c = r \<and> wf_call c"
  with decode_encode [of c] show "decode r = Some c"
    by auto
qed

end
