(* ===== verification/Ui.thy ===== *)
theory Ui
  imports Types
begin

text \<open>
  What the views pass to the component kit.

  The views of \<^verbatim>\<open>src/src/pages\<close> choose the look of a button or a badge by
  the property \<^verbatim>\<open>variant\<close>, and they show the same stand-in picture for an
  item without an image address. \<open>variant\<close> is the datatype of the values
  the sources pass, \<open>fallbackImage\<close> the address of the stand-in picture.
  The kit itself (its markup and styles) is not modelled.
\<close>

datatype variant = Default | Ghost | Outline | Destructive | Secondary

definition fallbackImage :: string where
  "fallbackImage = ''https://daprint.ru/upload/iblock/f01/6j6q3imqo9csrtj08j642hdmzl4dzapv.jpg''"

lemma truthy_fallbackImage [simp]: "truthy fallbackImage"
  by (simp add: fallbackImage_def truthy_def)

lemma truthy_or_else_fallbackImage [simp]: "truthy (or_else u fallbackImage)"
  by simp

end
