(* ===== verification/Store.thy ===== *)
theory Store
  imports Types
begin

text \<open>
  The Redux slice of \<^verbatim>\<open>src/src/lib/store.ts\<close>.

  The slice state is the record \<open>ItemsState\<close>; each reducer of
  \<^verbatim>\<open>createSlice\<close> is one definition that takes the state and the action's
  payload and returns the new state (the mutation that Redux Toolkit performs
  on its draft). \<open>action\<close> is the datatype of the exported action creators
  and \<open>reducer\<close> the slice reducer that dispatches on it; \<open>dispatch_all\<close>
  runs a sequence of actions from a state, as successive \<^verbatim>\<open>store.dispatch\<close>
  calls do.

  The lemmas give the effect of every reducer on every field, the invariant
  \<open>distinct_ids\<close> (no two cached items share an identifier) with the actions
  that keep it, and a refinement: \<open>item_map\<close> reads the cached list as a
  finite map from identifiers to items, and every action implements the
  operation \<open>abs_step\<close> of a keyed collection on that map: insertion of a
  fresh key, overwriting of a bound key, deletion.
\<close>

section \<open>State and reducers\<close>

definition initialState :: ItemsState where
  "initialState = \<lparr>items = [], loading = False, error = None\<rparr>"

definition setItems :: "ItemsState \<Rightarrow> Item list \<Rightarrow> ItemsState" where
  "setItems state payload = state\<lparr>items := payload, loading := False, error := None\<rparr>"

definition setLoading :: "ItemsState \<Rightarrow> bool \<Rightarrow> ItemsState" where
  "setLoading state payload = state\<lparr>loading := payload\<rparr>"

definition setError :: "ItemsState \<Rightarrow> string option \<Rightarrow> ItemsState" where
  "setError state payload = state\<lparr>error := payload, loading := False\<rparr>"

definition addItem :: "ItemsState \<Rightarrow> Item \<Rightarrow> ItemsState" where
  "addItem state payload = state\<lparr>items := items state @ [payload]\<rparr>"

definition updateItem :: "ItemsState \<Rightarrow> Item \<Rightarrow> ItemsState" where
  "updateItem state payload =
     (let index = findIndex (\<lambda>item. id' item = id' payload) (items state)
      in if index \<noteq> - 1
         then state\<lparr>items := (items state)[nat index := payload]\<rparr>
         else state)"

definition removeItem :: "ItemsState \<Rightarrow> string \<Rightarrow> ItemsState" where
  "removeItem state payload =
     state\<lparr>items := filter (\<lambda>item. id' item \<noteq> payload) (items state)\<rparr>"

datatype action =
    SetItems "Item list"
  | SetLoading bool
  | SetError "string option"
  | AddItem Item
  | UpdateItem Item
  | RemoveItem string

fun reducer :: "ItemsState \<Rightarrow> action \<Rightarrow> ItemsState" where
  "reducer state (SetItems payload) = setItems state payload"
| "reducer state (SetLoading payload) = setLoading state payload"
| "reducer state (SetError payload) = setError state payload"
| "reducer state (AddItem payload) = addItem state payload"
| "reducer state (UpdateItem payload) = updateItem state payload"
| "reducer state (RemoveItem payload) = removeItem state payload"

definition dispatch_all :: "ItemsState \<Rightarrow> action list \<Rightarrow> ItemsState" where
  "dispatch_all state actions = foldl reducer state actions"


section \<open>Invariant and abstraction\<close>

definition ids :: "ItemsState \<Rightarrow> string list" where
  "ids state = map id' (items state)"

definition distinct_ids :: "ItemsState \<Rightarrow> bool" where
  "distinct_ids state \<longleftrightarrow> distinct (ids state)"

text \<open>An action is \<open>id_safe\<close> in a state when it cannot introduce a duplicate identifier.\<close>

fun id_safe :: "ItemsState \<Rightarrow> action \<Rightarrow> bool" where
  "id_safe state (SetItems payload) = distinct (map id' payload)"
| "id_safe state (AddItem payload) = (id' payload \<notin> set (ids state))"
| "id_safe state _ = True"

fun all_id_safe :: "ItemsState \<Rightarrow> action list \<Rightarrow> bool" where
  "all_id_safe state [] = True"
| "all_id_safe state (a # as) = (id_safe state a \<and> all_id_safe (reducer state a) as)"

definition keyed :: "Item list \<Rightarrow> (string \<times> Item) list" where
  "keyed xs = map (\<lambda>item. (id' item, item)) xs"

definition item_map :: "ItemsState \<Rightarrow> (string \<rightharpoonup> Item)" where
  "item_map state = map_of (keyed (items state))"


text \<open>
  The specification of the slice: a collection keyed by identifier. Adding
  binds a fresh key, updating overwrites a bound key, removing unbinds a key;
  adding under a bound key and updating an unbound key change nothing that a
  lookup by identifier sees.
\<close>

fun abs_step :: "(string \<rightharpoonup> Item) \<Rightarrow> action \<Rightarrow> (string \<rightharpoonup> Item)" where
  "abs_step m (SetItems payload) = map_of (keyed payload)"
| "abs_step m (AddItem payload) = (if id' payload \<in> dom m then m else m(id' payload \<mapsto> payload))"
| "abs_step m (UpdateItem payload) = (if id' payload \<in> dom m then m(id' payload \<mapsto> payload) else m)"
| "abs_step m (RemoveItem payload) = m(payload := None)"
| "abs_step m _ = m"

text \<open>A sequence of dispatches, used to instantiate the theorems.\<close>

definition example_actions :: "action list" where
  "example_actions =
     [AddItem (example_item ''1'' ''Keys'' Lost Active),
      AddItem (example_item ''2'' ''Bag'' Found Done),
      UpdateItem (example_item ''2'' ''Bag'' Found Active),
      RemoveItem ''1'',
      AddItem (example_item ''3'' ''Scarf'' Lost Active)]"

section \<open>Effect of the reducers\<close>

lemmas reducer_defs =
  setItems_def setLoading_def setError_def addItem_def updateItem_def removeItem_def

fun_cases reducer_SetItemsE: "reducer state (SetItems payload) = state'"
fun_cases reducer_UpdateItemE: "reducer state (UpdateItem payload) = state'"

lemma dispatch_all_simps [simp]:
  "dispatch_all state [] = state"
  "dispatch_all state (a # as) = dispatch_all (reducer state a) as"
  by (simp_all add: dispatch_all_def)

lemma dispatch_all_append: "dispatch_all state (as @ bs) = dispatch_all (dispatch_all state as) bs"
  by (simp add: dispatch_all_def)

lemma setItems_fields [simp]:
  "items (setItems state payload) = payload"
  "loading (setItems state payload) = False"
  "error (setItems state payload) = None"
  by (simp_all add: setItems_def)

lemma setLoading_fields [simp]:
  "items (setLoading state payload) = items state"
  "loading (setLoading state payload) = payload"
  "error (setLoading state payload) = error state"
  by (simp_all add: setLoading_def)

lemma setError_fields [simp]:
  "items (setError state payload) = items state"
  "loading (setError state payload) = False"
  "error (setError state payload) = payload"
  by (simp_all add: setError_def)

lemma addItem_fields [simp]:
  "items (addItem state payload) = items state @ [payload]"
  "loading (addItem state payload) = loading state"
  "error (addItem state payload) = error state"
  by (simp_all add: addItem_def)

lemma removeItem_fields [simp]:
  "items (removeItem state k) = filter (\<lambda>item. id' item \<noteq> k) (items state)"
  "loading (removeItem state k) = loading state"
  "error (removeItem state k) = error state"
  by (simp_all add: removeItem_def)

lemma updateItem_frame [simp]:
  "loading (updateItem state payload) = loading state"
  "error (updateItem state payload) = error state"
  by (simp_all add: updateItem_def Let_def)

lemma findIndex_id_iff:
  "findIndex (\<lambda>item. id' item = k) (items state) = - 1 \<longleftrightarrow> k \<notin> set (ids state)"
  by (auto simp: findIndex_none_iff ids_def)

lemma updateItem_absent:
  "id' payload \<notin> set (ids state) \<Longrightarrow> updateItem state payload = state"
  by (simp add: updateItem_def findIndex_id_iff)

lemma updateItem_present:
  "id' payload \<in> set (ids state) \<Longrightarrow>
     items (updateItem state payload) =
       (items state)[nat (findIndex (\<lambda>item. id' item = id' payload) (items state)) := payload]"
  by (simp add: updateItem_def findIndex_id_iff)

lemma length_updateItem [simp]:
  "length (items (updateItem state payload)) = length (items state)"
  by (simp add: updateItem_def Let_def)

lemma map_update_same:
  "i < length xs \<Longrightarrow> f (xs ! i) = f y \<Longrightarrow> map f (xs[i := y]) = map f xs"
  by (simp add: map_update list_update_same_conv)

lemma ids_updateItem [simp]: "ids (updateItem state payload) = ids state"
proof (cases "findIndex (\<lambda>item. id' item = id' payload) (items state) = - 1")
  case True
  then show ?thesis by (simp add: updateItem_def)
next
  case False
  let ?i = "nat (findIndex (\<lambda>item. id' item = id' payload) (items state))"
  from False have "?i < length (items state)"
    by (rule findIndex_nat_lt)
  moreover from False have "id' (items state ! ?i) = id' payload"
    by (rule findIndex_nth)
  ultimately have "map id' ((items state)[?i := payload]) = map id' (items state)"
    by (rule map_update_same)
  with False show ?thesis
    by (simp add: updateItem_def ids_def Let_def)
qed

lemma ids_removeItem: "ids (removeItem state k) = filter (\<lambda>i. i \<noteq> k) (ids state)"
  by (simp add: ids_def filter_map comp_def)

lemma ids_addItem [simp]: "ids (addItem state payload) = ids state @ [id' payload]"
  by (simp add: ids_def)

lemma ids_frame [simp]:
  "ids (setItems state xs) = map id' xs"
  "ids (setLoading state b) = ids state"
  "ids (setError state e) = ids state"
  by (simp_all add: ids_def)

lemma removeItem_not_in: "k \<notin> set (ids (removeItem state k))"
  by (simp add: ids_removeItem)

lemma findIndex_update_first:
  assumes found: "findIndex P xs \<noteq> - 1" and Py: "P y"
  shows "findIndex P (xs[nat (findIndex P xs) := y]) = findIndex P xs"
proof -
  define i where "i = nat (findIndex P xs)"
  define j where "j = nat (findIndex P (xs[i := y]))"
  have lt: "i < length xs"
    unfolding i_def using found by (rule findIndex_nat_lt)
  have first: "\<not> P (xs ! k)" if "k < i" for k
    using found that unfolding i_def by (rule findIndex_first)
  have found': "findIndex P (xs[i := y]) \<noteq> - 1"
    using lt Py by (auto simp: findIndex_none_iff set_update_memI)
  have Pj: "P (xs[i := y] ! j)"
    unfolding j_def using found' by (rule findIndex_nth)
  have "j = i"
  proof (rule ccontr)
    assume "j \<noteq> i"
    then consider "j < i" | "i < j" by linarith
    then show False
    proof cases
      case 1
      with Pj first [of j] show False by simp
    next
      case 2
      with found' have "\<not> P (xs[i := y] ! i)"
        unfolding j_def by (rule findIndex_first)
      with lt Py show False by simp
    qed
  qed
  with found found' findIndex_ge [of P xs] findIndex_ge [of P "xs[i := y]"]
  show ?thesis
    unfolding i_def [symmetric] by (simp add: j_def i_def)
qed

lemma updateItem_idem [simp]:
  "updateItem (updateItem state payload) payload = updateItem state payload"
proof (cases "id' payload \<in> set (ids state)")
  case False
  then show ?thesis by (simp add: updateItem_absent)
next
  case True
  let ?P = "\<lambda>item. id' item = id' payload"
  from True have found: "findIndex ?P (items state) \<noteq> - 1"
    by (simp add: findIndex_id_iff)
  then have "findIndex ?P ((items state)[nat (findIndex ?P (items state)) := payload]) =
      findIndex ?P (items state)"
    by (rule findIndex_update_first) simp
  with found show ?thesis
    by (simp add: updateItem_def Let_def)
qed

lemma removeItem_idem [simp]: "removeItem (removeItem state k) k = removeItem state k"
  by (simp add: removeItem_def)

lemma removeItem_addItem:
  "removeItem (addItem state payload) (id' payload) = removeItem state (id' payload)"
  by (simp add: removeItem_def addItem_def)


section \<open>The identifier invariant\<close>

lemma distinct_ids_initial [simp]: "distinct_ids initialState"
  by (simp add: distinct_ids_def ids_def initialState_def)

lemma reducer_distinct_ids:
  "distinct_ids state \<Longrightarrow> id_safe state a \<Longrightarrow> distinct_ids (reducer state a)"
  by (cases a) (simp_all add: distinct_ids_def ids_removeItem)


section \<open>The cached list as a finite map\<close>

lemma map_of_keyed_append:
  "map_of (keyed (xs @ [p])) =
     (if id' p \<in> dom (map_of (keyed xs)) then map_of (keyed xs)
      else (map_of (keyed xs))(id' p \<mapsto> p))"
  by (induction xs) (auto simp: keyed_def fun_eq_iff)

lemma map_of_keyed_filter:
  "map_of (keyed (filter (\<lambda>item. id' item \<noteq> k) xs)) = (map_of (keyed xs))(k := None)"
  by (induction xs) (auto simp: keyed_def fun_eq_iff)

lemma map_of_keyed_update_first:
  "findIndex (\<lambda>item. id' item = id' p) xs \<noteq> - 1 \<Longrightarrow>
     map_of (keyed (xs[nat (findIndex (\<lambda>item. id' item = id' p) xs) := p])) =
       (map_of (keyed xs))(id' p \<mapsto> p)"
proof (induction xs)
  case Nil
  then show ?case by simp
next
  case (Cons x xs)
  show ?case
  proof (cases "id' x = id' p")
    case True
    then show ?thesis by (auto simp: keyed_def fun_eq_iff)
  next
    case False
    with Cons.prems have found: "findIndex (\<lambda>item. id' item = id' p) xs \<noteq> - 1"
      by (auto simp: Let_def split: if_splits)
    with False have "nat (findIndex (\<lambda>item. id' item = id' p) (x # xs)) =
        Suc (nat (findIndex (\<lambda>item. id' item = id' p) xs))"
      by (intro findIndex_Cons_nat)
    with Cons.IH [OF found] False show ?thesis
      by (auto simp: keyed_def fun_eq_iff)
  qed
qed

lemma dom_item_map: "dom (item_map state) = set (ids state)"
  by (force simp: item_map_def keyed_def ids_def dom_map_of_conv_image_fst)

lemma item_map_Some_id: "item_map state k = Some item \<Longrightarrow> id' item = k"
  by (auto simp: item_map_def keyed_def dest!: map_of_SomeD)

lemma item_map_simps:
  "item_map (setItems state xs) = map_of (keyed xs)"
  "item_map (setLoading state b) = item_map state"
  "item_map (setError state e) = item_map state"
  "item_map (addItem state p) =
     (if id' p \<in> dom (item_map state) then item_map state else (item_map state)(id' p \<mapsto> p))"
  "item_map (removeItem state k) = (item_map state)(k := None)"
  by (simp_all add: item_map_def map_of_keyed_append map_of_keyed_filter)

lemma item_map_updateItem:
  "item_map (updateItem state p) =
     (if id' p \<in> dom (item_map state) then (item_map state)(id' p \<mapsto> p) else item_map state)"
  by (simp add: dom_item_map updateItem_absent)
    (simp add: item_map_def updateItem_def findIndex_id_iff map_of_keyed_update_first)

lemma removeItem_eq_iff: "removeItem state k = state \<longleftrightarrow> k \<notin> set (ids state)"
proof -
  have "removeItem state k = state \<longleftrightarrow> filter (\<lambda>item. id' item \<noteq> k) (items state) = items state"
    by (cases state) (simp add: removeItem_def)
  also have "\<dots> \<longleftrightarrow> k \<notin> set (ids state)"
    by (auto simp: filter_id_conv ids_def)
  finally show ?thesis .
qed


section \<open>Properties\<close>

text \<open>
  Claim C22 (the slice implements a keyed collection). Read as a finite map
  from identifiers to items, the state after any action is the state before
  it changed by the corresponding operation of a keyed collection.
\<close>

theorem reducer_refines_map:
  "item_map (reducer state a) = abs_step (item_map state) a"
  by (cases a) (simp_all add: item_map_simps item_map_updateItem)

text \<open>
  Identifiers stay distinct. From a state without duplicate identifiers, a
  sequence of dispatches in which no \<open>setItems
\<close> carries a
  duplicate and no \<open>addItem\<close> carries an identifier already present leads to
  a state without duplicate identifiers.
\<close>

theorem dispatch_all_distinct_ids:
  "distinct_ids state \<Longrightarrow> all_id_safe state as \<Longrightarrow> distinct_ids (dispatch_all state as)"
  by (induction as arbitrary: state) (simp_all add: reducer_distinct_ids)

theorem dispatch_all_distinct_ids_witness:
  "distinct_ids initialState \<and> all_id_safe initialState example_actions
     \<and> distinct_ids (dispatch_all initialState example_actions)
     \<and> ids (dispatch_all initialState example_actions) = [''2'', ''3'']"
proof -
  have safe: "all_id_safe initialState example_actions"
    by (simp add: example_actions_def initialState_def reducer_defs ids_def)
  have "ids (dispatch_all initialState example_actions) = [''2'', ''3'']"
    by (simp add: example_actions_def initialState_def reducer_defs ids_def)
  with dispatch_all_distinct_ids [OF distinct_ids_initial safe] safe show ?thesis
    by simp
qed

text \<open>
  An update replaces the first match only. \<open>updateItem
\<close> puts the
  payload in the place of the first item that has the payload's identifier and
  leaves every other item, the length and the order as they are; when no item
  has that identifier the state is unchanged.
\<close>

theorem updateItem_first_match:
  "updateItem state payload =
     (if list_ex (\<lambda>item. id' item = id' payload) (items state)
      then state\<lparr>items := takeWhile (\<lambda>item. id' item \<noteq> id' payload) (items state) @ payload #
                   tl (dropWhile (\<lambda>item. id' item \<noteq> id' payload) (items state))\<rparr>
      else state)"
  by (simp add: updateItem_def Let_def list_update_findIndex)
    (simp add: findIndex_takeWhile)

text \<open>
  A removal removes every match. After \<open>removeItem
\<close> no item has
  the removed identifier, the other items are kept in their order, and the
  state is unchanged exactly when the identifier was not present.
\<close>

theorem removeItem_removes:
  "set (ids (removeItem state k)) = set (ids state) - {k}
     \<and> subseq (items (removeItem state k)) (items state)
     \<and> (removeItem state k = state \<longleftrightarrow> k \<notin> set (ids state))"
  by (auto simp: ids_removeItem removeItem_eq_iff)

text \<open>
  The flags of the slice. \<open>loading\<close> is set by \<open>setLoading\<close> and
  cleared by \<open>setItems\<close> and \<open>setError\<close>; \<open>error\<close> is set by \<open>setError\<close>
  and cleared by \<open>setItems\<close>; no other action touches them.
\<close>

theorem reducer_flags:
  "loading (reducer state a) =
     (case a of SetLoading b \<Rightarrow> b | SetItems xs \<Rightarrow> False | SetError e \<Rightarrow> False | _ \<Rightarrow> loading state)
   \<and> error (reducer state a) =
     (case a of SetItems xs \<Rightarrow> None | SetError e \<Rightarrow> e | _ \<Rightarrow> error state)"
  by (cases a) simp_all

end
