(* ===== verification/ItemList.thy ===== *)
theory ItemList
  imports Api Ui "HOL-Library.Multiset"
begin

text \<open>
  The browse view of \<^verbatim>\<open>src/src/pages/list.tsx\<close> (component \<^verbatim>\<open>ItemList\<close>).

  \<^bold>\<open>State.\<close> The six \<^verbatim>\<open>useState\<close> cells are the fields of the record
  \<open>ItemList_state\<close>; the field \<open>debounceTimer\<close> is the pending
  \<^verbatim>\<open>setTimeout\<close> of the debounce effect, with the milliseconds left and the
  \<^verbatim>\<open>searchQuery\<close> its closure captured. What the hooks of the query library
  hand to a render (\<^verbatim>\<open>data\<close>, \<^verbatim>\<open>isLoading\<close>, \<^verbatim>\<open>updateMutation.isPending\<close>)
  is the record \<open>ItemList_env\<close>; the component only reads it.

  \<^bold>\<open>Effects.\<close> \<open>debounceEffect\<close> and \<open>resetPageEffect\<close> are the two
  \<^verbatim>\<open>useEffect\<close> bodies. Each takes the state of the previous render and the
  new one and runs when one of its dependencies differs; \<open>rerender\<close> runs
  both after a state change, \<open>mount\<close> runs both after the first render.

  \<^bold>\<open>Handlers.\<close> One definition per event handler of the component
  (\<open>onSearchChange\<close>, \<open>onTypeChange\<close>, \<open>onStatusChange\<close>,
  \<open>onViewModeClick\<close>, \<open>handlePageChange\<close>, \<open>handleMarkAsDone\<close>) and
  \<open>elapse\<close> for the passing of time, which fires the debounce timer.
  \<open>handleMarkAsDone\<close> does not change the local state: it returns the
  command that \<^verbatim>\<open>updateMutation.mutate\<close> stands for, the sending of the
  request of \<open>updateItem_req\<close>.

  \<^bold>\<open>Derived values.\<close> \<open>filteredItems\<close>, \<open>paginatedItems\<close> and \<open>totalPages\<close>
  are the two \<^verbatim>\<open>useMemo\<close> values and the page count, computed from the
  state and the fetched items.

  \<^bold>\<open>View.\<close> \<open>render\<close> computes what the JSX shows from the environment
  and the state: every expression of the markup that depends on them is a field
  of the view records; static text, icons and style classes are left out. The
  date of a card is its stored string (its display goes through the locale of
  the browser, which is not modelled).

  \<^bold>\<open>Machine.\<close> \<open>ItemList_event\<close> lists what can happen to a mounted
  component, \<open>offered\<close> says whether the rendered view offers an event (the
  control exists and is not disabled), \<open>ItemList_step\<close> applies its handler,
  and \<open>ItemList_reach\<close> is the set of states reachable from \<open>mount\<close>
  through offered events, whatever the environment hands to each render.
\<close>

section \<open>State\<close>

datatype 'a filter_choice = All' | Only 'a

datatype view_mode = Grid | ListMode

record ItemList_state =
  searchQuery :: string
  debouncedSearch :: string
  typeFilter :: "ItemType filter_choice"
  statusFilter :: "ItemStatus filter_choice"
  viewMode :: view_mode
  currentPage :: int
  debounceTimer :: "(nat \<times> string) option"

record ItemList_env =
  data :: "Item list option"
  isLoading :: bool
  isPending :: bool

definition itemsPerPage :: nat where
  "itemsPerPage = 6"

definition debounceDelay :: nat where
  "debounceDelay = 300"

definition ItemList_init :: ItemList_state where
  "ItemList_init =
     \<lparr>searchQuery = [], debouncedSearch = [], typeFilter = All', statusFilter = All',
      viewMode = Grid, currentPage = 1, debounceTimer = None\<rparr>"

text \<open>\<^verbatim>\<open>const { data: items = [] }\<close>: the fetched items, or the empty array before the first answer.\<close>

definition items_of :: "ItemList_env \<Rightarrow> Item list" where
  "items_of env = (case data env of None \<Rightarrow> [] | Some xs \<Rightarrow> xs)"


section \<open>Effects\<close>

definition debounceEffect :: "ItemList_state \<Rightarrow> ItemList_state \<Rightarrow> ItemList_state" where
  "debounceEffect prev s =
     (if searchQuery s \<noteq> searchQuery prev
      then s\<lparr>debounceTimer := Some (debounceDelay, searchQuery s)\<rparr>
      else s)"

definition resetPageEffect :: "ItemList_state \<Rightarrow> ItemList_state \<Rightarrow> ItemList_state" where
  "resetPageEffect prev s =
     (if debouncedSearch s \<noteq> debouncedSearch prev \<or> typeFilter s \<noteq> typeFilter prev
         \<or> statusFilter s \<noteq> statusFilter prev
      then s\<lparr>currentPage := 1\<rparr>
      else s)"

definition rerender :: "ItemList_state \<Rightarrow> ItemList_state \<Rightarrow> ItemList_state" where
  "rerender prev s = resetPageEffect prev (debounceEffect prev s)"

definition mount :: "ItemList_state \<Rightarrow> ItemList_state" where
  "mount s = s\<lparr>debounceTimer := Some (debounceDelay, searchQuery s), currentPage := 1\<rparr>"


section \<open>Derived values\<close>

definition matchesSearch :: "string \<Rightarrow> 'a CreateItemData_scheme \<Rightarrow> bool" where
  "matchesSearch q item = includes_str (toLowerCase (name item)) (toLowerCase q)"

definition matchesType :: "ItemType filter_choice \<Rightarrow> 'a CreateItemData_scheme \<Rightarrow> bool" where
  "matchesType tf item \<longleftrightarrow> tf = All' \<or> Only (type item) = tf"

definition matchesStatus :: "ItemStatus filter_choice \<Rightarrow> 'a CreateItemData_scheme \<Rightarrow> bool" where
  "matchesStatus sf item \<longleftrightarrow> sf = All' \<or> Only (status item) = sf"

definition matchesAll :: "ItemList_state \<Rightarrow> 'a CreateItemData_scheme \<Rightarrow> bool" where
  "matchesAll s item \<longleftrightarrow>
     matchesSearch (debouncedSearch s) item \<and> matchesType (typeFilter s) item
       \<and> matchesStatus (statusFilter s) item"

definition filteredItems :: "Item list \<Rightarrow> ItemList_state \<Rightarrow> Item list" where
  "filteredItems xs s = filter (matchesAll s) xs"

definition paginatedItems :: "Item list \<Rightarrow> ItemList_state \<Rightarrow> Item list" where
  "paginatedItems xs s =
     (let startIndex = (currentPage s - 1) * int itemsPerPage;
          endIndex = startIndex + int itemsPerPage
      in slice (filteredItems xs s) startIndex endIndex)"

definition totalPages :: "Item list \<Rightarrow> ItemList_state \<Rightarrow> int" where
  "totalPages xs s = ceil_div (length (filteredItems xs s)) itemsPerPage"


section \<open>Handlers\<close>

definition onSearchChange :: "string \<Rightarrow> ItemList_state \<Rightarrow> ItemList_state" where
  "onSearchChange v s = rerender s (s\<lparr>searchQuery := v\<rparr>)"

definition onTypeChange :: "ItemType filter_choice \<Rightarrow> ItemList_state \<Rightarrow> ItemList_state" where
  "onTypeChange v s = rerender s (s\<lparr>typeFilter := v\<rparr>)"

definition onStatusChange :: "ItemStatus filter_choice \<Rightarrow> ItemList_state \<Rightarrow> ItemList_state" where
  "onStatusChange v s = rerender s (s\<lparr>statusFilter := v\<rparr>)"

definition onViewModeClick :: "view_mode \<Rightarrow> ItemList_state \<Rightarrow> ItemList_state" where
  "onViewModeClick v s = rerender s (s\<lparr>viewMode := v\<rparr>)"

definition handlePageChange :: "int \<Rightarrow> ItemList_state \<Rightarrow> ItemList_state" where
  "handlePageChange page s = rerender s (s\<lparr>currentPage := page\<rparr>)"

text \<open>The callback of the debounce timer: \<^verbatim>\<open>setDebouncedSearch(searchQuery)\<close> with the captured value.\<close>

definition debounceFire :: "string \<Rightarrow> ItemList_state \<Rightarrow> ItemList_state" where
  "debounceFire v s = rerender s (s\<lparr>debouncedSearch := v, debounceTimer := None\<rparr>)"

text \<open>\<open>ms\<close> milliseconds pass: a pending timer counts down and fires when its delay is over.\<close>

definition elapse :: "nat \<Rightarrow> ItemList_state \<Rightarrow> ItemList_state" where
  "elapse ms s =
     (case debounceTimer s of
        None \<Rightarrow> s
      | Some (left, v) \<Rightarrow>
          if ms < left then s\<lparr>debounceTimer := Some (left - ms, v)\<rparr> else debounceFire v s)"

definition toggle :: "ItemStatus \<Rightarrow> ItemStatus" where
  "toggle st = (if st = Active then Done else Active)"

definition handleMarkAsDone :: "Item \<Rightarrow> command list" where
  "handleMarkAsDone item =
     [Send (updateItem_req (id' item) (partial_of (item\<lparr>status := toggle (status item)\<rparr>)))]"


section \<open>View\<close>

record card_view =
  card_key :: string
  img_src :: string
  img_alt :: string
  title :: string
  type_badge :: "variant \<times> string"
  status_badge :: "variant \<times> string"
  location_text :: string
  date_text :: string
  mark_item :: Item
  mark_disabled :: bool
  mark_variant :: variant
  mark_label :: string

record pagination_view =
  prev_disabled :: bool
  page_buttons :: "(int \<times> variant) list"
  next_disabled :: bool

record filters_view =
  search_value :: string
  type_value :: "ItemType filter_choice"
  status_value :: "ItemStatus filter_choice"
  grid_variant :: variant
  list_variant :: variant

record results_view =
  shown :: nat
  matching :: nat
  page_note :: "(int \<times> int) option"

record page_view =
  filters :: filters_view
  results :: results_view
  layout :: view_mode
  cards :: "card_view list"
  pagination :: "pagination_view option"
  empty_notice :: bool

datatype ItemList_view = Spinner | Page page_view

definition renderCard :: "ItemList_env \<Rightarrow> Item \<Rightarrow> card_view" where
  "renderCard env item =
     \<lparr>card_key = id' item,
      img_src = or_else (imageUrl item) fallbackImage,
      img_alt = name item,
      title = name item,
      type_badge = (if type item = Lost then Destructive else Default, ItemType_str (type item)),
      status_badge = (if status item = Active then Default else Secondary, ItemStatus_str (status item)),
      location_text = location item,
      date_text = date item,
      mark_item = item,
      mark_disabled = isPending env,
      mark_variant = (if status item = Active then Default else Outline),
      mark_label = (if status item = Active then ''Mark as Done'' else ''Mark as Active'')\<rparr>"

definition renderFilters :: "ItemList_state \<Rightarrow> filters_view" where
  "renderFilters s =
     \<lparr>search_value = searchQuery s,
      type_value = typeFilter s,
      status_value = statusFilter s,
      grid_variant = (if viewMode s = Grid then Default else Ghost),
      list_variant = (if viewMode s = ListMode then Default else Ghost)\<rparr>"

definition renderResults :: "Item list \<Rightarrow> ItemList_state \<Rightarrow> results_view" where
  "renderResults xs s =
     \<lparr>shown = length (paginatedItems xs s),
      matching = length (filteredItems xs s),
      page_note = (if totalPages xs s > 1 then Some (currentPage s, totalPages xs s) else None)\<rparr>"

definition renderPagination :: "Item list \<Rightarrow> ItemList_state \<Rightarrow> pagination_view option" where
  "renderPagination xs s =
     (if totalPages xs s > 1
      then Some
        \<lparr>prev_disabled = (currentPage s = 1),
         page_buttons =
           map (\<lambda>page. (page, if currentPage s = page then Default else Outline))
             [1..totalPages xs s],
         next_disabled = (currentPage s = totalPages xs s)\<rparr>
      else None)"

definition render :: "ItemList_env \<Rightarrow> ItemList_state \<Rightarrow> ItemList_view" where
  "render env s =
     (if isLoading env then Spinner
      else Page
        \<lparr>filters = renderFilters s,
         results = renderResults (items_of env) s,
         layout = viewMode s,
         cards = map (renderCard env) (paginatedItems (items_of env) s),
         pagination = renderPagination (items_of env) s,
         empty_notice = (length (filteredItems (items_of env) s) = 0)\<rparr>)"


section \<open>Machine\<close>

datatype ItemList_event =
    SearchInput string
  | SelectType "ItemType filter_choice"
  | SelectStatus "ItemStatus filter_choice"
  | ClickViewMode view_mode
  | ClickPrev
  | ClickPage int
  | ClickNext
  | Elapse nat

text \<open>Whether a rendered view offers an event. Time passes whatever is on the screen.\<close>

fun offered :: "ItemList_view \<Rightarrow> ItemList_event \<Rightarrow> bool" where
  "offered v (Elapse ms) = True"
| "offered Spinner e = False"
| "offered (Page p) ClickPrev = (case pagination p of None \<Rightarrow> False | Some pg \<Rightarrow> \<not> prev_disabled pg)"
| "offered (Page p) ClickNext = (case pagination p of None \<Rightarrow> False | Some pg \<Rightarrow> \<not> next_disabled pg)"
| "offered (Page p) (ClickPage n) =
     (case pagination p of None \<Rightarrow> False | Some pg \<Rightarrow> n \<in> fst ` set (page_buttons pg))"
| "offered (Page p) e = True"

fun ItemList_step :: "ItemList_state \<Rightarrow> ItemList_event \<Rightarrow> ItemList_state" where
  "ItemList_step s (SearchInput v) = onSearchChange v s"
| "ItemList_step s (SelectType v) = onTypeChange v s"
| "ItemList_step s (SelectStatus v) = onStatusChange v s"
| "ItemList_step s (ClickViewMode v) = onViewModeClick v s"
| "ItemList_step s ClickPrev = handlePageChange (currentPage s - 1) s"
| "ItemList_step s (ClickPage n) = handlePageChange n s"
| "ItemList_step s ClickNext = handlePageChange (currentPage s + 1) s"
| "ItemList_step s (Elapse ms) = elapse ms s"

fun ItemList_run :: "ItemList_state \<Rightarrow> ItemList_event list \<Rightarrow> ItemList_state" where
  "ItemList_run s [] = s"
| "ItemList_run s (e # es) = ItemList_run (ItemList_step s e) es"

inductive ItemList_reach :: "ItemList_state \<Rightarrow> bool" where
  reach_mount: "ItemList_reach (mount ItemList_init)"
| reach_step: "ItemList_reach s \<Longrightarrow> offered (render env s) e \<Longrightarrow> ItemList_reach (ItemList_step s e)"

text \<open>The marking button of a card can be pressed when the card is shown and the button is enabled.\<close>

definition mark_offered :: "ItemList_view \<Rightarrow> Item \<Rightarrow> bool" where
  "mark_offered v item =
     (case v of Spinner \<Rightarrow> False
      | Page p \<Rightarrow> list_ex (\<lambda>c. mark_item c = item \<and> \<not> mark_disabled c) (cards p))"


section \<open>Specification\<close>

text \<open>
  The projection the view has to compute, stated on lists alone: keep the items
  that satisfy the three predicates, in their order; a page is the \<open>n\<close>-th
  block of \<open>size\<close> of them; the number of pages is the number of blocks needed.
\<close>

record projection =
  pageItems :: "Item list"
  totalFilteredCount :: nat
  totalPageCount :: nat

definition project ::
  "Item list \<Rightarrow> string \<Rightarrow> ItemType filter_choice \<Rightarrow> ItemStatus filter_choice \<Rightarrow> nat \<Rightarrow> nat \<Rightarrow> projection" where
  "project xs searchText tf sf page pageSize =
     (let kept = [item \<leftarrow> xs. sublist (toLowerCase searchText) (toLowerCase (name item))
                     \<and> (tf = All' \<or> tf = Only (type item))
                     \<and> (sf = All' \<or> sf = Only (status item))]
      in \<lparr>pageItems = take pageSize (drop ((page - 1) * pageSize) kept),
          totalFilteredCount = length kept,
          totalPageCount = (length kept + pageSize - 1) div pageSize\<rparr>)"


section \<open>Invariant\<close>

text \<open>
  The three values whose change resets the page, and what holds in every
  reachable state: the page is at least 1, and the debounce timer, when one is
  pending, holds the text of the search box and has between 1 and
  \<open>debounceDelay\<close> milliseconds left; when none is pending the debounced
  text is the text of the search box. \<open>in_range\<close> is the stronger property
  that page navigation keeps and a shrinking collection breaks.
\<close>

definition filters_of ::
  "ItemList_state \<Rightarrow> string \<times> ItemType filter_choice \<times> ItemStatus filter_choice" where
  "filters_of s = (debouncedSearch s, typeFilter s, statusFilter s)"

definition timer_ok :: "ItemList_state \<Rightarrow> bool" where
  "timer_ok s =
     (case debounceTimer s of
        None \<Rightarrow> debouncedSearch s = searchQuery s
      | Some (left, v) \<Rightarrow> v = searchQuery s \<and> 0 < left \<and> left \<le> debounceDelay)"

definition ItemList_inv :: "ItemList_state \<Rightarrow> bool" where
  "ItemList_inv s \<longleftrightarrow> 1 \<le> currentPage s \<and> timer_ok s"

definition in_range :: "Item list \<Rightarrow> ItemList_state \<Rightarrow> bool" where
  "in_range xs s \<longleftrightarrow> 1 \<le> currentPage s \<and> currentPage s \<le> totalPages xs s"

definition is_navigation :: "ItemList_event \<Rightarrow> bool" where
  "is_navigation e =
     (case e of ClickPrev \<Rightarrow> True | ClickNext \<Rightarrow> True | ClickPage n \<Rightarrow> True | _ \<Rightarrow> False)"


section \<open>Example data\<close>

text \<open>Concrete items, environments and states, used to instantiate the theorems below.\<close>

definition scenario_items :: "Item list" where
  "scenario_items = [example_item ''1'' ''Keys'' Lost Active, example_item ''2'' ''Bag'' Found Done]"

definition seven_items :: "Item list" where
  "seven_items =
     map (\<lambda>i. example_item i ''Umbrella'' Lost Active) [''1'', ''2'', ''3'', ''4'', ''5'', ''6'', ''7'']"

definition six_items :: "Item list" where
  "six_items = butlast seven_items"

definition env_of :: "Item list \<Rightarrow> ItemList_env" where
  "env_of xs = \<lparr>data = Some xs, isLoading = False, isPending = False\<rparr>"

definition page2 :: ItemList_state where
  "page2 = ItemList_step (mount ItemList_init) (ClickPage 2)"

definition page2_view :: page_view where
  "page2_view =
     \<lparr>filters = renderFilters page2,
      results = \<lparr>shown = 1, matching = 7, page_note = Some (2, 2)\<rparr>,
      layout = Grid,
      cards = [renderCard (env_of seven_items) (example_item ''7'' ''Umbrella'' Lost Active)],
      pagination = Some \<lparr>prev_disabled = False, page_buttons = [(1, Outline), (2, Default)],
                      next_disabled = True\<rparr>,
      empty_notice = False\<rparr>"


section \<open>Lemmas on the derived values\<close>

lemmas handler_defs =
  onSearchChange_def onTypeChange_def onStatusChange_def onViewModeClick_def
  handlePageChange_def debounceFire_def elapse_def

lemmas effect_defs = rerender_def debounceEffect_def resetPageEffect_def mount_def

lemmas view_defs =
  render_def renderFilters_def renderResults_def renderPagination_def renderCard_def

inductive_cases ItemList_reachE: "ItemList_reach s"

lemma matchesSearch_iff:
  "matchesSearch q item \<longleftrightarrow> sublist (toLowerCase q) (toLowerCase (name item))"
  by (simp add: matchesSearch_def includes_str_iff_sublist)

lemma matchesSearch_empty [simp]: "matchesSearch [] item"
  by (simp add: matchesSearch_def)

lemma matchesType_All [simp]: "matchesType All' item"
  by (simp add: matchesType_def)

lemma matchesStatus_All [simp]: "matchesStatus All' item"
  by (simp add: matchesStatus_def)

lemma matchesType_Only [simp]: "matchesType (Only t) item \<longleftrightarrow> type item = t"
  by (simp add: matchesType_def)

lemma matchesStatus_Only [simp]: "matchesStatus (Only t) item \<longleftrightarrow> status item = t"
  by (simp add: matchesStatus_def)

lemma set_filteredItems [simp]:
  "set (filteredItems xs s) = {item \<in> set xs. matchesAll s item}"
  by (simp add: filteredItems_def)

lemma length_filteredItems_le [simp]: "length (filteredItems xs s) \<le> length xs"
  by (simp add: filteredItems_def)

lemma filteredItems_Nil [simp]: "filteredItems [] s = []"
  by (simp add: filteredItems_def)

lemma filteredItems_append:
  "filteredItems (xs @ ys) s = filteredItems xs s @ filteredItems ys s"
  by (simp add: filteredItems_def)

lemma filteredItems_currentPage [simp]:
  "filteredItems xs (s\<lparr>currentPage := p\<rparr>) = filteredItems xs s"
  by (simp add: filteredItems_def matchesAll_def [abs_def])

lemma filteredItems_all:
  "debouncedSearch s = [] \<Longrightarrow> typeFilter s = All' \<Longrightarrow> statusFilter s = All' \<Longrightarrow>
     filteredItems xs s = xs"
  by (simp add: filteredItems_def matchesAll_def [abs_def])

lemma totalPages_currentPage [simp]:
  "totalPages xs (s\<lparr>currentPage := p\<rparr>) = totalPages xs s"
  by (simp add: totalPages_def)

lemma itemsPerPage_pos [simp]: "0 < itemsPerPage"
  by (simp add: itemsPerPage_def)

lemma paginatedItems_eq:
  assumes "1 \<le> currentPage s"
  shows "paginatedItems xs s =
    take itemsPerPage (drop (nat (currentPage s - 1) * itemsPerPage) (filteredItems xs s))"
proof -
  let ?a = "(currentPage s - 1) * int itemsPerPage"
  have a: "0 \<le> ?a" using assms by simp
  have na: "nat ?a = nat (currentPage s - 1) * itemsPerPage"
    using assms by (simp add: nat_mult_distrib)
  have "nat (?a + int itemsPerPage) - nat ?a = itemsPerPage"
    using a by (simp add: nat_add_distrib)
  with a na show ?thesis
    by (simp add: paginatedItems_def Let_def slice_nonneg)
qed

lemma length_paginatedItems_le: "length (paginatedItems xs s) \<le> itemsPerPage"
  by (auto simp: paginatedItems_def slice_def relativeIndex_def Let_def)

lemma paginated_sublist: "sublist (paginatedItems xs s) (filteredItems xs s)"
  by (simp add: paginatedItems_def Let_def slice_sublist)

lemma totalPages_nonneg [simp]: "0 \<le> totalPages xs s"
  by (simp add: totalPages_def)

lemma totalPages_eq_0_iff: "totalPages xs s = 0 \<longleftrightarrow> filteredItems xs s = []"
  by (simp add: totalPages_def ceil_div_eq_0_iff)

lemma totalPages_le_iff:
  "totalPages xs s \<le> n \<longleftrightarrow> int (length (filteredItems xs s)) \<le> n * int itemsPerPage"
  by (simp add: totalPages_def ceil_div_le_iff)

lemma totalPages_bounds:
  "int (length (filteredItems xs s)) \<le> totalPages xs s * int itemsPerPage"
  "totalPages xs s * int itemsPerPage < int (length (filteredItems xs s)) + int itemsPerPage"
  unfolding totalPages_def by (rule ceil_div_bounds, simp)+

lemma totalPages_gt_1_iff: "1 < totalPages xs s \<longleftrightarrow> itemsPerPage < length (filteredItems xs s)"
  using totalPages_le_iff [of xs s 1] by auto

lemma concat_blocks:
  "concat (map (\<lambda>i. take k (drop (i * k) ys)) [0..<n]) = take (n * k) ys"
proof (induction n)
  case 0
  then show ?case by simp
next
  case (Suc n)
  have "take (n * k) ys @ take k (drop (n * k) ys) = take (n * k + k) ys"
    by (simp add: take_add)
  with Suc show ?case by (simp add: add.commute)
qed

lemma upto_1_conv: "[1..int n] = map (\<lambda>i. int i + 1) [0..<n]"
proof (induction n)
  case 0
  then show ?case by simp
next
  case (Suc n)
  have "[1..int (Suc n)] = [1..int n] @ [int n + 1]"
    by (simp add: upto_rec2)
  with Suc show ?case by simp
qed

lemma distinct_map_sublist:
  "sublist ys xs \<Longrightarrow> distinct (map f xs) \<Longrightarrow> distinct (map f ys)"
  by (auto simp: sublist_def)

lemma distinct_ids_paginated:
  assumes "distinct (map id' xs)"
  shows "distinct (map id' (paginatedItems xs s))"
proof -
  have "distinct (map id' (filteredItems xs s))"
    unfolding filteredItems_def using assms by (rule distinct_map_filter)
  with paginated_sublist show ?thesis
    by (rule distinct_map_sublist)
qed


section \<open>Lemmas on effects, handlers and reachable states\<close>

lemma rerender_fields [simp]:
  "searchQuery (rerender prev s) = searchQuery s"
  "debouncedSearch (rerender prev s) = debouncedSearch s"
  "typeFilter (rerender prev s) = typeFilter s"
  "statusFilter (rerender prev s) = statusFilter s"
  "viewMode (rerender prev s) = viewMode s"
  by (simp_all add: effect_defs)

lemma rerender_currentPage:
  "currentPage (rerender prev s) = (if filters_of s \<noteq> filters_of prev then 1 else currentPage s)"
  by (auto simp: effect_defs filters_of_def)

lemma rerender_debounceTimer:
  "debounceTimer (rerender prev s) =
     (if searchQuery s \<noteq> searchQuery prev then Some (debounceDelay, searchQuery s)
      else debounceTimer s)"
  by (simp add: effect_defs)

lemma rerender_page_only: "rerender s (s\<lparr>currentPage := p\<rparr>) = s\<lparr>currentPage := p\<rparr>"
  by (simp add: effect_defs)

lemma debounceDelay_pos [simp]: "0 < debounceDelay"
  by (simp add: debounceDelay_def)

lemma inv_mount: "ItemList_inv (mount ItemList_init)"
  by (simp add: ItemList_inv_def timer_ok_def mount_def ItemList_init_def)

lemma timer_ok_step: "timer_ok s \<Longrightarrow> timer_ok (ItemList_step s e)"
  by (cases e)
    (auto simp: timer_ok_def handler_defs rerender_debounceTimer split: option.splits if_splits)

lemma offered_page_ge_1:
  "1 \<le> currentPage s \<Longrightarrow> offered (render env s) e \<Longrightarrow> 1 \<le> currentPage (ItemList_step s e)"
  by (cases e)
    (auto simp: handler_defs rerender_currentPage view_defs split: option.splits if_splits)

lemma inv_step:
  "ItemList_inv s \<Longrightarrow> offered (render env s) e \<Longrightarrow> ItemList_inv (ItemList_step s e)"
  by (simp add: ItemList_inv_def timer_ok_step offered_page_ge_1)

lemma reach_inv: "ItemList_reach s \<Longrightarrow> ItemList_inv s"
  by (induction rule: ItemList_reach.induct) (auto intro: inv_mount inv_step)

lemma toggle_toggle [simp]: "toggle (toggle st) = st"
  by (cases st) (simp_all add: toggle_def)

lemma toggle_neq [simp]: "toggle st \<noteq> st"
  by (cases st) (simp_all add: toggle_def)


section \<open>Lemmas on the view and the examples\<close>

lemma card_keys:
  "render env s = Page p \<Longrightarrow> map card_key (cards p) = map id' (paginatedItems (items_of env) s)"
  by (auto simp: view_defs split: if_splits)

lemma page2_fields:
  "debouncedSearch page2 = []" "typeFilter page2 = All'" "statusFilter page2 = All'"
  "currentPage page2 = 2" "viewMode page2 = Grid"
  by (simp_all add: page2_def handler_defs effect_defs ItemList_init_def)

lemma length_seven_items [simp]: "length seven_items = 7"
  by (simp add: seven_items_def)

lemma length_six_items [simp]: "length six_items = 6"
  by (simp add: six_items_def seven_items_def)

lemma distinct_seven_items: "distinct (map id' seven_items)"
  by (simp add: seven_items_def example_item_def)

lemma items_of_env_of [simp]: "items_of (env_of xs) = xs"
  by (simp add: items_of_def env_of_def)

lemma totalPages_seven:
  "debouncedSearch s = [] \<Longrightarrow> typeFilter s = All' \<Longrightarrow> statusFilter s = All' \<Longrightarrow>
     totalPages seven_items s = 2"
  by (simp add: totalPages_def filteredItems_all ceil_div_eq itemsPerPage_def)

lemma reach_page2: "ItemList_reach page2"
  unfolding page2_def
proof (rule reach_step [OF reach_mount, where env = "env_of seven_items"])
  have "totalPages seven_items (mount ItemList_init) = 2"
    by (rule totalPages_seven) (simp_all add: mount_def ItemList_init_def)
  then show "offered (render (env_of seven_items) (mount ItemList_init)) (ClickPage 2)"
    by (simp add: view_defs env_of_def items_of_def image_image)
qed

lemma render_page2_seven: "render (env_of seven_items) page2 = Page page2_view"
proof -
  have f: "filteredItems seven_items page2 = seven_items"
    by (rule filteredItems_all) (simp_all add: page2_fields)
  have t: "totalPages seven_items page2 = 2"
    by (rule totalPages_seven) (simp_all add: page2_fields)
  have p: "paginatedItems seven_items page2 = [example_item ''7'' ''Umbrella'' Lost Active]"
    by (simp add: paginatedItems_eq f page2_fields itemsPerPage_def) (simp add: seven_items_def)
  have u: "[1..2] = [1, 2::int]"
    by (simp add: upto_rec1)
  show ?thesis
    by (simp add: render_def renderResults_def renderPagination_def page2_view_def f t p u
        page2_fields) (simp add: env_of_def)
qed


section \<open>Properties\<close>

text \<open>
  Claim C1 (the filter is sound and complete). An item is among the filtered
  items exactly when it is one of the fetched items, its case-folded name
  contains the case-folded debounced search text, and its type and its status
  agree with the two filters wherever these are not "All".
\<close>

theorem filteredItems_sound_complete:
  "item \<in> set (filteredItems xs s) \<longleftrightarrow>
     item \<in> set xs
     \<and> sublist (toLowerCase (debouncedSearch s)) (toLowerCase (name item))
     \<and> (typeFilter s = All' \<or> typeFilter s = Only (type item))
     \<and> (statusFilter s = All' \<or> statusFilter s = Only (status item))"
  by (auto simp: filteredItems_def matchesAll_def matchesSearch_def includes_str_iff_sublist
      matchesType_def matchesStatus_def)

text \<open>
  The filter is stable. The filtered items are the fetched items with some of
  them left out, in the order of the fetched list, and every occurrence of a
  matching item is kept exactly once.
\<close>

theorem filteredItems_stable:
  "subseq (filteredItems xs s) xs
     \<and> mset (filteredItems xs s) = filter_mset (matchesAll s) (mset xs)"
  by (simp add: filteredItems_def)

text \<open>
  Claim C3 (a page never exceeds the page size). Whatever the page number is,
  zero and negative numbers included, the displayed page holds at most
  \<open>itemsPerPage\<close> items, and it is a contiguous block of the filtered items.
\<close>

theorem paginatedItems_bounded:
  "length (paginatedItems xs s) \<le> itemsPerPage
     \<and> sublist (paginatedItems xs s) (filteredItems xs s)"
proof
  show "length (paginatedItems xs s) \<le> itemsPerPage"
    by (auto simp: paginatedItems_def slice_def relativeIndex_def Let_def)
  show "sublist (paginatedItems xs s) (filteredItems xs s)"
    by (simp add: paginatedItems_def Let_def slice_sublist)
qed

text \<open>
  Claim C4 (the page count is the least sufficient one). \<open>totalPages\<close> is at
  most \<open>n\<close> exactly when \<open>n\<close> pages of \<open>itemsPerPage\<close> items hold all
  filtered items; in particular it is 0 exactly when nothing matches.
\<close>

theorem totalPages_least:
  "(totalPages xs s \<le> n \<longleftrightarrow> int (length (filteredItems xs s)) \<le> n * int itemsPerPage)
     \<and> (totalPages xs s = 0 \<longleftrightarrow> filteredItems xs s = [])"
proof
  show "totalPages xs s \<le> n \<longleftrightarrow> int (length (filteredItems xs s)) \<le> n * int itemsPerPage"
    by (simp add: totalPages_def ceil_div_le_iff)
  show "totalPages xs s = 0 \<longleftrightarrow> filteredItems xs s = []"
    by (simp add: totalPages_def ceil_div_eq_0_iff)
qed

text \<open>
  Claim C2 (the pages partition the filtered items). Reading the pages
  \<open>1, \<dots>, totalPages\<close> one after the other gives the filtered items, each once
  and in order.
\<close>

theorem pages_partition:
  "concat (map (\<lambda>p. paginatedItems xs (s\<lparr>currentPage := p\<rparr>)) [1..totalPages xs s]) =
     filteredItems xs s"
proof -
  define n where "n = nat (totalPages xs s)"
  have T: "totalPages xs s = int n"
    by (simp add: n_def)
  have page: "paginatedItems xs (s\<lparr>currentPage := int i + 1\<rparr>) =
      take itemsPerPage (drop (i * itemsPerPage) (filteredItems xs s))" for i
    by (simp add: paginatedItems_eq)
  have "int (length (filteredItems xs s)) \<le> int (n * itemsPerPage)"
    using totalPages_bounds(1) [of xs s] by (simp add: T)
  then have le: "length (filteredItems xs s) \<le> n * itemsPerPage"
    by linarith
  have "concat (map (\<lambda>p. paginatedItems xs (s\<lparr>currentPage := p\<rparr>)) [1..int n]) =
      concat (map (\<lambda>i. take itemsPerPage (drop (i * itemsPerPage) (filteredItems xs s))) [0..<n])"
    by (simp add: upto_1_conv comp_def page)
  also have "\<dots> = take (n * itemsPerPage) (filteredItems xs s)"
    by (rule concat_blocks)
  also have "\<dots> = filteredItems xs s"
    using le by simp
  finally show ?thesis by (simp add: T)
qed

text \<open>
  Which pages are empty. For a page number from 1 on, the displayed page is
  non-empty exactly when the number does not exceed \<open>totalPages
\<close>.
\<close>

theorem page_nonempty_iff:
  assumes "1 \<le> currentPage s"
  shows "paginatedItems xs s \<noteq> [] \<longleftrightarrow> currentPage s \<le> totalPages xs s"
proof -
  let ?n = "length (filteredItems xs s)"
  have "paginatedItems xs s \<noteq> [] \<longleftrightarrow> nat (currentPage s - 1) * itemsPerPage < ?n"
    using assms by (auto simp: paginatedItems_eq)
  also have "\<dots> \<longleftrightarrow> \<not> int ?n \<le> (currentPage s - 1) * int itemsPerPage"
    using assms by (simp add: not_le nat_mult_distrib flip: of_nat_less_iff [where 'a = int])
  also have "\<dots> \<longleftrightarrow> \<not> totalPages xs s \<le> currentPage s - 1"
    by (simp only: totalPages_le_iff)
  also have "\<dots> \<longleftrightarrow> currentPage s \<le> totalPages xs s"
    by auto
  finally show ?thesis .
qed

theorem page_nonempty_iff_witness:
  "1 \<le> currentPage page2
     \<and> (paginatedItems seven_items page2 \<noteq> [] \<longleftrightarrow> currentPage page2 \<le> totalPages seven_items page2)"
  using page_nonempty_iff [of page2 seven_items] by (simp add: page2_fields)

text \<open>
  Claim C7 (the view computes the specified projection). For a page number
  from 1 on, the page, the number of matching items and the page count that
  the component derives are those of the specification \<open>project\<close>, applied
  to the debounced search text, the two filters, the page and the page size.
\<close>

theorem project_refinement:
  assumes "1 \<le> currentPage s"
  shows "project xs (debouncedSearch s) (typeFilter s) (statusFilter s)
           (nat (currentPage s)) itemsPerPage =
         \<lparr>pageItems = paginatedItems xs s,
          totalFilteredCount = length (filteredItems xs s),
          totalPageCount = nat (totalPages xs s)\<rparr>"
proof -
  let ?n = "length (filteredItems xs s)"
  have kept: "[item \<leftarrow> xs. sublist (toLowerCase (debouncedSearch s)) (toLowerCase (name item))
                     \<and> (typeFilter s = All' \<or> typeFilter s = Only (type item))
                     \<and> (statusFilter s = All' \<or> statusFilter s = Only (status item))]
      = filteredItems xs s"
    unfolding filteredItems_def
    by (rule filter_cong) (auto simp: matchesAll_def matchesSearch_iff matchesType_def matchesStatus_def)
  have page: "nat (currentPage s) - 1 = nat (currentPage s - 1)"
    using assms by simp
  have "int ?n + int itemsPerPage - 1 = int (?n + itemsPerPage - 1)"
    using itemsPerPage_pos by linarith
  moreover have "totalPages xs s = (int ?n + int itemsPerPage - 1) div int itemsPerPage"
    by (simp add: totalPages_def ceil_div_eq)
  ultimately have "totalPages xs s = int ((?n + itemsPerPage - 1) div itemsPerPage)"
    by (simp only: zdiv_int)
  then have "nat (totalPages xs s) = (?n + itemsPerPage - 1) div itemsPerPage"
    by simp
  with page assms show ?thesis
    by (simp add: project_def kept paginatedItems_eq Let_def)
qed

theorem project_refinement_witness:
  "1 \<le> currentPage page2
     \<and> project seven_items (debouncedSearch page2) (typeFilter page2) (statusFilter page2)
           (nat (currentPage page2)) itemsPerPage =
         \<lparr>pageItems = paginatedItems seven_items page2,
          totalFilteredCount = length (filteredItems seven_items page2),
          totalPageCount = nat (totalPages seven_items page2)\<rparr>"
  using project_refinement [of page2 seven_items] by (simp add: page2_fields)

text \<open>
  Claim C8 (a filter change resets the page). Whenever a step of the component
  changes the debounced search text, the type filter or the status filter, the
  page after the step is 1.
\<close>

theorem filter_change_resets_page:
  "filters_of (ItemList_step s e) \<noteq> filters_of s \<Longrightarrow> currentPage (ItemList_step s e) = 1"
  by (cases e)
    (auto simp: handler_defs effect_defs filters_of_def split: option.splits if_splits)

theorem filter_change_resets_page_witness:
  "filters_of (ItemList_step page2 (SelectType (Only Lost))) \<noteq> filters_of page2
     \<and> currentPage page2 = 2
     \<and> currentPage (ItemList_step page2 (SelectType (Only Lost))) = 1"
  using filter_change_resets_page [of page2 "SelectType (Only Lost)"]
  by (simp add: page2_fields filters_of_def onTypeChange_def)

text \<open>
  Claim C9 (invariant of the reachable states). In every state that the
  mounted component reaches through events its view offers, the page is at
  least 1 and the debounce timer is consistent: a pending timer holds the
  current text of the search box and has between 1 and \<open>debounceDelay\<close>
  milliseconds left, and with no timer pending the debounced text equals the
  text of the search box.
\<close>

theorem ItemList_reach_invariant:
  "ItemList_reach s \<Longrightarrow> 1 \<le> currentPage s \<and> timer_ok s"
proof (induction rule: ItemList_reach.induct)
  case reach_mount
  show ?case
    by (simp add: timer_ok_def mount_def ItemList_init_def)
next
  case (reach_step s env e)
  then show ?case
    by (simp add: timer_ok_step offered_page_ge_1)
qed

theorem ItemList_reach_invariant_witness:
  "ItemList_reach page2 \<and> 1 \<le> currentPage page2 \<and> timer_ok page2"
  using ItemList_reach_invariant [OF reach_page2] reach_page2 by simp

text \<open>
  Claim C34 (the debounce commits the last text). From a state with a
  consistent timer, typing \<open>v\<close> and then staying quiet for at least
  \<open>debounceDelay\<close> milliseconds makes \<open>v\<close> the debounced search text.
\<close>

theorem debounce_commits:
  "timer_ok s \<Longrightarrow> debounceDelay \<le> ms \<Longrightarrow> debouncedSearch (elapse ms (onSearchChange v s)) = v"
  by (auto simp: timer_ok_def handler_defs rerender_debounceTimer split: option.splits)

theorem debounce_commits_witness:
  "timer_ok (mount ItemList_init) \<and> debounceDelay \<le> 300
     \<and> debouncedSearch (elapse 300 (onSearchChange ''key'' (mount ItemList_init))) = ''key''"
  using debounce_commits [of "mount ItemList_init" 300 "''key''"] inv_mount
  by (simp add: ItemList_inv_def debounceDelay_def)

text \<open>
  The debounce holds a keystroke back. After a keystroke that changes the
  search box, the debounced search text, and with it the filtered list, stays
  as it was for every time short of \<open>debounceDelay
\<close>.
\<close>

theorem debounce_delays:
  "v \<noteq> searchQuery s \<Longrightarrow> ms < debounceDelay \<Longrightarrow>
     debouncedSearch (elapse ms (onSearchChange v s)) = debouncedSearch s
     \<and> filteredItems xs (elapse ms (onSearchChange v s)) = filteredItems xs s"
  by (auto simp: handler_defs effect_defs filteredItems_def matchesAll_def [abs_def]
      split: option.splits)

theorem debounce_delays_witness:
  "''k'' \<noteq> searchQuery (mount ItemList_init) \<and> 299 < debounceDelay
     \<and> debouncedSearch (elapse 299 (onSearchChange ''k'' (mount ItemList_init))) = []"
  using debounce_delays [of "''k''" "mount ItemList_init" 299]
  by (simp add: debounceDelay_def mount_def ItemList_init_def)

text \<open>
  Scenario of the specification. Of the collection with "Keys" (lost, active)
  and "Bag" (found, done), the filter with an empty search, type "Lost" and
  status "All" keeps exactly "Keys".
\<close>

theorem scenario_lost_filter:
  "filteredItems scenario_items (ItemList_init\<lparr>typeFilter := Only Lost\<rparr>) =
     [example_item ''1'' ''Keys'' Lost Active]"
  by (simp add: filteredItems_def matchesAll_def scenario_items_def example_item_def
      ItemList_init_def matchesSearch_def)

text \<open>
  Claim C25 (a stale page is reachable). The component does not clamp the page
  when the collection shrinks: having gone to page 2 of seven items, a render
  with six items shows no card, counts "0 of 6", and shows neither the
  pagination controls nor the notice for an empty result.
\<close>

theorem stale_page_reachable:
  "ItemList_reach page2 \<and> render (env_of six_items) page2 =
      Page \<lparr>filters = renderFilters page2,
        results = \<lparr>shown = 0, matching = 6, page_note = None\<rparr>,
        layout = Grid, cards = [], pagination = None, empty_notice = False\<rparr>"
proof -
  have f: "filteredItems six_items page2 = six_items"
    by (rule filteredItems_all) (simp_all add: page2_fields)
  have t: "totalPages six_items page2 = 1"
    by (simp add: totalPages_def f ceil_div_eq itemsPerPage_def)
  have p: "paginatedItems six_items page2 = []"
    by (simp add: paginatedItems_eq f page2_fields itemsPerPage_def)
  show ?thesis
    using reach_page2
    by (simp add: render_def renderResults_def renderPagination_def f t p page2_fields)
      (simp add: env_of_def)
qed

text \<open>
  When an item can be marked. The marking button of an item can be pressed
  exactly when the list is loaded, no update is in flight, and the item is on
  the displayed page.
\<close>

theorem mark_button_offered:
  "mark_offered (render env s) item \<longleftrightarrow>
     \<not> isLoading env \<and> \<not> isPending env \<and> item \<in> set (paginatedItems (items_of env) s)"
  by (auto simp: mark_offered_def view_defs list_ex_iff)

text \<open>
  The request of the marking button. The button sends one request: a PUT to the
  path of the item, with the whole item as body, the status flipped between
  "Active" and "Done" and every other field unchanged; marking the updated item
  again asks for the original item.
\<close>

theorem handleMarkAsDone_request:
  "handleMarkAsDone item =
     [Send \<lparr>req_verb = PUT, req_path = ''/items/'' @ id' item,
        req_body = PartialBody ((partial_of item)\<lparr>p_status :=
          Some (case status item of Active \<Rightarrow> Done | Done \<Rightarrow> Active)\<rparr>)\<rparr>]
   \<and> handleMarkAsDone (item\<lparr>status := toggle (status item)\<rparr>) =
       [Send (updateItem_req (id' item) (partial_of item))]"
  by (cases "status item")
    (simp_all add: handleMarkAsDone_def partial_of_def toggle_def updateItem_req_def)

text \<open>
  The keys of the cards. The cards of a rendered page are keyed by the
  identifiers of the items of the displayed page, in order; when the fetched
  items have distinct identifiers, so have the cards.
\<close>

theorem card_keys_unique:
  assumes "render env s = Page p" and "distinct (map id' (items_of env))"
  shows "map card_key (cards p) = map id' (paginatedItems (items_of env) s)
     \<and> distinct (map card_key (cards p))"
  using card_keys [OF assms(1)] distinct_ids_paginated [OF assms(2), of s] by simp

theorem card_keys_unique_witness:
  "render (env_of seven_items) page2 = Page page2_view
     \<and> distinct (map id' (items_of (env_of seven_items)))
     \<and> map card_key (cards page2_view) = map id' (paginatedItems (items_of (env_of seven_items)) page2)
     \<and> distinct (map card_key (cards page2_view))"
proof -
  have r: "render (env_of seven_items) page2 = Page page2_view"
    by (rule render_page2_seven)
  have d: "distinct (map id' (items_of (env_of seven_items)))"
    by (simp add: distinct_seven_items)
  from card_keys_unique [OF r d] r d show ?thesis by blast
qed

text \<open>
  When the pagination controls are shown. The controls are rendered exactly
  when more than \<open>itemsPerPage
\<close> items match; they then hold one
  button for each page from 1 to \<open>totalPages\<close>, the button of the current
  page is the highlighted one, "previous" is disabled on page 1 and "next" on
  the last page.
\<close>

theorem pagination_controls:
  "renderPagination xs s =
     (if itemsPerPage < length (filteredItems xs s)
      then Some \<lparr>prev_disabled = (currentPage s = 1),
             page_buttons = map (\<lambda>p. (p, if p = currentPage s then Default else Outline))
                              [1..totalPages xs s],
             next_disabled = (currentPage s = totalPages xs s)\<rparr>
      else None)"
  by (auto simp: renderPagination_def totalPages_gt_1_iff)

text \<open>
  The search ignores case. Whether an item matches the search text
  does not change when the text or the name of the item is replaced by its
  lower-case form, and the empty text matches every item.
\<close>

theorem matchesSearch_case_insensitive:
  "matchesSearch (toLowerCase q) item = matchesSearch q item
     \<and> matchesSearch q (item\<lparr>name := toLowerCase (name item)\<rparr>) = matchesSearch q item
     \<and> matchesSearch [] item"
  by (simp add: matchesSearch_def)

text \<open>
  Page navigation stays in range. While the environment does not change,
  pressing an offered "previous", "next" or page button from a page between 1
  and \<open>totalPages
\<close> leads to a page between 1 and \<open>totalPages\<close>.
\<close>

theorem navigation_in_range:
  assumes "in_range (items_of env) s" and "offered (render env s) e" and "is_navigation e"
  shows "in_range (items_of env) (ItemList_step s e)"
  using assms
  by (cases e)
    (auto simp: in_range_def is_navigation_def handlePageChange_def rerender_page_only
       view_defs split: if_splits)

theorem navigation_in_range_witness:
  "in_range (items_of (env_of seven_items)) page2
     \<and> offered (render (env_of seven_items) page2) ClickPrev
     \<and> is_navigation ClickPrev
     \<and> in_range (items_of (env_of seven_items)) (ItemList_step page2 ClickPrev)"
proof -
  have t: "totalPages seven_items page2 = 2"
    by (rule totalPages_seven) (simp_all add: page2_fields)
  have r: "in_range (items_of (env_of seven_items)) page2"
    by (simp add: in_range_def t page2_fields)
  have o: "offered (render (env_of seven_items) page2) ClickPrev"
    by (simp add: render_page2_seven page2_view_def)
  have n: "is_navigation ClickPrev"
    by (simp add: is_navigation_def)
  from navigation_in_range [OF r o n] r o n show ?thesis by simp
qed

end
