(* ===== verification/AddItemForm.thy ===== *)
theory AddItemForm
  imports Api
begin

text \<open>
  The create form \<^verbatim>\<open>AddItemForm\<close> of \<^verbatim>\<open>src/src/pages/add.tsx\<close>.

  \<^bold>\<open>State.\<close> The record \<open>AddItemForm_state\<close> holds the three \<^verbatim>\<open>useState\<close>
  cells (\<open>formData\<close>, \<open>errors\<close>, \<open>isSubmitted\<close>) and the two things the
  component sets going outside its cells: the create call in flight
  (\<open>inFlight\<close>, the variables of the mutation while \<^verbatim>\<open>mutation.isPending\<close>
  holds) and the timers started by \<^verbatim>\<open>setTimeout\<close> in \<^verbatim>\<open>onSuccess\<close>
  (\<open>successTimers\<close>, the milliseconds each has left). The error object, a
  \<^verbatim>\<open>Partial<CreateItemData>\<close> of messages, is a map from keys to strings.

  \<^bold>\<open>Operations.\<close> \<open>newErrors\<close> and \<open>validateForm\<close>, \<open>handleSubmit\<close>,
  \<open>handleInputChange\<close>, the mutation callback \<open>onSuccess\<close>, the end of a
  failed call \<open>onError\<close> and the passing of time \<open>elapseForm\<close>. An operation
  that talks to the outside returns the \<open>command\<close>s of theory \<open>Api\<close> it
  issues beside the new state: the sending of the request of \<open>createItem\<close>
  and the invalidation of the cached collection.

  \<^bold>\<open>View and machine.\<close> \<open>renderForm\<close> is the returned element: the success
  card or the form with its values, messages and submit button. \<open>enabled\<close>
  says which events can happen in a state (a user event must be offered by the
  view, an answer needs a call in flight), \<open>AddItemForm_step\<close> performs one,
  \<open>run_form\<close> a sequence of them, and \<open>AddItemForm_reach\<close> are the states
  reachable from the initial one.

  \<^bold>\<open>Specification and lemmas.\<close> \<open>fieldOK\<close> and \<open>requiredMessage\<close> state the
  validation rule per key. The lemmas show that \<open>newErrors\<close> implements the
  rule, what a submission does on both branches, the invariant \<open>form_inv\<close> of
  the reachable states, and the properties of runs: only validated data is
  sent, at most one call is in flight, one invalidation per success.
\<close>

section \<open>State\<close>

type_synonym form_errors = "CreateItemData_key \<rightharpoonup> string"

record AddItemForm_state =
  formData :: CreateItemData
  errors :: form_errors
  isSubmitted :: bool
  inFlight :: "CreateItemData option"
  successTimers :: "nat list"

definition defaultForm :: CreateItemData where
  "defaultForm =
     \<lparr>imageUrl = [], name = [], location = [], date = [], type = Lost, status = Active\<rparr>"

definition successDelay :: nat where
  "successDelay = 3000"

definition AddItemForm_init :: AddItemForm_state where
  "AddItemForm_init =
     \<lparr>formData = defaultForm, errors = Map.empty, isSubmitted = False, inFlight = None,
      successTimers = []\<rparr>"


section \<open>Validation and handlers\<close>

text \<open>
  The object \<^verbatim>\<open>newErrors\<close> that \<^verbatim>\<open>validateForm\<close> builds: four tests in the order of
  the source, each adding its message.
\<close>

definition newErrors :: "CreateItemData \<Rightarrow> form_errors" where
  "newErrors d =
     (let e0 = Map.empty;
          e1 = (if \<not> truthy (trim (name d)) then e0(K_name \<mapsto> ''Item name is required'') else e0);
          e2 = (if \<not> truthy (trim (location d)) then e1(K_location \<mapsto> ''Location is required'') else e1);
          e3 = (if \<not> truthy (date d) then e2(K_date \<mapsto> ''Date is required'') else e2);
          e4 = (if \<not> truthy (trim (imageUrl d)) then e3(K_imageUrl \<mapsto> ''Image URL is required'') else e3)
      in e4)"

text \<open>
  \<^verbatim>\<open>Object.keys\<close> of an error object. The keys come in the order of \<open>all_keys\<close>
  and not in the order of insertion; the source uses their number only.
\<close>

definition object_keys :: "form_errors \<Rightarrow> CreateItemData_key list" where
  "object_keys e = filter (\<lambda>k. e k \<noteq> None) all_keys"

definition validateForm :: "AddItemForm_state \<Rightarrow> AddItemForm_state \<times> bool" where
  "validateForm s =
     (let e = newErrors (formData s)
      in (s\<lparr>errors := e\<rparr>, length (object_keys e) = 0))"

text \<open>\<^verbatim>\<open>mutation.mutate(variables)\<close>: the call is in flight and the request is issued.\<close>

definition mutate :: "CreateItemData \<Rightarrow> AddItemForm_state \<Rightarrow> AddItemForm_state \<times> command list" where
  "mutate d s = (s\<lparr>inFlight := Some d\<rparr>, [Send (createItem d)])"

definition handleSubmit :: "AddItemForm_state \<Rightarrow> AddItemForm_state \<times> command list" where
  "handleSubmit s =
     (let (s', valid) = validateForm s
      in if valid then mutate (formData s) s' else (s', []))"

text \<open>\<^verbatim>\<open>errors[field]\<close> used as a condition: a message is there and it is not empty.\<close>

definition hasError :: "form_errors \<Rightarrow> CreateItemData_key \<Rightarrow> bool" where
  "hasError e k = (case e k of None \<Rightarrow> False | Some msg \<Rightarrow> truthy msg)"

definition handleInputChange :: "field_change \<Rightarrow> AddItemForm_state \<Rightarrow> AddItemForm_state" where
  "handleInputChange c s =
     (let s' = s\<lparr>formData := apply_change c (formData s)\<rparr>
      in if hasError (errors s) (change_key c)
         then s'\<lparr>errors := (errors s')(change_key c := None)\<rparr>
         else s')"

text \<open>
  The callback \<^verbatim>\<open>onSuccess\<close> of the mutation, with the end of the call: the
  cached collection is invalidated, the success card is switched on, the form
  is reset, and a timer is started that switches the card off.
\<close>

definition onSuccess :: "AddItemForm_state \<Rightarrow> AddItemForm_state \<times> command list" where
  "onSuccess s =
     (s\<lparr>inFlight := None, isSubmitted := True, formData := defaultForm,
        successTimers := successTimers s @ [successDelay]\<rparr>,
      [InvalidateItems])"

text \<open>A failed call: the mutation has no \<^verbatim>\<open>onError\<close> callback, the call is just over.\<close>

definition onError :: "AddItemForm_state \<Rightarrow> AddItemForm_state" where
  "onError s = s\<lparr>inFlight := None\<rparr>"

text \<open>
  \<open>ms\<close> milliseconds pass: every timer that has no more than \<open>ms\<close> left fires
  and runs \<^verbatim>\<open>setIsSubmitted(false)\<close>; the others count down.
\<close>

definition elapseForm :: "nat \<Rightarrow> AddItemForm_state \<Rightarrow> AddItemForm_state" where
  "elapseForm ms s =
     (let fired = filter (\<lambda>t. t \<le> ms) (successTimers s);
          pending = map (\<lambda>t. t - ms) (filter (\<lambda>t. ms < t) (successTimers s))
      in s\<lparr>successTimers := pending,
           isSubmitted := (if fired = [] then isSubmitted s else False)\<rparr>)"


section \<open>View\<close>

record field_view =
  field_value :: string
  field_invalid :: bool
  field_message :: "string option"

record form_view =
  imageUrl_field :: field_view
  name_field :: field_view
  location_field :: field_view
  date_field :: field_view
  type_select :: ItemType
  status_select :: ItemStatus
  submit_disabled :: bool
  submit_label :: string

datatype AddItemForm_view = SuccessCard | Form form_view

text \<open>
  An input with its message: the border is red when \<^verbatim>\<open>errors[field]\<close> is truthy,
  and \<^verbatim>\<open>errors[field] && <p>...</p>\<close> shows the message in that case.
\<close>

definition renderField :: "form_errors \<Rightarrow> CreateItemData_key \<Rightarrow> string \<Rightarrow> field_view" where
  "renderField e k v =
     \<lparr>field_value = v, field_invalid = hasError e k,
      field_message = (if hasError e k then e k else None)\<rparr>"

definition renderForm :: "AddItemForm_state \<Rightarrow> AddItemForm_view" where
  "renderForm s =
     (if isSubmitted s then SuccessCard
      else Form
        \<lparr>imageUrl_field = renderField (errors s) K_imageUrl (imageUrl (formData s)),
         name_field = renderField (errors s) K_name (name (formData s)),
         location_field = renderField (errors s) K_location (location (formData s)),
         date_field = renderField (errors s) K_date (date (formData s)),
         type_select = type (formData s),
         status_select = status (formData s),
         submit_disabled = (inFlight s \<noteq> None),
         submit_label = (if inFlight s \<noteq> None then ''Adding Item...'' else ''Add Item'')\<rparr>)"


section \<open>Machine\<close>

datatype AddItemForm_event =
    Change field_change
  | Submit
  | Succeed
  | Fail
  | Tick nat

text \<open>
  A change needs the form on the screen, a submission also an enabled submit
  button; an answer of the server needs a call in flight; time always passes.
\<close>

fun enabled :: "AddItemForm_state \<Rightarrow> AddItemForm_event \<Rightarrow> bool" where
  "enabled s (Change c) = (renderForm s \<noteq> SuccessCard)"
| "enabled s Submit = (case renderForm s of SuccessCard \<Rightarrow> False | Form v \<Rightarrow> \<not> submit_disabled v)"
| "enabled s Succeed = (inFlight s \<noteq> None)"
| "enabled s Fail = (inFlight s \<noteq> None)"
| "enabled s (Tick ms) = True"

fun AddItemForm_step :: "AddItemForm_state \<Rightarrow> AddItemForm_event \<Rightarrow> AddItemForm_state \<times> command list" where
  "AddItemForm_step s (Change c) = (handleInputChange c s, [])"
| "AddItemForm_step s Submit = handleSubmit s"
| "AddItemForm_step s Succeed = onSuccess s"
| "AddItemForm_step s Fail = (onError s, [])"
| "AddItemForm_step s (Tick ms) = (elapseForm ms s, [])"

text \<open>
  A sequence of events from a state: the final state and the commands issued,
  in order; \<open>None\<close> when an event of the sequence cannot happen where it stands.
\<close>

fun run_form :: "AddItemForm_state \<Rightarrow> AddItemForm_event list \<Rightarrow> (AddItemForm_state \<times> command list) option" where
  "run_form s [] = Some (s, [])"
| "run_form s (e # es) =
     (if enabled s e
      then (case run_form (fst (AddItemForm_step s e)) es of
              None \<Rightarrow> None
            | Some (s', cs) \<Rightarrow> Some (s', snd (AddItemForm_step s e) @ cs))
      else None)"

inductive AddItemForm_reach :: "AddItemForm_state \<Rightarrow> bool" where
  reach_init: "AddItemForm_reach AddItemForm_init"
| reach_event: "AddItemForm_reach s \<Longrightarrow> enabled s e \<Longrightarrow> AddItemForm_reach (fst (AddItemForm_step s e))"


section \<open>Specification\<close>

text \<open>
  The validation rule: the name, the location and the image address must hold
  something other than white space, the date must not be empty; the type and
  the status are always acceptable. \<open>requiredMessage\<close> is the message of a
  key that has a rule.
\<close>

fun fieldOK :: "CreateItemData_key \<Rightarrow> CreateItemData \<Rightarrow> bool" where
  "fieldOK K_name d = (\<exists>c \<in> set (name d). \<not> isWhiteSpace c)"
| "fieldOK K_location d = (\<exists>c \<in> set (location d). \<not> isWhiteSpace c)"
| "fieldOK K_imageUrl d = (\<exists>c \<in> set (imageUrl d). \<not> isWhiteSpace c)"
| "fieldOK K_date d = (date d \<noteq> [])"
| "fieldOK K_type d = True"
| "fieldOK K_status d = True"

fun requiredMessage :: "CreateItemData_key \<Rightarrow> string option" where
  "requiredMessage K_name = Some ''Item name is required''"
| "requiredMessage K_location = Some ''Location is required''"
| "requiredMessage K_date = Some ''Date is required''"
| "requiredMessage K_imageUrl = Some ''Image URL is required''"
| "requiredMessage K_type = None"
| "requiredMessage K_status = None"

definition formOK :: "CreateItemData \<Rightarrow> bool" where
  "formOK d = list_all (\<lambda>k. fieldOK k d) all_keys"


section \<open>Invariant\<close>

text \<open>
  What holds in every reachable state. The success card is shown exactly while
  its one timer runs, and then the form is reset and no call is in flight. A
  call in flight carries validated data and was started with no message left.
  A message is the message of its key and stands at a field that violates the
  rule.
\<close>

definition timers_ok :: "AddItemForm_state \<Rightarrow> bool" where
  "timers_ok s \<longleftrightarrow>
     length (successTimers s) \<le> 1
     \<and> list_all (\<lambda>t. 0 < t \<and> t \<le> successDelay) (successTimers s)
     \<and> (isSubmitted s \<longleftrightarrow> successTimers s \<noteq> [])"

definition errors_ok :: "AddItemForm_state \<Rightarrow> bool" where
  "errors_ok s \<longleftrightarrow>
     list_all (\<lambda>k. errors s k = None \<or> (errors s k = requiredMessage k \<and> \<not> fieldOK k (formData s)))
       all_keys"

definition form_inv :: "AddItemForm_state \<Rightarrow> bool" where
  "form_inv s \<longleftrightarrow>
     timers_ok s \<and> errors_ok s
     \<and> (if isSubmitted s then formData s = defaultForm \<and> inFlight s = None else True)
     \<and> (case inFlight s of None \<Rightarrow> True | Some d \<Rightarrow> formOK d \<and> errors s = Map.empty)"

definition flying :: "AddItemForm_state \<Rightarrow> nat" where
  "flying s = (if inFlight s = None then 0 else 1)"

definition is_create :: "command \<Rightarrow> bool" where
  "is_create c = is_send POST c"

definition is_answer :: "AddItemForm_event \<Rightarrow> bool" where
  "is_answer e = (e = Succeed \<or> e = Fail)"


section \<open>Example data\<close>

definition keys_form :: CreateItemData where
  "keys_form =
     \<lparr>imageUrl = ''https://example.org/keys.jpg'', name = ''Keys'', location = ''Hall'',
      date = ''2025-01-01'', type = Lost, status = Active\<rparr>"

definition submitted_keys :: AddItemForm_state where
  "submitted_keys = AddItemForm_init\<lparr>formData := keys_form, inFlight := Some keys_form\<rparr>"

definition blank_name :: AddItemForm_state where
  "blank_name = AddItemForm_init\<lparr>formData := keys_form\<lparr>name := ''  ''\<rparr>\<rparr>"

definition fill_keys :: "AddItemForm_event list" where
  "fill_keys =
     [Change (Set_name ''Keys''), Change (Set_location ''Hall''), Change (Set_date ''2025-01-01''),
      Change (Set_imageUrl ''https://example.org/keys.jpg'')]"


section \<open>Lemmas on validation and the handlers\<close>

lemmas form_defs =
  handleSubmit_def validateForm_def mutate_def handleInputChange_def onSuccess_def onError_def
  elapseForm_def

lemmas form_view_defs = renderForm_def renderField_def hasError_def

lemma newErrors_spec: "newErrors d k = (if fieldOK k d then None else requiredMessage k)"
  by (cases k) (auto simp: newErrors_def Let_def truthy_def trim_eq_Nil_iff)

lemma formOK_iff: "formOK d \<longleftrightarrow> (\<forall>k. fieldOK k d)"
  by (simp add: formOK_def list_all_iff)

lemma requiredMessage_None_fieldOK: "requiredMessage k = None \<Longrightarrow> fieldOK k d"
  by (cases k) simp_all

lemma newErrors_empty_iff: "newErrors d = Map.empty \<longleftrightarrow> formOK d"
  by (auto simp: fun_eq_iff newErrors_spec formOK_iff requiredMessage_None_fieldOK)

lemma object_keys_empty_iff: "length (object_keys e) = 0 \<longleftrightarrow> e = Map.empty"
  by (auto simp: object_keys_def filter_empty_conv fun_eq_iff)

lemma set_object_keys [simp]: "set (object_keys e) = dom e"
  by (auto simp: object_keys_def)

lemma validateForm_eq:
  "validateForm s = (s\<lparr>errors := newErrors (formData s)\<rparr>, formOK (formData s))"
  using object_keys_empty_iff [of "newErrors (formData s)"]
  by (simp add: validateForm_def Let_def newErrors_empty_iff)

lemma handleSubmit_eq:
  "handleSubmit s =
     (if formOK (formData s)
      then (s\<lparr>errors := Map.empty, inFlight := Some (formData s)\<rparr>, [Send (createItem (formData s))])
      else (s\<lparr>errors := newErrors (formData s)\<rparr>, []))"
  by (simp add: handleSubmit_def validateForm_eq mutate_def newErrors_empty_iff)

lemma handleInputChange_fields [simp]:
  "formData (handleInputChange c s) = apply_change c (formData s)"
  "isSubmitted (handleInputChange c s) = isSubmitted s"
  "inFlight (handleInputChange c s) = inFlight s"
  "successTimers (handleInputChange c s) = successTimers s"
  "errors (handleInputChange c s) k =
     (if k = change_key c \<and> hasError (errors s) k then None else errors s k)"
  by (auto simp: handleInputChange_def Let_def)

lemma fieldOK_apply_change_other:
  "change_key c \<noteq> k \<Longrightarrow> fieldOK k (apply_change c d) = fieldOK k d"
  by (cases c; cases k) simp_all

lemma requiredMessage_truthy: "requiredMessage k = Some m \<Longrightarrow> truthy m"
  by (cases k) (auto simp: truthy_def)


section \<open>Lemmas on the invariant\<close>

lemmas form_inv_defs = form_inv_def timers_ok_def errors_ok_def

lemma errors_ok_iff:
  "errors_ok s \<longleftrightarrow> (\<forall>k. errors s k = None \<or> (errors s k = requiredMessage k \<and> \<not> fieldOK k (formData s)))"
  by (simp add: errors_ok_def list_all_iff)

lemma form_inv_init: "form_inv AddItemForm_init"
  by (simp add: form_inv_defs AddItemForm_init_def all_keys_def)

lemma errors_ok_change:
  assumes "errors_ok s"
  shows "errors_ok (handleInputChange c s)"
  unfolding errors_ok_iff
proof
  fix k
  from assms have k: "errors s k = None \<or> (errors s k = requiredMessage k \<and> \<not> fieldOK k (formData s))"
    by (simp add: errors_ok_iff)
  show "errors (handleInputChange c s) k = None \<or>
      (errors (handleInputChange c s) k = requiredMessage k \<and> \<not> fieldOK k (formData (handleInputChange c s)))"
  proof (cases "k = change_key c")
    case True
    with k show ?thesis
      by (auto simp: hasError_def dest: requiredMessage_truthy split: option.splits)
  next
    case False
    with k show ?thesis
      by (auto simp: fieldOK_apply_change_other)
  qed
qed

lemma errors_ok_newErrors: "errors_ok (s\<lparr>errors := newErrors (formData s)\<rparr>)"
  by (simp add: errors_ok_iff newErrors_spec)

lemma errors_ok_empty: "errors s = Map.empty \<Longrightarrow> errors_ok s"
  by (simp add: errors_ok_iff)

lemma form_inv_change: "form_inv s \<Longrightarrow> enabled s (Change c) \<Longrightarrow> form_inv (handleInputChange c s)"
  by (auto simp: form_inv_def timers_ok_def errors_ok_change renderForm_def fun_eq_iff
      split: option.splits if_splits)

lemma form_inv_submit: "form_inv s \<Longrightarrow> enabled s Submit \<Longrightarrow> form_inv (fst (handleSubmit s))"
  by (auto simp: form_inv_def timers_ok_def handleSubmit_eq errors_ok_newErrors errors_ok_empty
      renderForm_def split: option.splits if_splits)

lemma form_inv_success: "form_inv s \<Longrightarrow> enabled s Succeed \<Longrightarrow> form_inv (fst (onSuccess s))"
  by (auto simp: form_inv_def timers_ok_def onSuccess_def errors_ok_empty successDelay_def
      split: option.splits if_splits)

lemma errors_ok_cong:
  "errors s' = errors s \<Longrightarrow> formData s' = formData s \<Longrightarrow> errors_ok s' = errors_ok s"
  by (simp add: errors_ok_def)

lemma elapseForm_fields [simp]:
  "formData (elapseForm ms s) = formData s"
  "errors (elapseForm ms s) = errors s"
  "inFlight (elapseForm ms s) = inFlight s"
  by (simp_all add: elapseForm_def Let_def)

lemma onError_fields [simp]:
  "formData (onError s) = formData s"
  "errors (onError s) = errors s"
  "isSubmitted (onError s) = isSubmitted s"
  "successTimers (onError s) = successTimers s"
  "inFlight (onError s) = None"
  by (simp_all add: onError_def)

lemma timers_ok_elapse: "timers_ok s \<Longrightarrow> timers_ok (elapseForm ms s)"
  by (cases "successTimers s") (auto simp: timers_ok_def elapseForm_def Let_def)

lemma isSubmitted_elapse: "isSubmitted (elapseForm ms s) \<Longrightarrow> isSubmitted s"
  by (simp add: elapseForm_def Let_def split: if_splits)

lemma form_inv_error: "form_inv s \<Longrightarrow> form_inv (onError s)"
  by (simp add: form_inv_def timers_ok_def errors_ok_cong [of "onError s" s])

lemma form_inv_elapse: "form_inv s \<Longrightarrow> form_inv (elapseForm ms s)"
  using isSubmitted_elapse [of ms s]
  by (auto simp: form_inv_def timers_ok_elapse errors_ok_cong [of "elapseForm ms s" s]
      split: option.splits)

lemma form_inv_step: "form_inv s \<Longrightarrow> enabled s e \<Longrightarrow> form_inv (fst (AddItemForm_step s e))"
  by (cases e) (simp_all add: form_inv_change form_inv_submit form_inv_success form_inv_error form_inv_elapse del: enabled.simps)


section \<open>Lemmas on runs\<close>

lemma step_sends_valid: "Send (createItem d) \<in> set (snd (AddItemForm_step s e)) \<Longrightarrow> formOK d"
  by (cases e) (auto simp: handleSubmit_eq onSuccess_def split: if_splits)

lemma step_sends_create: "Send r \<in> set (snd (AddItemForm_step s e)) \<Longrightarrow> \<exists>d. r = createItem d"
  by (cases e) (auto simp: form_defs Let_def split: if_splits prod.splits)

lemma run_form_Cons:
  "run_form s (e # es) = Some (s', cs) \<longleftrightarrow>
     enabled s e \<and> (\<exists>cs'. run_form (fst (AddItemForm_step s e)) es = Some (s', cs')
        \<and> cs = snd (AddItemForm_step s e) @ cs')"
  by (auto split: option.splits simp del: enabled.simps AddItemForm_step.simps)

lemma run_form_induct [consumes 1, case_names Nil Cons]:
  assumes run: "run_form s es = Some (s', cs)"
    and nil: "\<And>s. P s [] s []"
    and cons: "\<And>s e es t cs'. enabled s e \<Longrightarrow> run_form (fst (AddItemForm_step s e)) es = Some (t, cs') \<Longrightarrow>
        P (fst (AddItemForm_step s e)) es t cs' \<Longrightarrow> P s (e # es) t (snd (AddItemForm_step s e) @ cs')"
  shows "P s es s' cs"
  using run
proof (induction es arbitrary: s cs)
  case Nil
  then show ?case by (simp add: nil)
next
  case (Cons e es)
  from Cons.prems obtain cs' where e: "enabled s e"
    and r: "run_form (fst (AddItemForm_step s e)) es = Some (s', cs')"
    and cs: "cs = snd (AddItemForm_step s e) @ cs'"
    unfolding run_form_Cons by blast
  from cons [OF e r Cons.IH [OF r]] show ?case
    by (simp only: cs)
qed

lemma step_in_flight:
  "enabled s e \<Longrightarrow>
     length (filter is_create (snd (AddItemForm_step s e))) + flying s =
       (if is_answer e then 1 else 0) + flying (fst (AddItemForm_step s e))"
  by (cases e)
    (auto simp: flying_def is_answer_def is_create_def handleSubmit_eq onSuccess_def renderForm_def
      split: if_splits)

lemma step_invalidations:
  "count_list (snd (AddItemForm_step s e)) InvalidateItems = (if e = Succeed then 1 else 0)"
  by (cases e) (simp_all add: handleSubmit_eq onSuccess_def)

lemma run_form_reach:
  "run_form s es = Some (s', cs) \<Longrightarrow> AddItemForm_reach s \<Longrightarrow> AddItemForm_reach s'"
  by (induction rule: run_form_induct) (auto intro: reach_event)

lemma run_fill_submit:
  "run_form AddItemForm_init (fill_keys @ [Submit]) = Some (submitted_keys, [Send (createItem keys_form)])"
  by code_simp

lemma run_fill_submit_succeed:
  "run_form AddItemForm_init (fill_keys @ [Submit, Succeed, Tick 3000]) =
     Some (AddItemForm_init, [Send (createItem keys_form), InvalidateItems])"
  by code_simp

lemma reach_submitted_keys: "AddItemForm_reach submitted_keys"
  by (rule run_form_reach [OF run_fill_submit reach_init])

lemma formOK_keys_form: "formOK keys_form"
  by code_simp


section \<open>Properties\<close>

text \<open>
  Claim C5 (validation implements the rule). \<open>validateForm\<close> answers
  "valid" exactly when every key satisfies the rule \<open>fieldOK\<close>; the error
  object it stores holds, for each key, the message of the key when the rule
  is violated and nothing otherwise; no other cell changes.
\<close>

theorem validateForm_sound_complete:
  "snd (validateForm s) = formOK (formData s)
     \<and> errors (fst (validateForm s)) k = (if fieldOK k (formData s) then None else requiredMessage k)
     \<and> fst (validateForm s) = s\<lparr>errors := errors (fst (validateForm s))\<rparr>"
  by (simp add: validateForm_eq newErrors_spec)

text \<open>
  Claim C6 (an invalid form is not sent). When some field violates the rule, a
  submission issues no request, starts no call, and stores the message of that
  field, so that the error object is not empty.
\<close>

theorem submit_invalid_blocked:
  assumes "\<not> fieldOK k (formData s)"
  shows "snd (handleSubmit s) = [] \<and> inFlight (fst (handleSubmit s)) = inFlight s
     \<and> errors (fst (handleSubmit s)) k = requiredMessage k
     \<and> errors (fst (handleSubmit s)) k \<noteq> None"
proof -
  from assms have "\<not> formOK (formData s)"
    by (auto simp: formOK_iff)
  moreover from assms have "requiredMessage k \<noteq> None"
    using requiredMessage_None_fieldOK [of k "formData s"] by auto
  ultimately show ?thesis
    using assms by (auto simp: handleSubmit_eq newErrors_spec)
qed

theorem submit_invalid_blocked_witness:
  "\<not> fieldOK K_name (formData blank_name)
     \<and> snd (handleSubmit blank_name) = []
     \<and> errors (fst (handleSubmit blank_name)) K_name = Some ''Item name is required''"
  using submit_invalid_blocked [of K_name blank_name]
  by (simp add: blank_name_def keys_form_def isWhiteSpace_def)

text \<open>
  A valid form is sent once. When every field satisfies the rule, a submission
  clears the error object, issues exactly one create request with the data of
  the form, and records the call as in flight.
\<close>

theorem submit_valid_sends:
  "formOK (formData s) \<Longrightarrow>
     handleSubmit s = (s\<lparr>errors := Map.empty, inFlight := Some (formData s)\<rparr>, [Send (createItem (formData s))])"
  by (simp add: handleSubmit_eq)

theorem submit_valid_sends_witness:
  "formOK (formData (AddItemForm_init\<lparr>formData := keys_form\<rparr>))
     \<and> handleSubmit (AddItemForm_init\<lparr>formData := keys_form\<rparr>) = (submitted_keys, [Send (createItem keys_form)])"
  using submit_valid_sends [of "AddItemForm_init\<lparr>formData := keys_form\<rparr>"] formOK_keys_form
  by (simp add: submitted_keys_def AddItemForm_init_def)

text \<open>
  Claim C10 (invariant of the reachable states). In every reachable state the
  success card is on exactly while its single timer runs, the form is then
  reset and no call is in flight; a call in flight carries data that satisfy
  the rule; and every stored message is the message of its key at a field that
  violates the rule.
\<close>

theorem AddItemForm_reach_invariant: "AddItemForm_reach s \<Longrightarrow> form_inv s"
  by (induction rule: AddItemForm_reach.induct) (simp_all add: form_inv_init form_inv_step)

theorem AddItemForm_reach_invariant_witness:
  "AddItemForm_reach submitted_keys \<and> form_inv submitted_keys"
  using AddItemForm_reach_invariant [OF reach_submitted_keys] reach_submitted_keys by simp

text \<open>
  Claim C11 (only validated data is sent). Whatever the sequence of events,
  every create request issued along it carries data that satisfy the
  validation rule.
\<close>

theorem run_form_sends_valid:
  "run_form s es = Some (s', cs) \<Longrightarrow> Send (createItem d) \<in> set cs \<Longrightarrow> formOK d"
  by (induction rule: run_form_induct) (auto dest: step_sends_valid)

theorem run_form_sends_valid_witness:
  "run_form AddItemForm_init (fill_keys @ [Submit]) = Some (submitted_keys, [Send (createItem keys_form)])
     \<and> Send (createItem keys_form) \<in> set [Send (createItem keys_form)] \<and> formOK keys_form"
  using run_form_sends_valid [OF run_fill_submit, of keys_form] run_fill_submit by simp

text \<open>
  Claim C12 (no duplicate submission). Along every sequence of events the number
  of create requests issued, plus the call in flight at the start, equals the
  number of answers received plus the call in flight at the end, which is one
  at most: a request is only issued when the previous one has been answered.
\<close>

theorem run_form_one_in_flight:
  "run_form s es = Some (s', cs) \<Longrightarrow>
     length (filter is_create cs) + flying s = length (filter is_answer es) + flying s'"
proof (induction rule: run_form_induct)
  case (Nil s)
  show ?case by simp
next
  case (Cons s e es t cs')
  from Cons.IH step_in_flight [OF Cons.hyps(1)] show ?case
    by (cases "is_answer e") simp_all
qed

theorem run_form_one_in_flight_witness:
  "run_form AddItemForm_init (fill_keys @ [Submit]) = Some (submitted_keys, [Send (createItem keys_form)])
     \<and> length (filter is_create [Send (createItem keys_form)]) + flying AddItemForm_init =
         length (filter is_answer (fill_keys @ [Submit])) + flying submitted_keys"
  using run_form_one_in_flight [OF run_fill_submit] run_fill_submit by simp

text \<open>
  Claim C35 (one invalidation per success). Along every sequence of events the
  cached collection is invalidated once for each successful create and never
  otherwise.
\<close>

theorem run_form_invalidations:
  "run_form s es = Some (s', cs) \<Longrightarrow> count_list cs InvalidateItems = count_list es Succeed"
  by (induction rule: run_form_induct) (simp_all add: step_invalidations)

theorem run_form_invalidations_witness:
  "run_form AddItemForm_init (fill_keys @ [Submit, Succeed, Tick 3000]) =
       Some (AddItemForm_init, [Send (createItem keys_form), InvalidateItems])
     \<and> count_list [Send (createItem keys_form), InvalidateItems] InvalidateItems = 1
     \<and> count_list (fill_keys @ [Submit, Succeed, Tick 3000]) Succeed = 1"
  using run_form_invalidations [OF run_fill_submit_succeed] run_fill_submit_succeed
  by (simp add: fill_keys_def)

text \<open>
  Claim C36 (the success card is shown for three seconds). After a successful
  create with no timer running, the success card is shown for every time
  short of \<open>successDelay\<close> and the form from then on, and the form holds
  the default values.
\<close>

theorem success_card_duration:
  "successTimers s = [] \<Longrightarrow>
     (renderForm (elapseForm ms (fst (onSuccess s))) = SuccessCard \<longleftrightarrow> ms < successDelay)
     \<and> formData (elapseForm ms (fst (onSuccess s))) = defaultForm"
  by (auto simp: onSuccess_def elapseForm_def renderForm_def Let_def)

theorem success_card_duration_witness:
  "successTimers submitted_keys = []
     \<and> renderForm (elapseForm 2999 (fst (onSuccess submitted_keys))) = SuccessCard
     \<and> renderForm (elapseForm 3000 (fst (onSuccess submitted_keys))) \<noteq> SuccessCard"
  using success_card_duration [of submitted_keys 2999] success_card_duration [of submitted_keys 3000]
  by (simp add: submitted_keys_def AddItemForm_init_def successDelay_def)

text \<open>
  Claim C29 (a failed create leaves no trace). Submitting a valid form and
  receiving a failure leads back to the state before the submission with the
  error object cleared: the view is the one of a form that was never
  submitted, and nothing is issued.
\<close>

theorem failed_create_silent:
  assumes "formOK (formData s)" and "inFlight s = None"
  shows "fst (AddItemForm_step (fst (AddItemForm_step s Submit)) Fail) = s\<lparr>errors := Map.empty\<rparr>
     \<and> snd (AddItemForm_step (fst (AddItemForm_step s Submit)) Fail) = []
     \<and> renderForm (fst (AddItemForm_step (fst (AddItemForm_step s Submit)) Fail)) =
         renderForm (s\<lparr>errors := Map.empty\<rparr>)"
  using assms by (cases s) (simp add: handleSubmit_eq onError_def)

theorem failed_create_silent_witness:
  "formOK (formData (AddItemForm_init\<lparr>formData := keys_form\<rparr>))
     \<and> inFlight (AddItemForm_init\<lparr>formData := keys_form\<rparr>) = None
     \<and> fst (AddItemForm_step (fst (AddItemForm_step (AddItemForm_init\<lparr>formData := keys_form\<rparr>) Submit)) Fail)
         = AddItemForm_init\<lparr>formData := keys_form\<rparr>"
  using failed_create_silent [of "AddItemForm_init\<lparr>formData := keys_form\<rparr>"] formOK_keys_form
  by (simp add: AddItemForm_init_def)

text \<open>
  A change touches one field. \<open>handleInputChange
\<close> assigns the
  field of its key, removes the message of that key when one is shown, and
  leaves every other cell as it is.
\<close>

theorem handleInputChange_frame:
  "formData (handleInputChange c s) = apply_change c (formData s)
     \<and> errors (handleInputChange c s) =
         (if hasError (errors s) (change_key c) then (errors s)(change_key c := None) else errors s)
     \<and> isSubmitted (handleInputChange c s) = isSubmitted s
     \<and> inFlight (handleInputChange c s) = inFlight s
     \<and> successTimers (handleInputChange c s) = successTimers s"
  by (simp add: handleInputChange_def Let_def)

end
