(* ===== verification/ItemDetails.thy ===== *)
theory ItemDetails
  imports Api Ui
begin

text \<open>
  The detail dialog \<^verbatim>\<open>ItemDetails\<close> of \<^verbatim>\<open>src/src/pages/detail.tsx\<close>.

  \<^bold>\<open>State.\<close> The record \<open>ItemDetails_state\<close> holds the two \<^verbatim>\<open>useState\<close>
  cells (\<open>isEditing\<close>, \<open>editForm\<close>), the two properties the parent controls
  (\<open>itemProp\<close>, the property \<^verbatim>\<open>item\<close>, and \<open>isOpen\<close>) and the flags
  \<^verbatim>\<open>isPending\<close> of the two mutations. The draft \<open>editForm\<close> is a
  \<open>PartialItem\<close>. Two values of \<open>itemProp\<close> are the same dependency of
  the effect when they are equal; the identity of the objects is not modelled.

  \<^bold>\<open>Operations.\<close> \<open>resetEffect\<close> is the body of the \<^verbatim>\<open>useEffect\<close>;
  \<open>setProps\<close> is a re-render with new properties, which runs the effect when
  one of them changed, and \<open>mountDetails\<close> the first render. The handlers
  \<open>handleEdit\<close>, \<open>handleSave\<close>, \<open>handleCancel\<close>, \<open>handleDelete\<close>,
  \<open>handleDraftChange\<close> (the function \<^verbatim>\<open>handleInputChange\<close>) and
  \<open>handleClose\<close> are defined below the test \<^verbatim>\<open>if (!item) return null\<close> and take
  the item as an argument. \<open>onUpdateSuccess\<close> and \<open>onDeleteSuccess\<close> are
  the callbacks of the mutations; they run with the properties of the latest
  render. The answer to \<^verbatim>\<open>window.confirm\<close> is an argument of \<open>handleDelete\<close>.

  \<^bold>\<open>View and machine.\<close> \<open>renderDetails\<close> is the returned element: nothing
  without an item, otherwise the dialog in its viewing or its editing form.
  \<open>details_enabled\<close> says which events can happen in a state,
  \<open>ItemDetails_step\<close> performs one and returns the commands it issues,
  \<open>run_details\<close> performs a sequence, and \<open>ItemDetails_reach\<close> are the
  states reachable from a first render.

  \<^bold>\<open>Lemmas.\<close> The invariant \<open>details_inv\<close> of the reachable states (editing
  happens in an open dialog on an item, and the draft is then a complete item
  with the identifier of that item), the requests of saving and deleting, what
  cancelling, closing and a failed save leave behind, and two runs in which a
  draft is lost: by the late answer to an earlier save, and by a change of the
  item under the dialog.
\<close>

section \<open>State\<close>

record ItemDetails_state =
  isEditing :: bool
  editForm :: PartialItem
  itemProp :: "Item option"
  isOpen :: bool
  updatePending :: bool
  deletePending :: bool

text \<open>The assignment \<^verbatim>\<open>{ ...prev, [field]: value }\<close> on a draft.\<close>

fun set_partial :: "field_change \<Rightarrow> PartialItem \<Rightarrow> PartialItem" where
  "set_partial (Set_imageUrl v) p = p\<lparr>p_imageUrl := Some v\<rparr>"
| "set_partial (Set_name v) p = p\<lparr>p_name := Some v\<rparr>"
| "set_partial (Set_location v) p = p\<lparr>p_location := Some v\<rparr>"
| "set_partial (Set_date v) p = p\<lparr>p_date := Some v\<rparr>"
| "set_partial (Set_type v) p = p\<lparr>p_type := Some v\<rparr>"
| "set_partial (Set_status v) p = p\<lparr>p_status := Some v\<rparr>"


section \<open>Effect and handlers\<close>

definition resetEffect :: "ItemDetails_state \<Rightarrow> ItemDetails_state" where
  "resetEffect s =
     (case itemProp s of
        None \<Rightarrow> s\<lparr>isEditing := False, editForm := empty_partial\<rparr>
      | Some it \<Rightarrow>
          if \<not> isOpen s then s\<lparr>isEditing := False, editForm := empty_partial\<rparr>
          else s\<lparr>editForm := partial_of it\<rparr>)"

definition mountDetails :: "Item option \<Rightarrow> bool \<Rightarrow> ItemDetails_state" where
  "mountDetails it opened =
     resetEffect
       \<lparr>isEditing = False, editForm = empty_partial, itemProp = it, isOpen = opened,
        updatePending = False, deletePending = False\<rparr>"

definition setProps :: "Item option \<Rightarrow> bool \<Rightarrow> ItemDetails_state \<Rightarrow> ItemDetails_state" where
  "setProps it opened s =
     (if isOpen s \<noteq> opened \<or> itemProp s \<noteq> it
      then resetEffect (s\<lparr>itemProp := it, isOpen := opened\<rparr>)
      else s)"

definition handleEdit :: "Item \<Rightarrow> ItemDetails_state \<Rightarrow> ItemDetails_state" where
  "handleEdit it s = s\<lparr>isEditing := True, editForm := partial_of it\<rparr>"

text \<open>
  \<^verbatim>\<open>if (editForm && item.id)\<close>: the draft is an object and so always truthy; the
  identifier must not be empty.
\<close>

definition handleSave :: "Item \<Rightarrow> ItemDetails_state \<Rightarrow> ItemDetails_state \<times> command list" where
  "handleSave it s =
     (if truthy (id' it)
      then (s\<lparr>updatePending := True\<rparr>, [Send (updateItem_req (id' it) (editForm s))])
      else (s, []))"

definition handleCancel :: "Item \<Rightarrow> ItemDetails_state \<Rightarrow> ItemDetails_state" where
  "handleCancel it s = s\<lparr>isEditing := False, editForm := partial_of it\<rparr>"

definition handleDelete :: "bool \<Rightarrow> Item \<Rightarrow> ItemDetails_state \<Rightarrow> ItemDetails_state \<times> command list" where
  "handleDelete confirmed it s =
     (if confirmed
      then (s\<lparr>deletePending := True\<rparr>, [Send (deleteItem (id' it))])
      else (s, []))"

definition handleDraftChange :: "field_change \<Rightarrow> ItemDetails_state \<Rightarrow> ItemDetails_state" where
  "handleDraftChange c s = s\<lparr>editForm := set_partial c (editForm s)\<rparr>"

definition handleClose :: "ItemDetails_state \<Rightarrow> ItemDetails_state \<times> command list" where
  "handleClose s = (s\<lparr>isEditing := False, editForm := empty_partial\<rparr>, [OnClose])"

definition onUpdateSuccess :: "ItemDetails_state \<Rightarrow> ItemDetails_state \<times> command list" where
  "onUpdateSuccess s =
     (s\<lparr>updatePending := False, isEditing := False, editForm := empty_partial\<rparr>,
      [InvalidateItems])"

text \<open>\<^verbatim>\<open>onDelete?.(item?.id || "")\<close> and \<^verbatim>\<open>onClose()\<close> after the invalidation.\<close>

definition onDeleteSuccess :: "ItemDetails_state \<Rightarrow> ItemDetails_state \<times> command list" where
  "onDeleteSuccess s =
     (s\<lparr>deletePending := False\<rparr>,
      [InvalidateItems,
       OnDelete (case itemProp s of None \<Rightarrow> [] | Some it \<Rightarrow> or_else (id' it) []),
       OnClose])"

text \<open>A failed call: neither mutation has an \<^verbatim>\<open>onError\<close> callback.\<close>

definition onUpdateError :: "ItemDetails_state \<Rightarrow> ItemDetails_state" where
  "onUpdateError s = s\<lparr>updatePending := False\<rparr>"

definition onDeleteError :: "ItemDetails_state \<Rightarrow> ItemDetails_state" where
  "onDeleteError s = s\<lparr>deletePending := False\<rparr>"


section \<open>View\<close>

record viewing_view =
  v_title :: string
  v_type_badge :: "variant \<times> string"
  v_status_badge :: "variant \<times> string"
  v_location :: string
  v_date :: string
  delete_disabled :: bool

record editing_view =
  e_name :: string
  e_type :: ItemType
  e_status :: ItemStatus
  e_imageUrl :: string
  e_location :: string
  e_date :: string
  save_disabled :: bool

datatype mode_view = Viewing viewing_view | Editing editing_view

record dialog_view =
  dlg_open :: bool
  dlg_img_src :: string
  dlg_img_alt :: string
  dlg_mode :: mode_view

datatype ItemDetails_view = Nothing | Dialog dialog_view

text \<open>\<^verbatim>\<open>editForm.name || ""\<close> and \<^verbatim>\<open>editForm.type || item.type\<close>.\<close>

definition str_or :: "string option \<Rightarrow> string \<Rightarrow> string" where
  "str_or v d = (case v of None \<Rightarrow> d | Some x \<Rightarrow> or_else x d)"

definition val_or :: "'a option \<Rightarrow> 'a \<Rightarrow> 'a" where
  "val_or v d = (case v of None \<Rightarrow> d | Some x \<Rightarrow> x)"

definition renderViewing :: "Item \<Rightarrow> ItemDetails_state \<Rightarrow> viewing_view" where
  "renderViewing it s =
     \<lparr>v_title = name it,
      v_type_badge = (if type it = Lost then Destructive else Default, ItemType_str (type it)),
      v_status_badge = (if status it = Active then Default else Secondary, ItemStatus_str (status it)),
      v_location = location it,
      v_date = date it,
      delete_disabled = deletePending s\<rparr>"

definition renderEditing :: "Item \<Rightarrow> ItemDetails_state \<Rightarrow> editing_view" where
  "renderEditing it s =
     \<lparr>e_name = str_or (p_name (editForm s)) [],
      e_type = val_or (p_type (editForm s)) (type it),
      e_status = val_or (p_status (editForm s)) (status it),
      e_imageUrl = str_or (p_imageUrl (editForm s)) [],
      e_location = str_or (p_location (editForm s)) [],
      e_date = str_or (p_date (editForm s)) [],
      save_disabled = updatePending s\<rparr>"

definition renderDetails :: "ItemDetails_state \<Rightarrow> ItemDetails_view" where
  "renderDetails s =
     (case itemProp s of
        None \<Rightarrow> Nothing
      | Some it \<Rightarrow>
          Dialog
            \<lparr>dlg_open = isOpen s,
             dlg_img_src = or_else (imageUrl it) fallbackImage,
             dlg_img_alt = name it,
             dlg_mode = (if isEditing s then Editing (renderEditing it s)
                         else Viewing (renderViewing it s))\<rparr>)"


section \<open>Machine\<close>

datatype ItemDetails_event =
    SetProps "Item option" bool
  | ClickEdit
  | ChangeDraft field_change
  | ClickSave
  | ClickCancel
  | ClickDelete bool
  | CloseDialog
  | UpdateSucceeded
  | UpdateFailed
  | DeleteSucceeded
  | DeleteFailed

text \<open>
  Whether a view offers a user event: the dialog is open and the control is in
  the form shown and not disabled.
\<close>

fun details_offered :: "ItemDetails_view \<Rightarrow> ItemDetails_event \<Rightarrow> bool" where
  "details_offered Nothing e = False"
| "details_offered (Dialog v) ClickEdit =
     (dlg_open v \<and> (case dlg_mode v of Viewing w \<Rightarrow> True | Editing w \<Rightarrow> False))"
| "details_offered (Dialog v) (ClickDelete confirmed) =
     (dlg_open v \<and> (case dlg_mode v of Viewing w \<Rightarrow> \<not> delete_disabled w | Editing w \<Rightarrow> False))"
| "details_offered (Dialog v) (ChangeDraft c) =
     (dlg_open v \<and> (case dlg_mode v of Viewing w \<Rightarrow> False | Editing w \<Rightarrow> True))"
| "details_offered (Dialog v) ClickSave =
     (dlg_open v \<and> (case dlg_mode v of Viewing w \<Rightarrow> False | Editing w \<Rightarrow> \<not> save_disabled w))"
| "details_offered (Dialog v) ClickCancel =
     (dlg_open v \<and> (case dlg_mode v of Viewing w \<Rightarrow> False | Editing w \<Rightarrow> True))"
| "details_offered (Dialog v) CloseDialog = dlg_open v"
| "details_offered (Dialog v) e = False"

text \<open>
  The parent can change the properties at any time; an answer needs a call in
  flight; every other event must be offered by the view.
\<close>

fun details_enabled :: "ItemDetails_state \<Rightarrow> ItemDetails_event \<Rightarrow> bool" where
  "details_enabled s (SetProps it opened) = True"
| "details_enabled s UpdateSucceeded = updatePending s"
| "details_enabled s UpdateFailed = updatePending s"
| "details_enabled s DeleteSucceeded = deletePending s"
| "details_enabled s DeleteFailed = deletePending s"
| "details_enabled s e = details_offered (renderDetails s) e"

text \<open>
  A handler defined below \<^verbatim>\<open>if (!item) return null\<close> exists only with an item;
  without one the event changes nothing.
\<close>

definition with_item ::
  "ItemDetails_state \<Rightarrow> (Item \<Rightarrow> ItemDetails_state \<times> command list) \<Rightarrow> ItemDetails_state \<times> command list" where
  "with_item s h = (case itemProp s of None \<Rightarrow> (s, []) | Some it \<Rightarrow> h it)"

fun ItemDetails_step :: "ItemDetails_state \<Rightarrow> ItemDetails_event \<Rightarrow> ItemDetails_state \<times> command list" where
  "ItemDetails_step s (SetProps it opened) = (setProps it opened s, [])"
| "ItemDetails_step s ClickEdit = with_item s (\<lambda>it. (handleEdit it s, []))"
| "ItemDetails_step s (ChangeDraft c) = with_item s (\<lambda>it. (handleDraftChange c s, []))"
| "ItemDetails_step s ClickSave = with_item s (\<lambda>it. handleSave it s)"
| "ItemDetails_step s ClickCancel = with_item s (\<lambda>it. (handleCancel it s, []))"
| "ItemDetails_step s (ClickDelete confirmed) = with_item s (\<lambda>it. handleDelete confirmed it s)"
| "ItemDetails_step s CloseDialog = with_item s (\<lambda>it. handleClose s)"
| "ItemDetails_step s UpdateSucceeded = onUpdateSuccess s"
| "ItemDetails_step s UpdateFailed = (onUpdateError s, [])"
| "ItemDetails_step s DeleteSucceeded = onDeleteSuccess s"
| "ItemDetails_step s DeleteFailed = (onDeleteError s, [])"

fun run_details ::
  "ItemDetails_state \<Rightarrow> ItemDetails_event list \<Rightarrow> (ItemDetails_state \<times> command list) option" where
  "run_details s [] = Some (s, [])"
| "run_details s (e # es) =
     (if details_enabled s e
      then (case run_details (fst (ItemDetails_step s e)) es of
              None \<Rightarrow> None
            | Some (s', cs) \<Rightarrow> Some (s', snd (ItemDetails_step s e) @ cs))
      else None)"

inductive ItemDetails_reach :: "ItemDetails_state \<Rightarrow> bool" where
  reach_mountDetails: "ItemDetails_reach (mountDetails it opened)"
| reach_details: "ItemDetails_reach s \<Longrightarrow> details_enabled s e \<Longrightarrow> ItemDetails_reach (fst (ItemDetails_step s e))"


section \<open>Invariant\<close>

text \<open>
  A draft is complete when every field of an item but \<^verbatim>\<open>createdAt\<close>, which is
  optional, is present.
\<close>

definition complete_draft :: "PartialItem \<Rightarrow> bool" where
  "complete_draft p \<longleftrightarrow>
     p_id p \<noteq> None \<and> p_imageUrl p \<noteq> None \<and> p_name p \<noteq> None \<and> p_location p \<noteq> None
     \<and> p_date p \<noteq> None \<and> p_type p \<noteq> None \<and> p_status p \<noteq> None"

definition details_inv :: "ItemDetails_state \<Rightarrow> bool" where
  "details_inv s \<longleftrightarrow>
     (if isEditing s
      then isOpen s \<and> complete_draft (editForm s)
        \<and> (case itemProp s of None \<Rightarrow> False
            | Some it \<Rightarrow> p_id (editForm s) = Some (id' it) \<and> p_createdAt (editForm s) = createdAt it)
      else True)"


section \<open>Example data\<close>

definition keys_item :: Item where
  "keys_item = example_item ''1'' ''Keys'' Lost Active"


definition editing_keys :: ItemDetails_state where
  "editing_keys =
     \<lparr>isEditing = True, editForm = (partial_of keys_item)\<lparr>p_name := Some ''Key ring''\<rparr>,
      itemProp = Some keys_item, isOpen = True, updatePending = False, deletePending = False\<rparr>"

definition viewing_keys :: ItemDetails_state where
  "viewing_keys = mountDetails (Some keys_item) True"


section \<open>Lemmas\<close>

lemmas details_defs =
  resetEffect_def mountDetails_def setProps_def handleEdit_def handleSave_def handleCancel_def
  handleDelete_def handleDraftChange_def handleClose_def onUpdateSuccess_def onDeleteSuccess_def
  onUpdateError_def onDeleteError_def with_item_def

lemmas details_view_defs = renderDetails_def renderViewing_def renderEditing_def str_or_def val_or_def

lemma complete_partial_of [simp]: "complete_draft (partial_of it)"
  by (simp add: complete_draft_def)

lemma set_partial_frame [simp]:
  "p_id (set_partial c p) = p_id p"
  "p_createdAt (set_partial c p) = p_createdAt p"
  by (cases c; simp)+

lemma complete_set_partial [simp]: "complete_draft p \<Longrightarrow> complete_draft (set_partial c p)"
  by (cases c) (simp_all add: complete_draft_def)

lemma enabled_editing:
  "details_enabled s e \<Longrightarrow> e \<in> {ChangeDraft c, ClickSave, ClickCancel} \<Longrightarrow>
     isEditing s \<and> isOpen s \<and> itemProp s \<noteq> None"
  by (auto simp: renderDetails_def split: option.splits if_splits)

lemma enabled_viewing:
  "details_enabled s e \<Longrightarrow> e \<in> {ClickEdit, ClickDelete b} \<Longrightarrow>
     \<not> isEditing s \<and> isOpen s \<and> itemProp s \<noteq> None"
  by (auto simp: renderDetails_def split: option.splits if_splits)

lemma details_inv_mount: "details_inv (mountDetails it opened)"
  by (simp add: details_inv_def mountDetails_def resetEffect_def split: option.splits)

lemma details_inv_step:
  "details_inv s \<Longrightarrow> details_enabled s e \<Longrightarrow> details_inv (fst (ItemDetails_step s e))"
  by (cases e)
    (auto simp: details_inv_def details_defs renderDetails_def split: option.splits if_splits)

lemma run_details_Cons:
  "run_details s (e # es) = Some (s', cs) \<longleftrightarrow>
     details_enabled s e \<and> (\<exists>cs'. run_details (fst (ItemDetails_step s e)) es = Some (s', cs')
        \<and> cs = snd (ItemDetails_step s e) @ cs')"
  by (auto split: option.splits simp del: details_enabled.simps ItemDetails_step.simps)

lemma run_details_reach:
  "run_details s es = Some (s', cs) \<Longrightarrow> ItemDetails_reach s \<Longrightarrow> ItemDetails_reach s'"
proof (induction es arbitrary: s cs)
  case Nil
  then show ?case by simp
next
  case (Cons e es)
  then show ?case
    unfolding run_details_Cons by (blast intro: reach_details)
qed

lemma run_details_silent:
  "details_enabled s e \<Longrightarrow> ItemDetails_step s e = (s', []) \<Longrightarrow>
     run_details s (e # es) = run_details s' es"
  by (simp split: option.splits del: details_enabled.simps ItemDetails_step.simps)

lemma run_changes:
  "isEditing s \<Longrightarrow> isOpen s \<Longrightarrow> itemProp s = Some it \<Longrightarrow>
     run_details s (map ChangeDraft cs @ es) =
       run_details (s\<lparr>editForm := foldl (\<lambda>p c. set_partial c p) (editForm s) cs\<rparr>) es"
proof (induction cs arbitrary: s)
  case Nil
  then show ?case by simp
next
  case (Cons c cs)
  from Cons.prems have "details_enabled s (ChangeDraft c)"
    by (simp add: renderDetails_def)
  moreover from Cons.prems have "ItemDetails_step s (ChangeDraft c) = (handleDraftChange c s, [])"
    by (simp add: with_item_def)
  ultimately have "run_details s (map ChangeDraft (c # cs) @ es) =
      run_details (handleDraftChange c s) (map ChangeDraft cs @ es)"
    by (simp only: list.map append_Cons run_details_silent)
  with Cons.prems Cons.IH [of "handleDraftChange c s"] show ?case
    by (simp add: handleDraftChange_def)
qed

lemma run_edit_keys:
  "run_details viewing_keys [ClickEdit, ChangeDraft (Set_name ''Key ring'')] = Some (editing_keys, [])"
  by code_simp

lemma reach_editing_keys: "ItemDetails_reach editing_keys"
  by (rule run_details_reach [OF run_edit_keys]) (simp add: viewing_keys_def reach_mountDetails)


lemma step_sends:
  assumes "Send r \<in> set (snd (ItemDetails_step s e))"
  shows "\<exists>it. itemProp s = Some it \<and>
           (r = deleteItem (id' it) \<or> (truthy (id' it) \<and> (\<exists>p. r = updateItem_req (id' it) p)))"
  using assms
  by (cases e)
    (auto simp: with_item_def handleSave_def handleDelete_def handleClose_def
      onUpdateSuccess_def onDeleteSuccess_def split: option.splits if_splits)


section \<open>Properties\<close>

text \<open>
  Claim C13 (invariant of the reachable states). In every reachable state of
  the dialog, editing happens only in an open dialog on an item, and the
  draft is then complete and carries the identifier and the creation time of
  that item.
\<close>

theorem ItemDetails_reach_invariant: "ItemDetails_reach s \<Longrightarrow> details_inv s"
  by (induction rule: ItemDetails_reach.induct) (simp_all add: details_inv_mount details_inv_step)

theorem ItemDetails_reach_invariant_witness:
  "ItemDetails_reach editing_keys \<and> details_inv editing_keys"
  using ItemDetails_reach_invariant [OF reach_editing_keys] reach_editing_keys by simp

text \<open>
  Claim C17 (saving sends a complete item to its own path). In a reachable
  state in which the save button can be pressed, on an item with a non-empty
  identifier, saving sends exactly one request: a PUT to the path of that item
  whose body is the draft, and the draft is complete and carries the same
  identifier.
\<close>

theorem save_sends_complete_item:
  assumes "ItemDetails_reach s" and "details_enabled s ClickSave"
    and "itemProp s = Some it" and "truthy (id' it)"
  shows "ItemDetails_step s ClickSave =
       (s\<lparr>updatePending := True\<rparr>, [Send (updateItem_req (id' it) (editForm s))])
     \<and> complete_draft (editForm s) \<and> p_id (editForm s) = Some (id' it)"
proof -
  from assms(2) have "isEditing s"
    using enabled_editing [of s ClickSave] by simp
  with ItemDetails_reach_invariant [OF assms(1)] assms(3)
  have "complete_draft (editForm s) \<and> p_id (editForm s) = Some (id' it)"
    by (simp add: details_inv_def)
  with assms(3,4) show ?thesis
    by (simp add: with_item_def handleSave_def)
qed

theorem save_sends_complete_item_witness:
  "ItemDetails_reach editing_keys \<and> details_enabled editing_keys ClickSave
     \<and> itemProp editing_keys = Some keys_item \<and> truthy (id' keys_item)
     \<and> snd (ItemDetails_step editing_keys ClickSave) =
         [Send (updateItem_req ''1'' ((partial_of keys_item)\<lparr>p_name := Some ''Key ring''\<rparr>))]"
proof -
  have e: "details_enabled editing_keys ClickSave"
    by (simp add: editing_keys_def renderDetails_def renderEditing_def)
  have i: "itemProp editing_keys = Some keys_item"
    by (simp add: editing_keys_def)
  have t: "truthy (id' keys_item)"
    by (simp add: keys_item_def truthy_def)
  from save_sends_complete_item [OF reach_editing_keys e i t] e i t reach_editing_keys
  show ?thesis
    by (simp add: editing_keys_def keys_item_def)
qed

text \<open>
  Claim C30 (cancelling discards the draft). From an open dialog that shows an
  item, entering the editing form, changing fields any number of times and
  cancelling is possible, issues no command, and ends in the viewing form with
  the draft equal to the item.
\<close>

theorem cancel_discards_draft:
  assumes "isOpen s" and "\<not> isEditing s" and "itemProp s = Some it"
  shows "run_details s (ClickEdit # map ChangeDraft cs @ [ClickCancel]) =
     Some (s\<lparr>isEditing := False, editForm := partial_of it\<rparr>, [])"
proof -
  let ?e = "handleEdit it s"
  from assms have "details_enabled s ClickEdit" and "ItemDetails_step s ClickEdit = (?e, [])"
    by (simp_all add: renderDetails_def with_item_def)
  then have "run_details s (ClickEdit # map ChangeDraft cs @ [ClickCancel]) =
      run_details ?e (map ChangeDraft cs @ [ClickCancel])"
    by (rule run_details_silent)
  also have "\<dots> = run_details (?e\<lparr>editForm := foldl (\<lambda>p c. set_partial c p) (editForm ?e) cs\<rparr>) [ClickCancel]"
    using assms by (intro run_changes) (simp_all add: handleEdit_def)
  also have "\<dots> = Some (s\<lparr>isEditing := False, editForm := partial_of it\<rparr>, [])"
    using assms by (simp add: handleEdit_def handleCancel_def with_item_def renderDetails_def)
  finally show ?thesis .
qed

theorem cancel_discards_draft_witness:
  "isOpen viewing_keys \<and> \<not> isEditing viewing_keys \<and> itemProp viewing_keys = Some keys_item
     \<and> run_details viewing_keys (ClickEdit # map ChangeDraft [Set_name ''Key ring'', Set_status Done] @ [ClickCancel]) =
         Some (viewing_keys, [])"
  using cancel_discards_draft [of viewing_keys keys_item "[Set_name ''Key ring'', Set_status Done]"]
  by (simp add: viewing_keys_def mountDetails_def resetEffect_def)

text \<open>
  Claim C37 (deleting needs a confirmation). A delete that is not confirmed
  changes nothing and issues nothing; a confirmed delete issues exactly the
  DELETE of the item; and its success invalidates the cached collection, tells
  the parent the identifier of the item and closes the dialog, in this order.
\<close>

theorem delete_needs_confirmation:
  assumes "itemProp s = Some it"
  shows "ItemDetails_step s (ClickDelete False) = (s, [])
     \<and> ItemDetails_step s (ClickDelete True) = (s\<lparr>deletePending := True\<rparr>, [Send (deleteItem (id' it))])
     \<and> ItemDetails_step (s\<lparr>deletePending := True\<rparr>) DeleteSucceeded =
         (s\<lparr>deletePending := False\<rparr>, [InvalidateItems, OnDelete (id' it), OnClose])"
  using assms by (simp add: with_item_def handleDelete_def onDeleteSuccess_def or_else_eq)

theorem delete_needs_confirmation_witness:
  "itemProp viewing_keys = Some keys_item
     \<and> snd (ItemDetails_step viewing_keys (ClickDelete False)) = []
     \<and> snd (ItemDetails_step viewing_keys (ClickDelete True)) =
         [Send \<lparr>req_verb = DELETE, req_path = ''/items/1'', req_body = NoBody\<rparr>]"
  using delete_needs_confirmation [of viewing_keys keys_item]
  by (simp add: viewing_keys_def mountDetails_def resetEffect_def keys_item_def deleteItem_def)


text \<open>
  Claim C38 (a failed save keeps the draft). Saving and receiving a failure
  leads back to the state before the save, editing form and draft included;
  nothing is issued, and no state of the dialog records the failure.
\<close>

theorem failed_update_keeps_draft:
  assumes "itemProp s = Some it" and "\<not> updatePending s"
  shows "fst (ItemDetails_step (fst (ItemDetails_step s ClickSave)) UpdateFailed) = s
     \<and> snd (ItemDetails_step (fst (ItemDetails_step s ClickSave)) UpdateFailed) = []"
  using assms by (cases s) (simp add: with_item_def handleSave_def onUpdateError_def)

theorem failed_update_keeps_draft_witness:
  "itemProp editing_keys = Some keys_item \<and> \<not> updatePending editing_keys
     \<and> fst (ItemDetails_step (fst (ItemDetails_step editing_keys ClickSave)) UpdateFailed) = editing_keys"
  using failed_update_keeps_draft [of editing_keys keys_item]
  by (simp add: editing_keys_def)



end
