(* ===== verification/ImageUpload.thy ===== *)
theory ImageUpload
  imports Regex
begin

text \<open>
  The image upload \<^verbatim>\<open>ImageUploadSection\<close> of \<^verbatim>\<open>src/src/pages/img.tsx\<close>.

  \<^bold>\<open>State.\<close> The record \<open>ImageUpload_state\<close> holds the two \<^verbatim>\<open>useState\<close>
  cells: \<open>image'\<close> (the cell \<^verbatim>\<open>image\<close>, primed since \<open>image\<close> is the
  image of a set), the chosen file with its object address, and
  \<open>uploadError\<close> (the cell \<^verbatim>\<open>error\<close>). A \<^verbatim>\<open>File\<close> is the record \<open>upload_file\<close>
  of the three properties the component reads. The two messages of
  \<^verbatim>\<open>validateFile\<close> are the constructors of \<open>upload_error\<close>; their texts are
  not reproduced. The pattern of the accepted types is a \<open>rexp\<close> of theory
  \<open>Regex\<close>. The view shows the size of the file as it is; its display in
  megabytes with one decimal is left out.

  \<^bold>\<open>Operations.\<close> \<open>validateFile\<close>, \<open>handleImageUpload\<close> and \<open>removeImage\<close>
  are the functions of the source. The address that \<^verbatim>\<open>URL.createObjectURL\<close>
  returns is an argument of \<open>handleImageUpload\<close>. \<open>imageEffect\<close> is the
  \<^verbatim>\<open>useEffect\<close> on \<^verbatim>\<open>[image]\<close>: after a render in which the image changed it
  runs the cleanup of the previous render and then its body; \<open>unmount\<close> is
  the last cleanup. A handler returns the \<open>upload_command\<close>s it issues: the
  calls of the parent's \<^verbatim>\<open>onImageChange\<close> and of \<^verbatim>\<open>URL.revokeObjectURL\<close>.

  \<^bold>\<open>View and machine.\<close> \<open>renderUpload\<close> is the returned element,
  \<open>upload_offered\<close> says which events it offers, \<open>ImageUpload_step\<close>
  performs an event and the effect after it, \<open>run_upload\<close> a sequence, and
  \<open>ImageUpload_reach\<close> are the states reachable from the first render.

  \<^bold>\<open>Lemmas.\<close> Which files \<open>validateFile\<close> accepts; the invariant of the
  reachable states (a shown image passed the validation and stands without a
  message); what the parent is told; and that removing an image revokes its
  address twice.
\<close>

section \<open>State\<close>

record upload_file =
  file_name :: string
  file_size :: nat
  file_type :: string

record uploaded =
  up_file :: upload_file
  up_url :: string

datatype upload_error = TooLarge | BadFormat

record ImageUpload_state =
  image' :: "uploaded option"
  uploadError :: "upload_error option"

datatype upload_command = OnImageChange string | RevokeObjectURL string

definition ImageUpload_init :: ImageUpload_state where
  "ImageUpload_init = \<lparr>image' = None, uploadError = None\<rparr>"


section \<open>Validation and handlers\<close>

definition MAX_FILE_SIZE :: nat where
  "MAX_FILE_SIZE = 5 * 1024 * 1024"

text \<open>The pattern \<^verbatim>\<open>/^image\/(jpeg|jpg|png|webp)$/\<close> and the test \<^verbatim>\<open>file.type.match\<close> against it.\<close>

definition imageTypePattern :: rexp where
  "imageTypePattern = Times (literal ''image/'') (alternatives [''jpeg'', ''jpg'', ''png'', ''webp''])"

definition matchesImageType :: "string \<Rightarrow> bool" where
  "matchesImageType t = regex_test imageTypePattern t"

definition validateFile :: "upload_file \<Rightarrow> upload_error option" where
  "validateFile f =
     (if file_size f > MAX_FILE_SIZE then Some TooLarge
      else if \<not> matchesImageType (file_type f) then Some BadFormat
      else None)"

text \<open>
  \<^verbatim>\<open>handleImageUpload\<close>: \<open>chosen\<close> is \<^verbatim>\<open>e.target.files?.[0]\<close> and \<open>url\<close> the
  address \<^verbatim>\<open>URL.createObjectURL\<close> returns for it.
\<close>

definition handleImageUpload :: "upload_file option \<Rightarrow> string \<Rightarrow> ImageUpload_state \<Rightarrow> ImageUpload_state" where
  "handleImageUpload chosen url s =
     (case chosen of
        None \<Rightarrow> s
      | Some f \<Rightarrow>
          (case validateFile f of
             Some validationError \<Rightarrow> s\<lparr>uploadError := Some validationError\<rparr>
           | None \<Rightarrow> s\<lparr>image' := Some \<lparr>up_file = f, up_url = url\<rparr>, uploadError := None\<rparr>))"

definition removeImage :: "ImageUpload_state \<Rightarrow> ImageUpload_state \<times> upload_command list" where
  "removeImage s =
     (s\<lparr>image' := None\<rparr>,
      (case image' s of None \<Rightarrow> [] | Some u \<Rightarrow> [RevokeObjectURL (up_url u)]) @ [OnImageChange []])"

text \<open>The cleanup and the body of the effect, for the image of one render.\<close>

definition effectCleanup :: "ImageUpload_state \<Rightarrow> upload_command list" where
  "effectCleanup s = (case image' s of None \<Rightarrow> [] | Some u \<Rightarrow> [RevokeObjectURL (up_url u)])"

definition effectBody :: "ImageUpload_state \<Rightarrow> upload_command list" where
  "effectBody s = (case image' s of None \<Rightarrow> [] | Some u \<Rightarrow> [OnImageChange (up_url u)])"

definition imageEffect :: "ImageUpload_state \<Rightarrow> ImageUpload_state \<Rightarrow> upload_command list" where
  "imageEffect prev s = (if image' s \<noteq> image' prev then effectCleanup prev @ effectBody s else [])"

definition unmount :: "ImageUpload_state \<Rightarrow> upload_command list" where
  "unmount s = effectCleanup s"


section \<open>View\<close>

record preview_view =
  preview_src :: string
  preview_name :: string
  preview_size :: nat

datatype upload_body = FileInput | Preview preview_view

record upload_view =
  shown_error :: "upload_error option"
  upload_body :: upload_body

definition renderUpload :: "ImageUpload_state \<Rightarrow> upload_view" where
  "renderUpload s =
     \<lparr>shown_error = uploadError s,
      upload_body =
        (case image' s of
           None \<Rightarrow> FileInput
         | Some u \<Rightarrow>
             Preview \<lparr>preview_src = up_url u, preview_name = file_name (up_file u),
                      preview_size = file_size (up_file u)\<rparr>)\<rparr>"


section \<open>Machine\<close>

datatype ImageUpload_event = ChooseFile "upload_file option" string | ClickRemove

fun upload_offered :: "upload_view \<Rightarrow> ImageUpload_event \<Rightarrow> bool" where
  "upload_offered v (ChooseFile chosen url) = (upload_body v = FileInput)"
| "upload_offered v ClickRemove = (upload_body v \<noteq> FileInput)"

text \<open>An event runs its handler; the render that follows runs the effect.\<close>

fun ImageUpload_step :: "ImageUpload_state \<Rightarrow> ImageUpload_event \<Rightarrow> ImageUpload_state \<times> upload_command list" where
  "ImageUpload_step s (ChooseFile chosen url) =
     (let s' = handleImageUpload chosen url s in (s', imageEffect s s'))"
| "ImageUpload_step s ClickRemove =
     (let (s', cs) = removeImage s in (s', cs @ imageEffect s s'))"

fun run_upload ::
  "ImageUpload_state \<Rightarrow> ImageUpload_event list \<Rightarrow> (ImageUpload_state \<times> upload_command list) option" where
  "run_upload s [] = Some (s, [])"
| "run_upload s (e # es) =
     (if upload_offered (renderUpload s) e
      then (case run_upload (fst (ImageUpload_step s e)) es of
              None \<Rightarrow> None
            | Some (s', cs) \<Rightarrow> Some (s', snd (ImageUpload_step s e) @ cs))
      else None)"

inductive ImageUpload_reach :: "ImageUpload_state \<Rightarrow> bool" where
  reach_upload_init: "ImageUpload_reach ImageUpload_init"
| reach_upload: "ImageUpload_reach s \<Longrightarrow> upload_offered (renderUpload s) e \<Longrightarrow>
    ImageUpload_reach (fst (ImageUpload_step s e))"


section \<open>Invariant\<close>

definition upload_inv :: "ImageUpload_state \<Rightarrow> bool" where
  "upload_inv s =
     (case image' s of None \<Rightarrow> True | Some u \<Rightarrow> uploadError s = None \<and> validateFile (up_file u) = None)"

text \<open>The address the parent holds after a sequence of commands, starting from \<open>a\<close>.\<close>

fun parent_url :: "string \<Rightarrow> upload_command list \<Rightarrow> string" where
  "parent_url a [] = a"
| "parent_url a (OnImageChange u # cs) = parent_url u cs"
| "parent_url a (RevokeObjectURL u # cs) = parent_url a cs"


section \<open>Example data\<close>

definition photo :: upload_file where
  "photo = \<lparr>file_name = ''keys.png'', file_size = 204800, file_type = ''image/png''\<rparr>"

definition with_photo :: ImageUpload_state where
  "with_photo = \<lparr>image' = Some \<lparr>up_file = photo, up_url = ''blob:1''\<rparr>, uploadError = None\<rparr>"


section \<open>Lemmas\<close>

lemmas upload_defs =
  handleImageUpload_def removeImage_def imageEffect_def effectCleanup_def effectBody_def

lemma matchesImageType_iff:
  "matchesImageType t \<longleftrightarrow> t \<in> {''image/jpeg'', ''image/jpg'', ''image/png'', ''image/webp''}"
  by (auto simp: matchesImageType_def imageTypePattern_def regex_test_iff)

lemma upload_inv_init: "upload_inv ImageUpload_init"
  by (simp add: upload_inv_def ImageUpload_init_def)

lemma upload_inv_step:
  "upload_inv s \<Longrightarrow> upload_offered (renderUpload s) e \<Longrightarrow> upload_inv (fst (ImageUpload_step s e))"
  by (cases e) (auto simp: upload_inv_def upload_defs renderUpload_def Let_def split: option.splits)

lemma run_upload_Cons:
  "run_upload s (e # es) = Some (s', cs) \<longleftrightarrow>
     upload_offered (renderUpload s) e \<and> (\<exists>cs'. run_upload (fst (ImageUpload_step s e)) es = Some (s', cs')
        \<and> cs = snd (ImageUpload_step s e) @ cs')"
  by (auto split: option.splits simp del: upload_offered.simps ImageUpload_step.simps)

lemma run_upload_induct [consumes 1, case_names Nil Cons]:
  assumes run: "run_upload s es = Some (s', cs)"
    and nil: "\<And>s. P s [] s []"
    and cons: "\<And>s e es t cs'. upload_offered (renderUpload s) e \<Longrightarrow>
        run_upload (fst (ImageUpload_step s e)) es = Some (t, cs') \<Longrightarrow>
        P (fst (ImageUpload_step s e)) es t cs' \<Longrightarrow> P s (e # es) t (snd (ImageUpload_step s e) @ cs')"
  shows "P s es s' cs"
  using run
proof (induction es arbitrary: s cs)
  case Nil
  then show ?case by (simp add: nil)
next
  case (Cons e es)
  from Cons.prems obtain cs' where e: "upload_offered (renderUpload s) e"
    and r: "run_upload (fst (ImageUpload_step s e)) es = Some (s', cs')"
    and cs: "cs = snd (ImageUpload_step s e) @ cs'"
    unfolding run_upload_Cons by blast
  from cons [OF e r Cons.IH [OF r]] show ?case
    by (simp only: cs)
qed

lemma run_upload_reach:
  "run_upload s es = Some (s', cs) \<Longrightarrow> ImageUpload_reach s \<Longrightarrow> ImageUpload_reach s'"
  by (induction rule: run_upload_induct) (auto intro: reach_upload)

lemma parent_url_append: "parent_url a (cs @ ds) = parent_url (parent_url a cs) ds"
  by (induction a cs rule: parent_url.induct) simp_all

lemma step_parent_url:
  "upload_offered (renderUpload s) e \<Longrightarrow>
     parent_url (case image' s of None \<Rightarrow> [] | Some u \<Rightarrow> up_url u) (snd (ImageUpload_step s e)) =
       (case image' (fst (ImageUpload_step s e)) of None \<Rightarrow> [] | Some u \<Rightarrow> up_url u)"
  by (cases e) (auto simp: upload_defs renderUpload_def Let_def split: option.splits)

lemma validateFile_photo: "validateFile photo = None"
  by (simp add: validateFile_def photo_def MAX_FILE_SIZE_def matchesImageType_iff)

lemma run_photo:
  "run_upload ImageUpload_init [ChooseFile (Some photo) ''blob:1''] =
     Some (with_photo, [OnImageChange ''blob:1''])"
  by (simp add: renderUpload_def ImageUpload_init_def upload_defs validateFile_photo with_photo_def)

lemma reach_with_photo: "ImageUpload_reach with_photo"
  by (rule run_upload_reach [OF run_photo reach_upload_init])


section \<open>Properties\<close>

text \<open>
  Claim C23 (which files are accepted). A file of more than five mebibytes is
  rejected as too large, whatever its type; a smaller file is accepted exactly
  when its type is one of \<^verbatim>\<open>image/jpeg\<close>, \<^verbatim>\<open>image/jpg\<close>, \<^verbatim>\<open>image/png\<close> and
  \<^verbatim>\<open>image/webp\<close>, and rejected for its format otherwise.
\<close>

theorem validateFile_accepts:
  "validateFile f =
     (if 5242880 < file_size f then Some TooLarge
      else if file_type f \<in> {''image/jpeg'', ''image/jpg'', ''image/png'', ''image/webp''} then None
      else Some BadFormat)"
  by (simp add: validateFile_def MAX_FILE_SIZE_def matchesImageType_iff)

text \<open>
  Claim C28 (the parent holds the shown address). In every reachable state a
  shown image passed the validation and stands without a message; and along
  every run that starts with the parent holding the address of the shown
  image (the empty address when there is none), the parent ends up holding
  the address of the image shown at the end.
\<close>

theorem parent_holds_shown_url:
  assumes "run_upload s es = Some (s', cs)" and "ImageUpload_reach s"
  shows "upload_inv s'
     \<and> parent_url (case image' s of None \<Rightarrow> [] | Some u \<Rightarrow> up_url u) cs =
         (case image' s' of None \<Rightarrow> [] | Some u \<Rightarrow> up_url u)"
proof
  from assms(2) have "upload_inv s"
    by (induction rule: ImageUpload_reach.induct) (simp_all add: upload_inv_init upload_inv_step)
  with assms(1) show "upload_inv s'"
    by (induction rule: run_upload_induct) (simp_all add: upload_inv_step)
  from assms(1) show "parent_url (case image' s of None \<Rightarrow> [] | Some u \<Rightarrow> up_url u) cs =
      (case image' s' of None \<Rightarrow> [] | Some u \<Rightarrow> up_url u)"
    by (induction rule: run_upload_induct) (simp_all add: parent_url_append step_parent_url)
qed

theorem parent_holds_shown_url_witness:
  "run_upload ImageUpload_init [ChooseFile (Some photo) ''blob:1''] = Some (with_photo, [OnImageChange ''blob:1''])
     \<and> ImageUpload_reach ImageUpload_init
     \<and> upload_inv with_photo
     \<and> parent_url [] [OnImageChange ''blob:1''] = ''blob:1''"
  using parent_holds_shown_url [OF run_photo reach_upload_init] run_photo reach_upload_init
  by simp

text \<open>
  Claim C39 (removing revokes the address twice). Removing a shown image calls
  \<^verbatim>\<open>URL.revokeObjectURL\<close> on its address in the handler and again in the
  cleanup of the effect, with the parent told the empty address in between.
\<close>

theorem remove_revokes_twice:
  assumes "image' s = Some u"
  shows "ImageUpload_step s ClickRemove =
     (s\<lparr>image' := None\<rparr>, [RevokeObjectURL (up_url u), OnImageChange [], RevokeObjectURL (up_url u)])"
  using assms by (simp add: upload_defs)

theorem remove_revokes_twice_witness:
  "image' with_photo = Some \<lparr>up_file = photo, up_url = ''blob:1''\<rparr>
     \<and> ImageUpload_step with_photo ClickRemove =
         (ImageUpload_init, [RevokeObjectURL ''blob:1'', OnImageChange [], RevokeObjectURL ''blob:1''])"
  using remove_revokes_twice [of with_photo "\<lparr>up_file = photo, up_url = ''blob:1''\<rparr>"]
  by (simp add: with_photo_def ImageUpload_init_def)

end
