(* ===== verification/Navigation.thy ===== *)
theory Navigation
  imports JS_Prelude
begin

text \<open>
  The header and the routes: \<^verbatim>\<open>src/src/pages/header.tsx\<close> and
  \<^verbatim>\<open>src/src/routes/routes.tsx\<close>, with the entry point \<^verbatim>\<open>src/src/main.tsx\<close> and
  its placeholder \<^verbatim>\<open>src/src/heading.tsx\<close>.

  \<^bold>\<open>Paths.\<close> \<open>split_on\<close> is \<^verbatim>\<open>String.prototype.split\<close> with a separator of one
  character: it cuts the string at each occurrence of the separator, from the
  left. \<open>currentView\<close> is the expression of the header,
  \<^verbatim>\<open>location.pathname.split("/").filter(Boolean).pop()\<close>: the last segment that
  is not empty, or \<open>None\<close> for \<^verbatim>\<open>undefined\<close>.

  \<^bold>\<open>Routes.\<close> \<open>routes\<close> is the table of \<^verbatim>\<open>MyRouter\<close>: a path or the splat with
  the element to show, which is a page or a redirection. How the router
  library matches a path is not code of the sources; \<open>path_matches\<close> and
  \<open>matchRoutes\<close> state it after the documentation of the library: a path of
  the table matches a location that equals it up to the case of letters and up
  to slashes at the end, the splat matches every location, and the first
  matching entry of the table is taken (only the splat overlaps with another
  entry, and the library ranks it last). \<open>settle\<close> follows redirections until
  a page is shown; its first argument bounds the number of locations visited,
  and the lemmas show that two are always enough.

  \<^bold>\<open>Header.\<close> \<open>renderHeader\<close> is the header for a location: which of the two
  buttons is highlighted. \<open>navigate_to\<close> is the location a button navigates
  to, \<open>nav_step\<close> a click followed by the settling of the router.

  \<^bold>\<open>Entry point.\<close> \<open>renderRoot\<close> is what \<^verbatim>\<open>main.tsx\<close> renders: the
  placeholder button of \<^verbatim>\<open>heading.tsx\<close>, and neither the header nor a route.
\<close>

section \<open>Paths\<close>

function split_on :: "char \<Rightarrow> string \<Rightarrow> string list" where
  "split_on c s =
     (if c \<in> set s
      then takeWhile (\<lambda>x. x \<noteq> c) s # split_on c (tl (dropWhile (\<lambda>x. x \<noteq> c) s))
      else [s])"
  by pat_completeness auto

termination split_on
proof (relation "measure (\<lambda>(c, s). length s)")
  show "wf (measure (\<lambda>(c, s). length s))"
    by simp
next
  fix c :: char and s :: string
  assume "c \<in> set s"
  then have "dropWhile (\<lambda>x. x \<noteq> c) s \<noteq> []"
    by (simp add: dropWhile_eq_Nil_conv)
  then have "length (tl (dropWhile (\<lambda>x. x \<noteq> c) s)) < length (dropWhile (\<lambda>x. x \<noteq> c) s)"
    by (cases "dropWhile (\<lambda>x. x \<noteq> c) s") simp_all
  also have "\<dots> \<le> length s"
    by (rule length_dropWhile_le)
  finally show "((c, tl (dropWhile (\<lambda>x. x \<noteq> c) s)), (c, s)) \<in> measure (\<lambda>(c, s). length s)"
    by simp
qed

declare split_on.simps [simp del]


text \<open>\<^verbatim>\<open>xs.pop()\<close> read as a value: the last element, \<^verbatim>\<open>undefined\<close> on the empty array.\<close>

definition pop :: "'a list \<Rightarrow> 'a option" where
  "pop xs = (if xs = [] then None else Some (last xs))"

definition currentView :: "string \<Rightarrow> string option" where
  "currentView pathname = pop (filter truthy (split_on CHR ''/'' pathname))"


section \<open>Routes\<close>

datatype page = ItemListPage | AddItemFormPage

datatype element = Element page | Navigate string

datatype route_path = Static string | Splat

definition routes :: "(route_path \<times> element) list" where
  "routes =
     [(Static ''/'', Navigate ''/list''),
      (Static ''/list'', Element ItemListPage),
      (Static ''/add'', Element AddItemFormPage),
      (Splat, Navigate ''/list'')]"

definition stripSlashes :: "string \<Rightarrow> string" where
  "stripSlashes s = rev (dropWhile (\<lambda>x. x = CHR ''/'') (rev s))"

fun path_matches :: "route_path \<Rightarrow> string \<Rightarrow> bool" where
  "path_matches Splat pathname = True"
| "path_matches (Static p) pathname =
     (pathname \<noteq> [] \<and> toLowerCase (stripSlashes pathname) = toLowerCase (stripSlashes p))"

definition matchRoutes :: "string \<Rightarrow> element option" where
  "matchRoutes pathname = map_option snd (find (\<lambda>(p, e). path_matches p pathname) routes)"

fun settle :: "nat \<Rightarrow> string \<Rightarrow> (string \<times> page) option" where
  "settle 0 pathname = None"
| "settle (Suc n) pathname =
     (case matchRoutes pathname of
        None \<Rightarrow> None
      | Some (Element p) \<Rightarrow> Some (pathname, p)
      | Some (Navigate target) \<Rightarrow> settle n target)"


section \<open>Header\<close>

record header_view =
  browse_active :: bool
  add_active :: bool

definition renderHeader :: "string \<Rightarrow> header_view" where
  "renderHeader pathname =
     \<lparr>browse_active = (currentView pathname = Some ''list''),
      add_active = (currentView pathname = Some ''add'')\<rparr>"

datatype nav_event = ClickBrowse | ClickAdd

fun navigate_to :: "nav_event \<Rightarrow> string" where
  "navigate_to ClickBrowse = ''/list''"
| "navigate_to ClickAdd = ''/add''"

definition nav_step :: "nav_event \<Rightarrow> (string \<times> page) option" where
  "nav_step e = settle 2 (navigate_to e)"

text \<open>The button of a page.\<close>

fun header_of :: "page \<Rightarrow> header_view" where
  "header_of ItemListPage = \<lparr>browse_active = True, add_active = False\<rparr>"
| "header_of AddItemFormPage = \<lparr>browse_active = False, add_active = True\<rparr>"


section \<open>Entry point\<close>

datatype root_view = HeadingButton string

definition Heading :: root_view where
  "Heading = HeadingButton ''Hello world''"

definition renderRoot :: root_view where
  "renderRoot = Heading"

definition no_button :: header_view where
  "no_button = \<lparr>browse_active = False, add_active = False\<rparr>"


section \<open>Lemmas\<close>

lemma split_on_Nil [simp]: "split_on c [] = [[]]"
  by (simp add: split_on.simps)

lemma split_on_Cons:
  "split_on c (x # xs) =
     (if x = c then [] # split_on c xs
      else (x # hd (split_on c xs)) # tl (split_on c xs))"
proof (cases "x = c")
  case True
  then show ?thesis
    by (simp add: split_on.simps [of c "c # xs"])
next
  case False
  then show ?thesis
    by (cases "c \<in> set xs")
      (simp_all add: split_on.simps [of c "x # xs"] split_on.simps [of c xs])
qed

lemma split_on_neq_Nil [simp]: "split_on c s \<noteq> []"
  by (cases s) (simp_all add: split_on_Cons)




lemma split_on_snoc_sep: "split_on c (s @ [c]) = split_on c s @ [[]]"
proof (induction s)
  case Nil
  show ?case by (simp add: split_on_Cons)
next
  case (Cons x xs)
  then show ?case
    by (cases "split_on c xs") (simp_all add: split_on_Cons)
qed

lemma currentView_snoc_slash [simp]: "currentView (s @ [CHR ''/'']) = currentView s"
  by (simp add: currentView_def split_on_snoc_sep truthy_def)

lemma currentView_append_slashes [simp]: "currentView (s @ replicate k CHR ''/'') = currentView s"
proof (induction k)
  case 0
  show ?case by simp
next
  case (Suc k)
  have "s @ replicate (Suc k) CHR ''/'' = (s @ replicate k CHR ''/'') @ [CHR ''/'']"
    by (simp add: replicate_append_same)
  with Suc show ?case
    by (simp only: currentView_snoc_slash)
qed

lemma stripSlashes_decomp: "s = stripSlashes s @ replicate (length s - length (stripSlashes s)) CHR ''/''"
proof -
  let ?P = "\<lambda>x. x = CHR ''/''"
  have "rev s = takeWhile ?P (rev s) @ dropWhile ?P (rev s)"
    by simp
  moreover have "takeWhile ?P (rev s) = replicate (length (takeWhile ?P (rev s))) CHR ''/''"
    by (rule replicate_length_same [symmetric]) (auto dest: set_takeWhileD)
  ultimately have "rev s = replicate (length (takeWhile ?P (rev s))) CHR ''/'' @ dropWhile ?P (rev s)"
    by simp
  then have "s = stripSlashes s @ replicate (length (takeWhile ?P (rev s))) CHR ''/''"
    by (metis stripSlashes_def rev_append rev_replicate rev_rev_ident)
  moreover have "length (takeWhile ?P (rev s)) = length s - length (stripSlashes s)"
  proof -
    have "length (takeWhile ?P (rev s)) + length (dropWhile ?P (rev s)) = length (rev s)"
      by (simp flip: length_append)
    then show ?thesis
      by (simp add: stripSlashes_def)
  qed
  ultimately show ?thesis by simp
qed

lemma currentView_stripSlashes: "currentView s = currentView (stripSlashes s)"
  using currentView_append_slashes [of "stripSlashes s" "length s - length (stripSlashes s)"]
    stripSlashes_decomp [of s]
  by simp

lemma currentView_simps [simp]:
  "currentView ''/list'' = Some ''list''"
  "currentView ''/add'' = Some ''add''"
  by (simp_all add: currentView_def split_on_Cons pop_def truthy_def)

lemma stripSlashes_simps [simp]:
  "stripSlashes ''/'' = []"
  "stripSlashes ''/list'' = ''/list''"
  "stripSlashes ''/add'' = ''/add''"
  by (simp_all add: stripSlashes_def)

lemma matchRoutes_eq:
  "matchRoutes pathname =
     Some (if path_matches (Static ''/'') pathname then Navigate ''/list''
           else if path_matches (Static ''/list'') pathname then Element ItemListPage
           else if path_matches (Static ''/add'') pathname then Element AddItemFormPage
           else Navigate ''/list'')"
  by (simp add: matchRoutes_def routes_def)

lemma matchRoutes_list [simp]: "matchRoutes ''/list'' = Some (Element ItemListPage)"
  by (simp add: matchRoutes_eq string_defs)

lemma settle_eq:
  "settle (Suc (Suc n)) pathname =
     Some (if path_matches (Static ''/list'') pathname then (pathname, ItemListPage)
           else if path_matches (Static ''/add'') pathname then (pathname, AddItemFormPage)
           else (''/list'', ItemListPage))"
  by (auto simp: matchRoutes_eq simp del: path_matches.simps) (simp_all add: string_defs)

lemma toLowerCase_stripSlashes:
  assumes "toLowerCase s = s"
  shows "toLowerCase (stripSlashes s) = stripSlashes s"
proof -
  have "toLowerCase (stripSlashes s @ replicate (length s - length (stripSlashes s)) CHR ''/'') =
      stripSlashes s @ replicate (length s - length (stripSlashes s)) CHR ''/''"
    using assms stripSlashes_decomp [of s] by simp
  then show ?thesis
    by (simp add: toLowerCase_append)
qed

lemma lower_matches:
  assumes "toLowerCase s = s" and "path_matches (Static p) s" and "toLowerCase (stripSlashes p) = stripSlashes p"
  shows "stripSlashes s = stripSlashes p"
  using assms toLowerCase_stripSlashes [of s] by simp


section \<open>Properties\<close>


text \<open>
  Claim C24 (every location settles). From every location the router shows a
  page after visiting at most two locations: the location itself when its
  route shows a page, and \<^verbatim>\<open>/list\<close> after one redirection otherwise.
\<close>

theorem settle_terminates:
  "\<exists>loc p. settle 2 pathname = Some (loc, p) \<and> matchRoutes loc = Some (Element p)
     \<and> (loc = pathname \<or> loc = ''/list'')"
  using settle_eq [of 0 pathname]
  by (auto simp: numeral_2_eq_2 matchRoutes_eq simp del: path_matches.simps settle.simps)
    (simp_all add: string_defs)

text \<open>
  Claim C33 (the header marks the page shown). For a location without capital
  letters, the header highlights the button of the page that the router shows
  once it has settled, and only that button.
\<close>

theorem header_marks_shown_page:
  assumes "toLowerCase pathname = pathname" and "settle 2 pathname = Some (loc, p)"
  shows "renderHeader loc = header_of p"
proof -
  have eq: "settle 2 pathname =
      Some (if path_matches (Static ''/list'') pathname then (pathname, ItemListPage)
            else if path_matches (Static ''/add'') pathname then (pathname, AddItemFormPage)
            else (''/list'', ItemListPage))"
    using settle_eq [of 0 pathname] by (simp only: numeral_2_eq_2)
  consider (list) "path_matches (Static ''/list'') pathname"
    | (add) "\<not> path_matches (Static ''/list'') pathname" "path_matches (Static ''/add'') pathname"
    | (other) "\<not> path_matches (Static ''/list'') pathname" "\<not> path_matches (Static ''/add'') pathname"
    by blast
  then show ?thesis
  proof cases
    case list
    with assms(1) have "stripSlashes pathname = ''/list''"
      using lower_matches [of pathname "''/list''"] by (simp add: string_defs)
    then have "currentView pathname = Some ''list''"
      using currentView_stripSlashes [of pathname] by simp
    with list assms(2) eq show ?thesis
      by (simp add: renderHeader_def del: path_matches.simps)
  next
    case add
    with assms(1) have "stripSlashes pathname = ''/add''"
      using lower_matches [of pathname "''/add''"] by (simp add: string_defs)
    then have "currentView pathname = Some ''add''"
      using currentView_stripSlashes [of pathname] by simp
    with add assms(2) eq show ?thesis
      by (simp add: renderHeader_def del: path_matches.simps)
  next
    case other
    with assms(2) eq have "loc = ''/list''" and "p = ItemListPage"
      by (simp_all del: path_matches.simps)
    then show ?thesis
      by (simp add: renderHeader_def)
  qed
qed

theorem header_marks_shown_page_witness:
  "toLowerCase ''/add//'' = ''/add//'' \<and> settle 2 ''/add//'' = Some (''/add//'', AddItemFormPage)
     \<and> renderHeader ''/add//'' = \<lparr>browse_active = False, add_active = True\<rparr>"
proof -
  have l: "toLowerCase ''/add//'' = ''/add//''"
    by (simp add: string_defs)
  have s: "settle 2 ''/add//'' = Some (''/add//'', AddItemFormPage)"
    using settle_eq [of 0 "''/add//''"] by (simp add: numeral_2_eq_2 string_defs stripSlashes_def)
  from header_marks_shown_page [OF l s] l s show ?thesis
    by simp
qed

text \<open>
  A location in capital letters is shown unmarked. The router matches without
  regard to case and the header compares exactly: at the location
  \<^verbatim>\<open>/LIST
\<close> the browse view is shown, without a redirection, and
  neither button of the header is highlighted.
\<close>

theorem capital_location_unmarked:
  "settle 2 ''/LIST'' = Some (''/LIST'', ItemListPage) \<and> renderHeader ''/LIST'' = no_button"
proof
  show "settle 2 ''/LIST'' = Some (''/LIST'', ItemListPage)"
    using settle_eq [of 0 "''/LIST''"] by (simp add: numeral_2_eq_2 string_defs stripSlashes_def)
  show "renderHeader ''/LIST'' = no_button"
    by (simp add: renderHeader_def no_button_def currentView_def split_on_Cons pop_def truthy_def)
qed

end
