(* ===== verification/Board.thy ===== *)
theory Board
  imports ItemList AddItemForm Navigation
begin

text \<open>
  The board as a whole: the router of \<^verbatim>\<open>src/src/routes/routes.tsx\<close> with the
  browse view and the create form, over the query cache and the remote
  collection.

  \<^bold>\<open>What is from the sources and what is not.\<close> The two views, their
  commands and the routes are the definitions of \<open>ItemList\<close>,
  \<open>AddItemForm\<close>, \<open>Api\<close> and \<open>Navigation\<close>. The remote collection and
  the query cache are not code of the sources: they are stated after the
  specification of the program (its sections on the data model, the API
  client, the collection cache and the external interfaces).

  \<^bold>\<open>The remote collection.\<close> It is a list of items. \<open>serve\<close> performs a
  call: the list call answers with the collection; a create appends the data
  as an item with the identifier and creation time the collection assigns; an
  update replaces the data of the item with the identifier of the path by the
  body, which must hold all six fields, and keeps identifier and creation
  time; a delete removes the item. An update or delete of an identifier that
  is not there, and an update with a body that lacks a field, are refused.
  \<open>respond\<close> reads a request with \<open>decode\<close> and serves it; a request
  that is no call of the interface is refused.

  \<^bold>\<open>The query cache.\<close> \<open>query_cache\<close> holds the snapshot, the number of
  list calls in flight (the loading flag of the specification is that this
  number is positive) and whether the last list call failed. \<open>fetch\<close>
  starts a list call; \<open>fetched\<close> takes its answer: a success replaces the
  snapshot and clears the error, a failure keeps the snapshot and sets the
  error. \<open>query_env\<close> is what the hooks of \<^verbatim>\<open>list.tsx\<close> hand to a render of
  the browse view: the snapshot, \<^verbatim>\<open>isLoading\<close> while the first list call is
  in flight, and \<^verbatim>\<open>isPending\<close> of the update mutation.

  \<^bold>\<open>The board.\<close> The record \<open>board\<close> holds the remote collection, the
  cache, the location, the mounted view with its state (\<open>Browsing\<close> with
  the state of \<^verbatim>\<open>ItemList\<close> and the pending flag of its mutation, or
  \<open>Adding\<close> with the state of \<^verbatim>\<open>AddItemForm\<close>), the requests that have
  been sent and not served, the answers that have been given and not
  delivered, each with its \<open>origin\<close>, and the log \<open>sent\<close> of all requests
  sent so far. \<open>perform\<close> carries out a command of a view: a request goes
  on the wire, an invalidation starts a list call. \<open>receive\<close> hands an
  answer to its origin: the cache takes the answer of a list call, a mounted
  view runs the callback of its mutation (\<open>onMarkSuccess\<close> is the one of
  the browse view). A view that is unmounted leaves its calls on the wire as
  orphans; the answer to an orphan changes no view, and a successful one
  still invalidates the cache, since the callback belongs to the mutation.

  \<^bold>\<open>Events.\<close> \<open>board_event\<close>: an event of the mounted view, a click on
  the marking button of a card, a click in the header, the service of a
  request by the remote collection (with the identifier and time it would
  assign), the delivery of an answer, and the loss of a request or of an
  answer, which the client sees as a failure. Requests are served and answers
  delivered in any order. \<open>board_enabled\<close> says when an event can happen,
  \<open>board_step\<close> performs it, \<open>run_board\<close> performs a sequence, and
  \<open>board_reach\<close> are the states reachable from \<open>board_init\<close>, the
  first render at a location over a remote collection with distinct
  identifiers.

  \<^bold>\<open>Lemmas.\<close> The invariant \<open>board_inv\<close>; that the state of the
  mounted view is reachable in the machine of the view; that a quiet board shows the
  remote collection when answers arrive in order (\<open>fresh\<close> is the invariant
  behind it: when no list call is waiting to be served and no successful
  write is waiting to be delivered, the last list answer on the wire, or the
  snapshot when there is none, is the remote collection); a run in which an
  answer overtakes another and leaves the view stale; the number of list
  calls sent; and the two round trips of a write, from the click to the
  snapshot.
\<close>

section \<open>The remote collection\<close>

text \<open>
  The answers of the interface: the array of items, one item, the empty
  answer, and a failure (a response that is not a success, or none at all).
\<close>

datatype answer = ItemsAnswer "Item list" | ItemAnswer Item | EmptyAnswer | ErrorAnswer

text \<open>The identifier and the creation time that the remote collection assigns to a new item.\<close>

type_synonym assigned = "string \<times> string option"

definition assign :: "assigned \<Rightarrow> CreateItemData \<Rightarrow> Item" where
  "assign new d =
     \<lparr>imageUrl = imageUrl d, name = name d, location = location d, date = date d, type = type d,
      status = status d, id' = fst new, createdAt = snd new\<rparr>"

text \<open>
  An update replaces the whole resource: the body must hold the six fields of
  the data; the identifier and the creation time stay those of the stored item.
\<close>

definition has_data :: "PartialItem \<Rightarrow> bool" where
  "has_data p \<longleftrightarrow>
     p_imageUrl p \<noteq> None \<and> p_name p \<noteq> None \<and> p_location p \<noteq> None \<and> p_date p \<noteq> None
     \<and> p_type p \<noteq> None \<and> p_status p \<noteq> None"

definition replace_by :: "PartialItem \<Rightarrow> Item \<Rightarrow> Item" where
  "replace_by p old =
     \<lparr>imageUrl = the (p_imageUrl p), name = the (p_name p), location = the (p_location p),
      date = the (p_date p), type = the (p_type p), status = the (p_status p),
      id' = id' old, createdAt = createdAt old\<rparr>"

fun serve :: "api_call \<Rightarrow> assigned \<Rightarrow> Item list \<Rightarrow> answer \<times> Item list" where
  "serve ListCall new xs = (ItemsAnswer xs, xs)"
| "serve (CreateCall d) new xs = (ItemAnswer (assign new d), xs @ [assign new d])"
| "serve (UpdateCall i p) new xs =
     (case find (\<lambda>x. id' x = i) xs of
        None \<Rightarrow> (ErrorAnswer, xs)
      | Some old \<Rightarrow>
          if has_data p
          then (ItemAnswer (replace_by p old), map (\<lambda>x. if id' x = i then replace_by p old else x) xs)
          else (ErrorAnswer, xs))"
| "serve (DeleteCall i) new xs =
     (if i \<in> set (map id' xs) then (EmptyAnswer, filter (\<lambda>x. id' x \<noteq> i) xs) else (ErrorAnswer, xs))"

definition respond :: "request \<Rightarrow> assigned \<Rightarrow> Item list \<Rightarrow> answer \<times> Item list" where
  "respond r new xs = (case decode r of None \<Rightarrow> (ErrorAnswer, xs) | Some c \<Rightarrow> serve c new xs)"

text \<open>An identifier can be assigned when it is not empty and not in use.\<close>

definition can_assign :: "string \<Rightarrow> Item list \<Rightarrow> bool" where
  "can_assign i xs \<longleftrightarrow> truthy i \<and> i \<notin> set (map id' xs)"

definition creates :: "request \<Rightarrow> bool" where
  "creates r = (case decode r of Some (CreateCall d) \<Rightarrow> True | _ \<Rightarrow> False)"

definition ids_ok :: "Item list \<Rightarrow> bool" where
  "ids_ok xs \<longleftrightarrow> list_all (\<lambda>x. truthy (id' x)) xs"

definition remote_ok :: "Item list \<Rightarrow> bool" where
  "remote_ok xs \<longleftrightarrow> distinct (map id' xs) \<and> ids_ok xs"


section \<open>The query cache\<close>

record query_cache =
  snapshot :: "Item list option"
  fetching :: nat
  lastError :: bool

definition cache_init :: query_cache where
  "cache_init = \<lparr>snapshot = None, fetching = 0, lastError = False\<rparr>"

definition fetch :: "query_cache \<Rightarrow> query_cache" where
  "fetch c = c\<lparr>fetching := Suc (fetching c)\<rparr>"

definition fetched :: "answer \<Rightarrow> query_cache \<Rightarrow> query_cache" where
  "fetched a c =
     (case a of
        ItemsAnswer xs \<Rightarrow> c\<lparr>snapshot := Some xs, fetching := fetching c - 1, lastError := False\<rparr>
      | _ \<Rightarrow> c\<lparr>fetching := fetching c - 1, lastError := True\<rparr>)"

definition query_env :: "query_cache \<Rightarrow> bool \<Rightarrow> ItemList_env" where
  "query_env c pending =
     \<lparr>data = snapshot c, isLoading = (snapshot c = None \<and> 0 < fetching c), isPending = pending\<rparr>"


section \<open>The board\<close>

text \<open>Who waits for the answer to a request.\<close>

datatype origin = FromCache | FromBrowse | FromForm | Orphan

datatype mounted = Browsing ItemList_state bool | Adding AddItemForm_state

record board =
  remote :: "Item list"
  cache :: query_cache
  pathname :: string
  shown :: mounted
  requests :: "(origin \<times> request) list"
  answers :: "(origin \<times> answer) list"
  sent :: "(origin \<times> request) list"

fun page_of :: "mounted \<Rightarrow> page" where
  "page_of (Browsing s p) = ItemListPage"
| "page_of (Adding s) = AddItemFormPage"

fun first_view :: "page \<Rightarrow> mounted" where
  "first_view ItemListPage = Browsing (mount ItemList_init) False"
| "first_view AddItemFormPage = Adding AddItemForm_init"

definition enqueue :: "origin \<Rightarrow> request \<Rightarrow> board \<Rightarrow> board" where
  "enqueue who r b = b\<lparr>requests := requests b @ [(who, r)], sent := sent b @ [(who, r)]\<rparr>"

definition start_fetch :: "board \<Rightarrow> board" where
  "start_fetch b = enqueue FromCache getItems (b\<lparr>cache := fetch (cache b)\<rparr>)"

fun perform :: "origin \<Rightarrow> command \<Rightarrow> board \<Rightarrow> board" where
  "perform who (Send r) b = enqueue who r b"
| "perform who InvalidateItems b = start_fetch b"
| "perform who OnClose b = b"
| "perform who (OnDelete i) b = b"

definition perform_all :: "origin \<Rightarrow> command list \<Rightarrow> board \<Rightarrow> board" where
  "perform_all who cs b = fold (perform who) cs b"

text \<open>
  Unmounting a view: its calls stay on the wire without a view that waits for
  them. Showing a page mounts its view; the browse view starts a list call.
\<close>

definition orphan :: "origin \<Rightarrow> origin" where
  "orphan who = (if who = FromCache then FromCache else Orphan)"

definition unmount_view :: "board \<Rightarrow> board" where
  "unmount_view b =
     b\<lparr>requests := map (apfst orphan) (requests b), answers := map (apfst orphan) (answers b)\<rparr>"

definition show_page :: "page \<Rightarrow> board \<Rightarrow> board" where
  "show_page p b =
     (case p of
        ItemListPage \<Rightarrow> start_fetch (b\<lparr>shown := first_view p\<rparr>)
      | AddItemFormPage \<Rightarrow> b\<lparr>shown := first_view p\<rparr>)"

definition board_init :: "string \<Rightarrow> Item list \<Rightarrow> board" where
  "board_init loc xs =
     (case settle 2 loc of
        None \<Rightarrow>
          \<lparr>remote = xs, cache = cache_init, pathname = loc, shown = first_view AddItemFormPage,
           requests = [], answers = [], sent = []\<rparr>
      | Some (loc', p) \<Rightarrow>
          show_page p
            \<lparr>remote = xs, cache = cache_init, pathname = loc', shown = first_view p,
             requests = [], answers = [], sent = []\<rparr>)"

text \<open>The callback \<^verbatim>\<open>onSuccess\<close> of the update mutation of the browse view.\<close>

definition onMarkSuccess :: "command list" where
  "onMarkSuccess = [InvalidateItems]"

definition receive :: "origin \<Rightarrow> answer \<Rightarrow> board \<Rightarrow> board" where
  "receive who a b =
     (case (who, shown b) of
        (FromCache, v) \<Rightarrow> b\<lparr>cache := fetched a (cache b)\<rparr>
      | (FromBrowse, Browsing s p) \<Rightarrow>
          perform_all FromBrowse (if a = ErrorAnswer then [] else onMarkSuccess)
            (b\<lparr>shown := Browsing s False\<rparr>)
      | (FromForm, Adding s) \<Rightarrow>
          (let (s', cs) = AddItemForm_step s (if a = ErrorAnswer then Fail else Succeed)
           in perform_all FromForm cs (b\<lparr>shown := Adding s'\<rparr>))
      | _ \<Rightarrow> perform_all Orphan (if a = ErrorAnswer then [] else [InvalidateItems]) b)"

datatype board_event =
    Browse ItemList_event
  | Mark Item
  | Fill AddItemForm_event
  | Go nav_event
  | Serve nat assigned
  | Deliver nat
  | LoseRequest nat
  | LoseAnswer nat

fun board_enabled :: "board \<Rightarrow> board_event \<Rightarrow> bool" where
  "board_enabled b (Browse e) =
     (case shown b of Browsing s p \<Rightarrow> offered (render (query_env (cache b) p) s) e | Adding s \<Rightarrow> False)"
| "board_enabled b (Mark it) =
     (case shown b of Browsing s p \<Rightarrow> mark_offered (render (query_env (cache b) p) s) it | Adding s \<Rightarrow> False)"
| "board_enabled b (Fill e) =
     (case shown b of Browsing s p \<Rightarrow> False | Adding s \<Rightarrow> enabled s e \<and> \<not> is_answer e)"
| "board_enabled b (Go e) = True"
| "board_enabled b (Serve k new) =
     (k < length (requests b)
      \<and> (if creates (snd (requests b ! k)) then can_assign (fst new) (remote b) else True))"
| "board_enabled b (Deliver k) = (k < length (answers b))"
| "board_enabled b (LoseRequest k) = (k < length (requests b))"
| "board_enabled b (LoseAnswer k) = (k < length (answers b))"

fun board_step :: "board \<Rightarrow> board_event \<Rightarrow> board" where
  "board_step b (Browse e) =
     (case shown b of Browsing s p \<Rightarrow> b\<lparr>shown := Browsing (ItemList_step s e) p\<rparr> | Adding s \<Rightarrow> b)"
| "board_step b (Mark it) =
     (case shown b of
        Browsing s p \<Rightarrow> perform_all FromBrowse (handleMarkAsDone it) (b\<lparr>shown := Browsing s True\<rparr>)
      | Adding s \<Rightarrow> b)"
| "board_step b (Fill e) =
     (case shown b of
        Browsing s p \<Rightarrow> b
      | Adding s \<Rightarrow>
          (let (s', cs) = AddItemForm_step s e in perform_all FromForm cs (b\<lparr>shown := Adding s'\<rparr>)))"
| "board_step b (Go e) =
     (case nav_step e of
        None \<Rightarrow> b
      | Some (loc, p) \<Rightarrow>
          if p = page_of (shown b) then b\<lparr>pathname := loc\<rparr>
          else show_page p (unmount_view (b\<lparr>pathname := loc\<rparr>)))"
| "board_step b (Serve k new) =
     (let (who, r) = requests b ! k; (a, xs) = respond r new (remote b)
      in b\<lparr>remote := xs, requests := remove_nth k (requests b), answers := answers b @ [(who, a)]\<rparr>)"
| "board_step b (Deliver k) =
     (let (who, a) = answers b ! k in receive who a (b\<lparr>answers := remove_nth k (answers b)\<rparr>))"
| "board_step b (LoseRequest k) =
     (let (who, r) = requests b ! k
      in b\<lparr>requests := remove_nth k (requests b), answers := answers b @ [(who, ErrorAnswer)]\<rparr>)"
| "board_step b (LoseAnswer k) =
     b\<lparr>answers := (answers b)[k := (fst (answers b ! k), ErrorAnswer)]\<rparr>"

fun run_board :: "board \<Rightarrow> board_event list \<Rightarrow> board option" where
  "run_board b [] = Some b"
| "run_board b (e # es) = (if board_enabled b e then run_board (board_step b e) es else None)"

inductive board_reach :: "board \<Rightarrow> bool" where
  reach_open: "remote_ok xs \<Longrightarrow> board_reach (board_init loc xs)"
| reach_board: "board_reach b \<Longrightarrow> board_enabled b e \<Longrightarrow> board_reach (board_step b e)"


section \<open>Invariant\<close>

text \<open>
  The parts of the invariant: the cache counts the list calls on the wire
  (\<open>counted\<close>), the items the client holds or is about to receive have
  identifiers (\<open>snapshot_ok\<close>, \<open>answers_ok\<close>), and the requests on the
  wire are calls of the interface (\<open>requests_ok\<close>).
\<close>

definition from_cache :: "origin \<times> 'a \<Rightarrow> bool" where
  "from_cache x = (fst x = FromCache)"

definition cache_flights :: "board \<Rightarrow> nat" where
  "cache_flights b = length (filter from_cache (requests b)) + length (filter from_cache (answers b))"

definition counted :: "board \<Rightarrow> bool" where
  "counted b = (fetching (cache b) = cache_flights b)"

definition snapshot_ok :: "board \<Rightarrow> bool" where
  "snapshot_ok b = (case snapshot (cache b) of None \<Rightarrow> True | Some xs \<Rightarrow> ids_ok xs)"

definition answer_ok :: "answer \<Rightarrow> bool" where
  "answer_ok a = (case a of ItemsAnswer xs \<Rightarrow> ids_ok xs | _ \<Rightarrow> True)"

definition answers_ok :: "board \<Rightarrow> bool" where
  "answers_ok b = list_all (\<lambda>x. answer_ok (snd x)) (answers b)"

definition requests_ok :: "board \<Rightarrow> bool" where
  "requests_ok b = list_all (\<lambda>x. wf_request (snd x)) (requests b)"

text \<open>
  \<open>waits\<close> is the number of calls of an origin on the wire. A mounted view
  has at most one call in flight, the browse view exactly when its mutation
  is pending, and the create form only while its state says so; an unmounted
  view has none.
\<close>

definition waits :: "origin \<Rightarrow> board \<Rightarrow> nat" where
  "waits who b =
     length (filter (\<lambda>x. fst x = who) (requests b)) + length (filter (\<lambda>x. fst x = who) (answers b))"

definition waiting_ok :: "board \<Rightarrow> bool" where
  "waiting_ok b =
     (case shown b of
        Browsing s p \<Rightarrow> waits FromForm b = 0 \<and> waits FromBrowse b = (if p then 1 else 0)
      | Adding s \<Rightarrow>
          waits FromBrowse b = 0 \<and> waits FromForm b \<le> 1 \<and> (waits FromForm b = 1 \<longrightarrow> inFlight s \<noteq> None))"

definition board_inv :: "board \<Rightarrow> bool" where
  "board_inv b \<longleftrightarrow> remote_ok (remote b) \<and> counted b \<and> snapshot_ok b \<and> answers_ok b \<and> requests_ok b"


section \<open>Freshness\<close>

text \<open>
  A run is orderly when nothing is lost and every delivery takes the oldest
  answer. \<open>renews\<close> holds for the successful answer to a write, whose
  delivery starts a list call; \<open>incoming\<close> are the collections of the list
  answers on the wire, oldest first.
\<close>

fun orderly :: "board_event \<Rightarrow> bool" where
  "orderly (Deliver k) = (k = 0)"
| "orderly (LoseRequest k) = False"
| "orderly (LoseAnswer k) = False"
| "orderly e = True"

definition renews :: "origin \<times> answer \<Rightarrow> bool" where
  "renews x = (fst x \<noteq> FromCache \<and> snd x \<noteq> ErrorAnswer)"

fun incoming :: "(origin \<times> answer) list \<Rightarrow> Item list list" where
  "incoming [] = []"
| "incoming ((FromCache, ItemsAnswer xs) # as) = xs # incoming as"
| "incoming (x # as) = incoming as"

definition latest :: "board \<Rightarrow> Item list option" where
  "latest b = (if incoming (answers b) = [] then snapshot (cache b) else Some (last (incoming (answers b))))"

definition settled :: "board \<Rightarrow> bool" where
  "settled b \<longleftrightarrow> \<not> list_ex from_cache (requests b) \<and> \<not> list_ex renews (answers b)"

definition fresh :: "board \<Rightarrow> bool" where
  "fresh b \<longleftrightarrow>
     (settled b \<longrightarrow>
        latest b = Some (remote b) \<or> (latest b = None \<and> page_of (shown b) = AddItemFormPage))"

definition fetches_ok :: "board \<Rightarrow> bool" where
  "fetches_ok b = list_all (\<lambda>x. fst x = FromCache \<longrightarrow> snd x = getItems) (requests b)"

definition quiet :: "board \<Rightarrow> bool" where
  "quiet b \<longleftrightarrow> requests b = [] \<and> answers b = []"


section \<open>Counting the fetches\<close>

text \<open>
  \<open>refetch_due\<close> is the number of list calls that an event has to start: one
  for the delivery of the successful answer to a write, one for mounting the
  browse view.
\<close>

definition fetches_sent :: "board \<Rightarrow> nat" where
  "fetches_sent b = length (filter from_cache (sent b))"

fun refetch_due :: "board \<Rightarrow> board_event \<Rightarrow> nat" where
  "refetch_due b (Deliver k) = (if renews (answers b ! k) then 1 else 0)"
| "refetch_due b (Go e) =
     (case nav_step e of
        None \<Rightarrow> 0
      | Some (loc, p) \<Rightarrow> if p = ItemListPage \<and> page_of (shown b) \<noteq> ItemListPage then 1 else 0)"
| "refetch_due b e = 0"

fun due :: "board \<Rightarrow> board_event list \<Rightarrow> nat" where
  "due b [] = 0"
| "due b (e # es) = refetch_due b e + due (board_step b e) es"


section \<open>Example data\<close>

text \<open>
  A board that shows the filled create form over the two items of the
  scenario, a board that shows these items in the browse view, and a run of
  the latter in which the answer to the first re-fetch arrives last.
\<close>

definition filled_board :: board where
  "filled_board =
     \<lparr>remote = scenario_items, cache = cache_init, pathname = ''/add'',
      shown = Adding (AddItemForm_init\<lparr>formData := keys_form\<rparr>),
      requests = [], answers = [], sent = []\<rparr>"

definition keys3 :: Item where
  "keys3 = assign (''3'', None) keys_form"

definition listed_board :: board where
  "listed_board =
     \<lparr>remote = scenario_items,
      cache = \<lparr>snapshot = Some scenario_items, fetching = 0, lastError = False\<rparr>,
      pathname = ''/list'', shown = Browsing (mount ItemList_init) False,
      requests = [], answers = [], sent = [(FromCache, getItems)]\<rparr>"

definition bag :: Item where
  "bag = example_item ''2'' ''Bag'' Found Done"




section \<open>Lemmas\<close>

subsection \<open>The remote collection\<close>

lemma respond_getItems [simp]: "respond getItems new xs = (ItemsAnswer xs, xs)"
  using decode_encode [of ListCall] by (simp add: respond_def)

lemma respond_createItem [simp]:
  "respond (createItem d) new xs = (ItemAnswer (assign new d), xs @ [assign new d])"
  using decode_encode [of "CreateCall d"] by (simp add: respond_def)

lemma respond_updateItem:
  "truthy i \<Longrightarrow> respond (updateItem_req i p) new xs = serve (UpdateCall i p) new xs"
  using decode_encode [of "UpdateCall i p"] by (simp add: respond_def)

lemma creates_simps [simp]:
  "creates (createItem d)" "\<not> creates getItems" "\<not> creates (updateItem_req i p)" "\<not> creates (deleteItem i)"
  using decode_encode [of "CreateCall d"] decode_encode [of ListCall]
    decode_encode [of "UpdateCall i p"] decode_encode [of "DeleteCall i"]
  by (simp_all add: creates_def)

lemma id_assign [simp]: "id' (assign new d) = fst new"
  by (simp add: assign_def)

lemma id_replace_by [simp]: "id' (replace_by p old) = id' old"
  by (simp add: replace_by_def)

lemma find_id: "find (\<lambda>x. id' x = i) xs = Some old \<Longrightarrow> id' old = i \<and> old \<in> set xs"
  by (auto simp: find_Some_iff)

lemma map_id_replace:
  "id' new = i \<Longrightarrow> map (id' \<circ> (\<lambda>x. if id' x = i then new else x)) xs = map id' xs"
  by (induction xs) auto

lemma serve_remote_ok:
  assumes "remote_ok xs" and "case c of CreateCall d \<Rightarrow> can_assign (fst new) xs | _ \<Rightarrow> True"
  shows "remote_ok (snd (serve c new xs))"
proof (cases c)
  case (UpdateCall i p)
  show ?thesis
  proof (cases "find (\<lambda>x. id' x = i) xs")
    case None
    with UpdateCall assms show ?thesis by simp
  next
    case (Some old)
    then have i: "id' (replace_by p old) = i" and "truthy i"
      using assms(1) by (auto simp: remote_ok_def ids_ok_def list_all_iff dest: find_id)
    with Some UpdateCall assms show ?thesis
      by (auto simp: remote_ok_def ids_ok_def list_all_iff map_id_replace [OF i] simp del: id_replace_by)
  qed
qed (use assms in \<open>auto simp: remote_ok_def ids_ok_def can_assign_def list_all_iff distinct_map_filter\<close>)

lemma respond_remote_ok:
  assumes "remote_ok xs" and "creates r \<Longrightarrow> can_assign (fst new) xs"
  shows "remote_ok (snd (respond r new xs))"
proof (cases "decode r")
  case None
  with assms show ?thesis by (simp add: respond_def)
next
  case (Some c)
  with assms serve_remote_ok [where xs = xs and c = c and new = new] show ?thesis
    by (cases c) (simp_all add: respond_def creates_def)
qed

lemma serve_answer_ok: "ids_ok xs \<Longrightarrow> answer_ok (fst (serve c new xs))"
  by (cases c) (auto simp: answer_ok_def split: option.splits)

lemma respond_answer_ok: "ids_ok xs \<Longrightarrow> answer_ok (fst (respond r new xs))"
  by (cases "decode r") (simp_all add: respond_def serve_answer_ok, simp add: answer_ok_def)


subsection \<open>Commands\<close>

lemma enqueue_fields [simp]:
  "sent (enqueue who r b) = sent b @ [(who, r)]"
  "remote (enqueue who r b) = remote b"
  "cache (enqueue who r b) = cache b"
  "pathname (enqueue who r b) = pathname b"
  "shown (enqueue who r b) = shown b"
  "answers (enqueue who r b) = answers b"
  "requests (enqueue who r b) = requests b @ [(who, r)]"
  by (simp_all add: enqueue_def)

lemma start_fetch_fields [simp]:
  "sent (start_fetch b) = sent b @ [(FromCache, getItems)]"
  "remote (start_fetch b) = remote b"
  "cache (start_fetch b) = fetch (cache b)"
  "pathname (start_fetch b) = pathname b"
  "shown (start_fetch b) = shown b"
  "answers (start_fetch b) = answers b"
  "requests (start_fetch b) = requests b @ [(FromCache, getItems)]"
  by (simp_all add: start_fetch_def)

lemma fetch_fields [simp]:
  "snapshot (fetch c) = snapshot c"
  "fetching (fetch c) = Suc (fetching c)"
  "lastError (fetch c) = lastError c"
  by (simp_all add: fetch_def)

lemma perform_all_Nil [simp]: "perform_all who [] b = b"
  by (simp add: perform_all_def)

lemma perform_all_Cons [simp]: "perform_all who (c # cs) b = perform_all who cs (perform who c b)"
  by (simp add: perform_all_def)

lemma perform_all_preserves:
  assumes "P b"
    and "\<And>r b. P b \<Longrightarrow> Send r \<in> set cs \<Longrightarrow> P (enqueue who r b)"
    and "\<And>b. P b \<Longrightarrow> P (start_fetch b)"
  shows "P (perform_all who cs b)"
  using assms
proof (induction cs arbitrary: b)
  case Nil
  then show ?case by simp
next
  case (Cons c cs)
  have "P (perform who c b)"
    using Cons.prems by (cases c) simp_all
  with Cons show ?case
    by simp
qed

lemma perform_all_fields [simp]:
  "remote (perform_all who cs b) = remote b"
  "pathname (perform_all who cs b) = pathname b"
  "shown (perform_all who cs b) = shown b"
  "answers (perform_all who cs b) = answers b"
  "snapshot (cache (perform_all who cs b)) = snapshot (cache b)"
  by (rule perform_all_preserves; simp)+

lemma unmount_view_fields [simp]:
  "sent (unmount_view b) = sent b"
  "remote (unmount_view b) = remote b"
  "cache (unmount_view b) = cache b"
  "pathname (unmount_view b) = pathname b"
  "shown (unmount_view b) = shown b"
  by (simp_all add: unmount_view_def)

lemma from_cache_simps [simp]:
  "from_cache (FromCache, x)" "\<not> from_cache (FromBrowse, x)" "\<not> from_cache (FromForm, x)"
  "\<not> from_cache (Orphan, x)" "from_cache (apfst orphan y) = from_cache y"
  by (simp_all add: from_cache_def orphan_def)

lemma from_cache_pair: "from_cache (who, x) \<longleftrightarrow> who = FromCache"
  by (simp add: from_cache_def)


subsection \<open>The count of fetches in flight\<close>

lemma counted_enqueue: "who \<noteq> FromCache \<Longrightarrow> counted b \<Longrightarrow> counted (enqueue who r b)"
  by (simp add: counted_def cache_flights_def from_cache_pair)

lemma counted_start_fetch: "counted b \<Longrightarrow> counted (start_fetch b)"
  by (simp add: counted_def cache_flights_def)

lemma counted_perform_all: "who \<noteq> FromCache \<Longrightarrow> counted b \<Longrightarrow> counted (perform_all who cs b)"
  by (rule perform_all_preserves) (simp_all add: counted_enqueue counted_start_fetch)

lemma counted_shown [simp]: "counted (b\<lparr>shown := v\<rparr>) = counted b"
  by (simp add: counted_def cache_flights_def)

lemma counted_pathname [simp]: "counted (b\<lparr>pathname := v\<rparr>) = counted b"
  by (simp add: counted_def cache_flights_def)

lemma counted_remote [simp]: "counted (b\<lparr>remote := v\<rparr>) = counted b"
  by (simp add: counted_def cache_flights_def)

lemma counted_unmount_view [simp]: "counted (unmount_view b) = counted b"
  by (simp add: counted_def cache_flights_def unmount_view_def filter_map comp_def)

lemma counted_show_page: "counted b \<Longrightarrow> counted (show_page p b)"
  by (cases p) (simp_all add: show_page_def counted_start_fetch)

lemma counted_served:
  assumes "counted b" and "k < length (requests b)"
  shows "counted (b\<lparr>requests := remove_nth k (requests b), answers := answers b @ [(fst (requests b ! k), a)]\<rparr>)"
  using assms length_filter_remove_nth [of k "requests b" from_cache]
  by (cases "requests b ! k") (auto simp: counted_def cache_flights_def from_cache_pair split: if_splits)

lemma counted_receive:
  assumes "counted b" and "k < length (answers b)" and "answers b ! k = (who, a)"
  shows "counted (receive who a (b\<lparr>answers := remove_nth k (answers b)\<rparr>))"
proof (cases "who = FromCache")
  case True
  with assms length_filter_remove_nth [of k "answers b" from_cache] show ?thesis
    by (auto simp: receive_def counted_def cache_flights_def fetched_def split: answer.splits)
next
  case False
  with assms length_filter_remove_nth [of k "answers b" from_cache]
  have "counted (b\<lparr>answers := remove_nth k (answers b)\<rparr>)"
    by (simp add: counted_def cache_flights_def from_cache_pair)
  with False show ?thesis
    by (cases who; cases "shown b")
      (auto simp: receive_def counted_perform_all split: prod.splits)
qed

lemma counted_step: "counted b \<Longrightarrow> board_enabled b e \<Longrightarrow> counted (board_step b e)"
proof (cases e)
  case (Serve k new)
  then show "counted b \<Longrightarrow> board_enabled b e \<Longrightarrow> ?thesis"
    using counted_served [of b k "fst (respond (snd (requests b ! k)) new (remote b))"]
    by (cases "requests b ! k") (auto simp: split_beta counted_def cache_flights_def)
next
  case (Deliver k)
  then show "counted b \<Longrightarrow> board_enabled b e \<Longrightarrow> ?thesis"
    using counted_receive [of b k] by (cases "answers b ! k") auto
next
  case (LoseRequest k)
  then show "counted b \<Longrightarrow> board_enabled b e \<Longrightarrow> ?thesis"
    using counted_served [of b k ErrorAnswer] by (cases "requests b ! k") auto
next
  case (LoseAnswer k)
  then show "counted b \<Longrightarrow> board_enabled b e \<Longrightarrow> ?thesis"
    by (simp add: counted_def cache_flights_def length_filter_update from_cache_def)
qed (auto simp: counted_perform_all counted_show_page split: mounted.splits option.splits prod.splits)


subsection \<open>What the views send\<close>

lemma items_of_query_env [simp]:
  "items_of (query_env c p) = (case snapshot c of None \<Rightarrow> [] | Some xs \<Rightarrow> xs)"
  by (simp add: items_of_def query_env_def)

lemma set_paginatedItems_subset: "set (paginatedItems xs s) \<subseteq> set xs"
  by (auto simp: paginatedItems_def Let_def dest!: set_slice_subset [THEN subsetD])

lemma mark_offered_shown:
  assumes "mark_offered (render (query_env c p) s) it"
  shows "\<exists>xs. snapshot c = Some xs \<and> it \<in> set xs \<and> \<not> p"
proof -
  from assms have "it \<in> set (paginatedItems (items_of (query_env c p)) s)"
    and "\<not> isPending (query_env c p)"
    by (simp_all add: mark_button_offered)
  then have "it \<in> set (items_of (query_env c p))" and "\<not> p"
    using set_paginatedItems_subset [of "items_of (query_env c p)" s]
    by (auto simp: query_env_def)
  then show ?thesis
    by (cases "snapshot c") simp_all
qed

lemma wf_handleMarkAsDone:
  "truthy (id' it) \<Longrightarrow> Send r \<in> set (handleMarkAsDone it) \<Longrightarrow> wf_request r"
  by (auto simp: handleMarkAsDone_def)

lemma wf_form_step: "Send r \<in> set (snd (AddItemForm_step s e)) \<Longrightarrow> wf_request r"
  by (auto dest: step_sends_create)


subsection \<open>The parts of the invariant\<close>

lemma remote_step:
  "remote (board_step b e) =
     (case e of Serve k new \<Rightarrow> snd (respond (snd (requests b ! k)) new (remote b)) | _ \<Rightarrow> remote b)"
  by (cases e)
    (auto simp: receive_def show_page_def unmount_view_def split_beta
      split: mounted.splits option.splits prod.splits origin.splits page.splits)

lemma remote_ok_step:
  "remote_ok (remote b) \<Longrightarrow> board_enabled b e \<Longrightarrow> remote_ok (remote (board_step b e))"
  by (cases e) (auto simp: remote_step respond_remote_ok simp del: board_step.simps)

lemma requests_ok_perform_all:
  assumes "requests_ok b" and "\<And>r. Send r \<in> set cs \<Longrightarrow> wf_request r"
  shows "requests_ok (perform_all who cs b)"
  by (rule perform_all_preserves) (use assms in \<open>auto simp: requests_ok_def\<close>)

lemma requests_ok_fields [simp]:
  "requests_ok (b\<lparr>shown := v\<rparr>) = requests_ok b"
  "requests_ok (b\<lparr>pathname := l\<rparr>) = requests_ok b"
  "requests_ok (b\<lparr>answers := as\<rparr>) = requests_ok b"
  "requests_ok (b\<lparr>remote := xs\<rparr>) = requests_ok b"
  "requests_ok (b\<lparr>cache := c\<rparr>) = requests_ok b"
  "requests_ok (unmount_view b) = requests_ok b"
  by (simp_all add: requests_ok_def unmount_view_def list_all_iff)

lemma requests_ok_start_fetch [simp]: "requests_ok (start_fetch b) = requests_ok b"
  by (simp add: requests_ok_def)

lemma requests_ok_show_page [simp]: "requests_ok (show_page p b) = requests_ok b"
  by (cases p) (simp_all add: show_page_def)

lemma requests_ok_removed: "requests_ok b \<Longrightarrow> requests_ok (b\<lparr>requests := remove_nth k (requests b)\<rparr>)"
  by (simp add: requests_ok_def list_all_remove_nth)

lemma requests_ok_receive: "requests_ok b \<Longrightarrow> requests_ok (receive who a b)"
  by (cases who; cases "shown b")
    (auto simp: receive_def onMarkSuccess_def split_beta simp del: AddItemForm_step.simps
      intro!: requests_ok_perform_all dest: wf_form_step)

lemma requests_ok_step:
  assumes "requests_ok b" and "snapshot_ok b" and "board_enabled b e"
  shows "requests_ok (board_step b e)"
proof (cases e)
  case (Mark it)
  show ?thesis
  proof (cases "shown b")
    case (Browsing s p)
    with assms Mark obtain xs where "snapshot (cache b) = Some xs" and "it \<in> set xs"
      by (auto dest: mark_offered_shown)
    with assms(2) have "truthy (id' it)"
      by (simp add: snapshot_ok_def ids_ok_def list_all_iff)
    with assms(1) Mark Browsing show ?thesis
      by (auto intro!: requests_ok_perform_all dest: wf_handleMarkAsDone)
  next
    case (Adding s)
    with assms Mark show ?thesis by simp
  qed
next
  case (Fill e')
  with assms(1) show ?thesis
    by (auto simp: split_beta intro!: requests_ok_perform_all dest: wf_form_step split: mounted.splits)
next
  case (Serve k new)
  with assms(1) requests_ok_removed [of b k] show ?thesis
    by (simp add: split_beta requests_ok_def)
next
  case (Deliver k)
  with assms(1) show ?thesis
    by (simp add: split_beta requests_ok_receive)
next
  case (LoseRequest k)
  with assms(1) requests_ok_removed [of b k] show ?thesis
    by (simp add: split_beta requests_ok_def)
qed (use assms(1) in \<open>auto split: mounted.splits option.splits\<close>)


lemma answers_receive [simp]: "answers (receive who a b) = answers b"
  by (cases who; cases "shown b") (simp_all add: receive_def split_beta)

lemma snapshot_receive:
  "snapshot (cache (receive who a b)) =
     (case (who, a) of (FromCache, ItemsAnswer xs) \<Rightarrow> Some xs | _ \<Rightarrow> snapshot (cache b))"
  by (cases who; cases "shown b"; cases a) (simp_all add: receive_def split_beta fetched_def)

lemma snapshot_show_page [simp]: "snapshot (cache (show_page p b)) = snapshot (cache b)"
  by (cases p) (simp_all add: show_page_def)

lemma answers_show_page [simp]: "answers (show_page p b) = answers b"
  by (cases p) (simp_all add: show_page_def)

lemma answers_ok_step:
  assumes "answers_ok b" and "remote_ok (remote b)" and "board_enabled b e"
  shows "answers_ok (board_step b e)"
proof (cases e)
  case (Serve k new)
  from assms(2) have "answer_ok (fst (respond (snd (requests b ! k)) new (remote b)))"
    by (simp add: remote_ok_def respond_answer_ok)
  with assms(1) Serve show ?thesis
    by (simp add: answers_ok_def split_beta)
next
  case (Deliver k)
  with assms(1) show ?thesis
    by (simp add: answers_ok_def split_beta list_all_remove_nth)
next
  case (LoseRequest k)
  with assms(1) show ?thesis
    by (simp add: answers_ok_def split_beta answer_ok_def)
next
  case (LoseAnswer k)
  with assms(1) show ?thesis
    by (auto simp: answers_ok_def answer_ok_def list_all_iff dest!: set_update_subset_insert [THEN subsetD])
next
  case (Go e')
  with assms(1) show ?thesis
    by (auto simp: answers_ok_def unmount_view_def list_all_iff split: option.splits)
qed (use assms(1) in \<open>auto simp: answers_ok_def split_beta split: mounted.splits\<close>)

lemma snapshot_ok_step:
  assumes "snapshot_ok b" and "answers_ok b" and "board_enabled b e"
  shows "snapshot_ok (board_step b e)"
proof (cases e)
  case (Deliver k)
  with assms(2,3) have "answer_ok (snd (answers b ! k))"
    by (simp add: answers_ok_def list_all_length)
  with assms(1) Deliver show ?thesis
    by (cases "answers b ! k")
      (auto simp: snapshot_ok_def snapshot_receive answer_ok_def split: origin.splits answer.splits)
qed (use assms(1) in \<open>auto simp: snapshot_ok_def unmount_view_def split_beta
      split: mounted.splits option.splits\<close>)

lemma board_inv_init: "remote_ok xs \<Longrightarrow> board_inv (board_init loc xs)"
  by (auto simp: board_inv_def board_init_def show_page_def cache_init_def counted_def
      cache_flights_def snapshot_ok_def answers_ok_def requests_ok_def
      split: option.splits page.splits)

lemma board_inv_step: "board_inv b \<Longrightarrow> board_enabled b e \<Longrightarrow> board_inv (board_step b e)"
  unfolding board_inv_def
  by (intro conjI remote_ok_step counted_step snapshot_ok_step answers_ok_step requests_ok_step) simp_all

lemma run_board_Cons:
  "run_board b (e # es) = Some b' \<longleftrightarrow> board_enabled b e \<and> run_board (board_step b e) es = Some b'"
  by simp

lemma run_board_induct [consumes 1, case_names Nil Cons]:
  assumes "run_board b es = Some b'"
    and "\<And>b. P b [] b"
    and "\<And>b e es. board_enabled b e \<Longrightarrow> run_board (board_step b e) es = Some b' \<Longrightarrow>
           P (board_step b e) es b' \<Longrightarrow> P b (e # es) b'"
  shows "P b es b'"
  using assms(1)
proof (induction es arbitrary: b)
  case Nil
  then show ?case by (simp add: assms(2))
next
  case (Cons e es)
  then show ?case
    by (auto simp: run_board_Cons simp del: run_board.simps intro: assms(3))
qed

lemma run_board_reach: "run_board b es = Some b' \<Longrightarrow> board_reach b \<Longrightarrow> board_reach b'"
  by (induction rule: run_board_induct) (auto intro: reach_board)

lemma board_reach_inv: "board_reach b \<Longrightarrow> board_inv b"
  by (induction rule: board_reach.induct) (simp_all add: board_inv_init board_inv_step)

lemma shown_receive:
  "shown (receive who a b) = Browsing s p \<Longrightarrow> \<exists>q. shown b = Browsing s q"
  by (cases who; cases "shown b") (auto simp: receive_def split_beta split: if_splits)

lemma shown_show_page:
  "shown (show_page pg b) = Browsing s p \<Longrightarrow> s = mount ItemList_init \<and> pg = ItemListPage"
  by (cases pg) (simp_all add: show_page_def)

lemma browsing_step:
  assumes "shown (board_step b e) = Browsing s p" and "board_enabled b e"
  shows "s = mount ItemList_init
     \<or> (\<exists>q. shown b = Browsing s q)
     \<or> (\<exists>s' q env e'. shown b = Browsing s' q \<and> offered (render env s') e' \<and> s = ItemList_step s' e')"
proof (cases e)
  case (Browse e')
  with assms show ?thesis
    by (cases "shown b") auto
next
  case (Go e')
  with assms show ?thesis
    by (auto split: option.splits if_splits dest: shown_show_page)
next
  case (Deliver k)
  with assms show ?thesis
    by (auto simp: split_beta dest!: shown_receive)
qed (use assms in \<open>auto simp: split_beta split: mounted.splits\<close>)

lemma browsing_reach: "board_reach b \<Longrightarrow> shown b = Browsing s p \<Longrightarrow> ItemList_reach s"
proof (induction arbitrary: s p rule: board_reach.induct)
  case (reach_open xs loc)
  then have "s = mount ItemList_init"
    by (auto simp: board_init_def split: option.splits dest: shown_show_page)
  then show ?case
    by (simp add: reach_mount)
next
  case (reach_board b e)
  from browsing_step [OF reach_board.prems reach_board.hyps(2)] reach_board.IH show ?case
    by (auto intro: reach_mount reach_step)
qed


subsection \<open>The calls of the mounted view\<close>

lemma waits_fields [simp]:
  "waits who (b\<lparr>shown := v\<rparr>) = waits who b"
  "waits who (b\<lparr>pathname := l\<rparr>) = waits who b"
  "waits who (b\<lparr>remote := xs\<rparr>) = waits who b"
  "waits who (b\<lparr>cache := c\<rparr>) = waits who b"
  "waits who (enqueue who' r b) = waits who b + (if who' = who then 1 else 0)"
  "waits who (start_fetch b) = waits who b + (if who = FromCache then 1 else 0)"
  by (auto simp: waits_def)

lemma waits_perform_all:
  "who \<noteq> FromCache \<Longrightarrow> waits who (perform_all who' cs b) =
     waits who b + (if who' = who then length (filter (\<lambda>c. \<exists>r. c = Send r) cs) else 0)"
proof (induction cs arbitrary: b)
  case Nil
  then show ?case by simp
next
  case (Cons c cs)
  then show ?case by (cases c) auto
qed

lemma waits_unmount_view:
  "who \<noteq> FromCache \<Longrightarrow> who \<noteq> Orphan \<Longrightarrow> waits who (unmount_view b) = 0"
  by (auto simp: waits_def unmount_view_def filter_empty_conv orphan_def)

lemma waits_show_page [simp]: "who \<noteq> FromCache \<Longrightarrow> waits who (show_page p b) = waits who b"
  by (cases p) (simp_all add: show_page_def)

lemma waits_served:
  assumes "k < length (requests b)"
  shows "waits who (b\<lparr>remote := xs, requests := remove_nth k (requests b),
      answers := answers b @ [(fst (requests b ! k), a)]\<rparr>) = waits who b"
  using assms length_filter_remove_nth [of k "requests b" "\<lambda>x. fst x = who"]
  by (auto simp: waits_def split: if_splits)

lemma waits_delivered:
  assumes "k < length (answers b)"
  shows "waits who (b\<lparr>answers := remove_nth k (answers b)\<rparr>) + (if fst (answers b ! k) = who then 1 else 0) = waits who b"
  using assms length_filter_remove_nth [of k "answers b" "\<lambda>x. fst x = who"]
  by (auto simp: waits_def split: if_splits)

lemma waits_lost:
  "k < length (answers b) \<Longrightarrow>
     waits who (b\<lparr>answers := (answers b)[k := (fst (answers b ! k), a)]\<rparr>) = waits who b"
  by (simp add: waits_def length_filter_update)

lemma form_step_sends:
  "\<not> is_answer e \<Longrightarrow> enabled s e \<Longrightarrow>
     (snd (AddItemForm_step s e) = [] \<and> inFlight (fst (AddItemForm_step s e)) = inFlight s)
     \<or> (inFlight s = None \<and> (\<exists>d. snd (AddItemForm_step s e) = [Send (createItem d)])
         \<and> inFlight (fst (AddItemForm_step s e)) \<noteq> None)"
  by (cases e)
    (auto simp: form_defs Let_def is_answer_def renderForm_def split: prod.splits if_splits)

lemma form_answer_sends:
  "is_answer e \<Longrightarrow> length (filter (\<lambda>c. \<exists>r. c = Send r) (snd (AddItemForm_step s e))) = 0"
  by (auto simp: is_answer_def form_defs)


lemma waits_nth: "k < length (answers b) \<Longrightarrow> fst (answers b ! k) = who \<Longrightarrow> 0 < waits who b"
  using length_filter_remove_nth [of k "answers b" "\<lambda>x. fst x = who"] by (auto simp: waits_def)

lemma waiting_ok_receive:
  assumes "waiting_ok b" and "k < length (answers b)" and "answers b ! k = (who, a)"
  shows "waiting_ok (receive who a (b\<lparr>answers := remove_nth k (answers b)\<rparr>))"
proof -
  let ?b = "b\<lparr>answers := remove_nth k (answers b)\<rparr>"
  have d: "waits who' ?b + (if who = who' then 1 else 0) = waits who' b" for who'
    using waits_delivered [OF assms(2), of who'] assms(3) by simp
  show ?thesis
  proof (cases who)
    case FromCache
    with assms(1) d [of FromForm] d [of FromBrowse] show ?thesis
      by (auto simp: waiting_ok_def receive_def split: mounted.splits)
  next
    case FromBrowse
    with assms(1) d [of FromForm] d [of FromBrowse] show ?thesis
      by (auto simp: waiting_ok_def receive_def waits_perform_all onMarkSuccess_def
          split: mounted.splits if_splits)
  next
    case FromForm
    with assms(1) d [of FromForm] d [of FromBrowse] show ?thesis
      by (auto simp: waiting_ok_def receive_def waits_perform_all split_beta form_answer_sends is_answer_def
          simp del: AddItemForm_step.simps split: mounted.splits)
  next
    case Orphan
    with assms(1) d [of FromForm] d [of FromBrowse] show ?thesis
      by (auto simp: waiting_ok_def receive_def waits_perform_all split: mounted.splits)
  qed
qed

lemma waiting_ok_step:
  assumes "waiting_ok b" and "board_enabled b e"
  shows "waiting_ok (board_step b e)"
proof (cases e)
  case (Browse e')
  with assms show ?thesis
    by (auto simp: waiting_ok_def split: mounted.splits)
next
  case (Mark it)
  with assms show ?thesis
    by (auto simp: waiting_ok_def waits_perform_all handleMarkAsDone_def
        split: mounted.splits dest: mark_offered_shown)
next
  case (Fill e')
  show ?thesis
  proof (cases "shown b")
    case (Browsing s p)
    with assms Fill show ?thesis by simp
  next
    case (Adding s)
    with assms Fill form_step_sends [of e' s] show ?thesis
      by (auto simp: waiting_ok_def waits_perform_all split_beta simp del: AddItemForm_step.simps)
  qed
next
  case (Go e')
  with assms show ?thesis
    by (cases "shown b")
      (auto simp: waiting_ok_def waits_unmount_view show_page_def split: option.splits page.splits)
next
  case (Serve k new)
  with assms waits_served [where k = k and b = b] show ?thesis
    by (auto simp: waiting_ok_def split_beta split: mounted.splits)
next
  case (Deliver k)
  with assms waiting_ok_receive [of b k "fst (answers b ! k)" "snd (answers b ! k)"] show ?thesis
    by (simp add: split_beta)
next
  case (LoseRequest k)
  with assms waits_served [where k = k and b = b and xs = "remote b" and a = ErrorAnswer] show ?thesis
    by (auto simp: waiting_ok_def split_beta split: mounted.splits)
next
  case (LoseAnswer k)
  with assms show ?thesis
    by (auto simp: waiting_ok_def waits_lost split: mounted.splits)
qed

lemma waiting_ok_init: "waiting_ok (board_init loc xs)"
  by (auto simp: waiting_ok_def board_init_def show_page_def waits_def AddItemForm_init_def
      split: option.splits page.splits)

lemma board_reach_waiting: "board_reach b \<Longrightarrow> waiting_ok b"
  by (induction rule: board_reach.induct) (simp_all add: waiting_ok_init waiting_ok_step)

lemma shown_receive_form:
  assumes "shown (receive who a b) = Adding s"
  shows "shown b = Adding s
     \<or> (\<exists>s'. who = FromForm \<and> shown b = Adding s'
          \<and> s = fst (AddItemForm_step s' (if a = ErrorAnswer then Fail else Succeed)))"
  using assms
  by (cases who; cases "shown b")
    (auto simp: receive_def split_beta simp del: AddItemForm_step.simps split: if_splits)

lemma adding_step:
  assumes "shown (board_step b e) = Adding s" and "board_enabled b e" and "waiting_ok b"
  shows "s = AddItemForm_init \<or> shown b = Adding s
     \<or> (\<exists>s' e'. shown b = Adding s' \<and> enabled s' e' \<and> s = fst (AddItemForm_step s' e'))"
proof (cases e)
  case (Fill e')
  with assms show ?thesis
    by (cases "shown b") (auto simp: split_beta simp del: AddItemForm_step.simps)
next
  case (Go e')
  with assms show ?thesis
    by (auto simp: show_page_def split: option.splits if_splits page.splits)
next
  case (Deliver k)
  let ?b = "b\<lparr>answers := remove_nth k (answers b)\<rparr>"
  from assms(1) Deliver have "shown (receive (fst (answers b ! k)) (snd (answers b ! k)) ?b) = Adding s"
    by (simp add: split_beta)
  from shown_receive_form [OF this] show ?thesis
  proof
    assume "shown ?b = Adding s"
    then show ?thesis by simp
  next
    assume "\<exists>s'. fst (answers b ! k) = FromForm \<and> shown ?b = Adding s'
        \<and> s = fst (AddItemForm_step s' (if snd (answers b ! k) = ErrorAnswer then Fail else Succeed))"
    then obtain s' where w: "fst (answers b ! k) = FromForm" and s': "shown b = Adding s'"
      and s: "s = fst (AddItemForm_step s' (if snd (answers b ! k) = ErrorAnswer then Fail else Succeed))"
      by auto
    from assms(2) Deliver w have "0 < waits FromForm b"
      by (auto intro: waits_nth)
    with assms(3) s' have "inFlight s' \<noteq> None"
      by (auto simp: waiting_ok_def)
    then have "enabled s' (if snd (answers b ! k) = ErrorAnswer then Fail else Succeed)"
      by simp
    with s s' show ?thesis
      by blast
  qed
qed (use assms in \<open>auto simp: split_beta split: mounted.splits\<close>)

lemma adding_reach: "board_reach b \<Longrightarrow> shown b = Adding s \<Longrightarrow> AddItemForm_reach s"
proof (induction arbitrary: s rule: board_reach.induct)
  case (reach_open xs loc)
  then have "s = AddItemForm_init"
    by (auto simp: board_init_def show_page_def split: option.splits page.splits)
  then show ?case
    by (simp add: reach_init)
next
  case (reach_board b e)
  from adding_step [OF reach_board.prems reach_board.hyps(2) board_reach_waiting [OF reach_board.hyps(1)]]
    reach_board.IH show ?case
    by (auto intro: reach_init reach_event)
qed


subsection \<open>Freshness\<close>

lemma incoming_append [simp]: "incoming (as @ bs) = incoming as @ incoming bs"
  by (induction as rule: incoming.induct) simp_all

lemma incoming_orphan [simp]: "incoming (map (apfst orphan) as) = incoming as"
  by (induction as rule: incoming.induct) (simp_all add: orphan_def)

lemma incoming_not_cache [simp]: "who \<noteq> FromCache \<Longrightarrow> incoming ((who, a) # as) = incoming as"
  by (cases who) simp_all

lemma incoming_ErrorAnswer [simp]: "incoming ((who, ErrorAnswer) # as) = incoming as"
  by (cases who) simp_all

lemma latest_cong:
  "answers b' = answers b \<Longrightarrow> snapshot (cache b') = snapshot (cache b) \<Longrightarrow> latest b' = latest b"
  by (simp add: latest_def)

lemma latest_perform_all [simp]: "latest (perform_all who cs b) = latest b"
  by (rule latest_cong) simp_all

lemma latest_fields [simp]:
  "latest (b\<lparr>shown := v\<rparr>) = latest b"
  "latest (b\<lparr>pathname := l\<rparr>) = latest b"
  "latest (b\<lparr>remote := xs\<rparr>) = latest b"
  "latest (b\<lparr>requests := rs\<rparr>) = latest b"
  "latest (start_fetch b) = latest b"
  "latest (unmount_view b) = latest b"
  "latest (show_page p b) = latest b"
  by (simp_all add: latest_def unmount_view_def)

lemma settled_fields [simp]:
  "settled (b\<lparr>shown := v\<rparr>) = settled b"
  "settled (b\<lparr>pathname := l\<rparr>) = settled b"
  "settled (b\<lparr>remote := xs\<rparr>) = settled b"
  "settled (b\<lparr>cache := c\<rparr>) = settled b"
  "\<not> settled (start_fetch b)"
  "settled (enqueue who r b) = (settled b \<and> who \<noteq> FromCache)"
  by (auto simp: settled_def from_cache_pair)

lemma renews_orphan [simp]: "renews (apfst orphan x) = renews x"
  by (cases x) (simp add: renews_def orphan_def)

lemma settled_unmount_view [simp]: "settled (unmount_view b) = settled b"
  by (simp add: settled_def unmount_view_def list_ex_iff)

lemma settled_perform_all:
  "who \<noteq> FromCache \<Longrightarrow> settled (perform_all who cs b) = (settled b \<and> InvalidateItems \<notin> set cs)"
proof (induction cs arbitrary: b)
  case Nil
  then show ?case by simp
next
  case (Cons c cs)
  then show ?case by (cases c) auto
qed

lemma fresh_perform_all:
  assumes "fresh b" and "who \<noteq> FromCache"
  shows "fresh (perform_all who cs b)"
  using assms by (simp add: fresh_def settled_perform_all)

lemma fresh_shown: "fresh b \<Longrightarrow> page_of v = page_of (shown b) \<Longrightarrow> fresh (b\<lparr>shown := v\<rparr>)"
  by (simp add: fresh_def)

lemma respond_ErrorAnswer: "fst (respond r new xs) = ErrorAnswer \<Longrightarrow> snd (respond r new xs) = xs"
proof (cases "decode r")
  case None
  then show ?thesis by (simp add: respond_def)
next
  case (Some c)
  then show "fst (respond r new xs) = ErrorAnswer \<Longrightarrow> ?thesis"
    by (cases c) (auto simp: respond_def split: option.splits if_splits)
qed

lemma succeed_invalidates: "InvalidateItems \<in> set (snd (AddItemForm_step s Succeed))"
  by (simp add: onSuccess_def)

lemma fresh_receive:
  assumes "fresh b" and "answers b = (who, a) # rest"
  shows "fresh (receive who a (b\<lparr>answers := rest\<rparr>))"
proof (cases "who = FromCache")
  case True
  with assms show ?thesis
    by (cases a) (auto simp: receive_def fresh_def settled_def latest_def fetched_def renews_def)
next
  case False
  show ?thesis
  proof (cases "a = ErrorAnswer")
    case True
    with assms False have "fresh (b\<lparr>answers := rest\<rparr>)"
      by (auto simp: fresh_def settled_def latest_def renews_def split: if_splits)
    with False True show ?thesis
      by (cases who; cases "shown b")
        (auto simp: receive_def split_beta simp del: AddItemForm_step.simps
          intro!: fresh_perform_all fresh_shown)
  next
    case False
    with \<open>who \<noteq> FromCache\<close> succeed_invalidates show ?thesis
      by (cases who; cases "shown b")
        (auto simp: receive_def split_beta fresh_def settled_perform_all onMarkSuccess_def
          simp del: AddItemForm_step.simps)
  qed
qed

lemma fresh_served:
  assumes "fresh b" and "fetches_ok b" and "k < length (requests b)" and "requests b ! k = (who, r)"
    and "respond r new (remote b) = (a, xs)"
  shows "fresh (b\<lparr>remote := xs, requests := remove_nth k (requests b), answers := answers b @ [(who, a)]\<rparr>)"
proof (cases "who = FromCache")
  case True
  with assms(2-4) have "r = getItems"
    by (auto simp: fetches_ok_def list_all_length)
  with assms(5) True show ?thesis
    by (auto simp: fresh_def latest_def)
next
  case False
  show ?thesis
  proof (cases "a = ErrorAnswer")
    case True
    with assms(5) respond_ErrorAnswer [of r new "remote b"] have "xs = remote b"
      by simp
    moreover have "list_ex from_cache (requests b) = list_ex from_cache (remove_nth k (requests b))"
      using assms(3,4) False list_ex_removed [of k "requests b" from_cache] by (simp add: from_cache_pair)
    ultimately show ?thesis
      using assms(1) False True
      by (auto simp: fresh_def settled_def latest_def renews_def split: if_splits)
  next
    case a: False
    with False show ?thesis
      by (simp add: fresh_def settled_def renews_def)
  qed
qed

lemma fresh_step:
  assumes "fresh b" and "fetches_ok b" and "board_enabled b e" and "orderly e"
  shows "fresh (board_step b e)"
proof (cases e)
  case (Browse e')
  with assms(1) show ?thesis
    by (auto split: mounted.splits intro: fresh_shown)
next
  case (Mark it)
  with assms(1) show ?thesis
    by (auto split: mounted.splits intro!: fresh_perform_all fresh_shown)
next
  case (Fill e')
  with assms(1) show ?thesis
    by (auto simp: split_beta simp del: AddItemForm_step.simps split: mounted.splits
        intro!: fresh_perform_all fresh_shown)
next
  case (Go e')
  with assms(1) show ?thesis
    by (cases "shown b")
      (auto simp: fresh_def show_page_def nav_step_def split: option.splits page.splits)
next
  case (Serve k new)
  with assms(1-3) fresh_served [of b k "fst (requests b ! k)" "snd (requests b ! k)" new] show ?thesis
    by (simp add: split_beta)
next
  case (Deliver k)
  with assms(3,4) obtain who a rest where "answers b = (who, a) # rest" and "k = 0"
    by (cases "answers b") auto
  with assms(1) Deliver fresh_receive [of b who a rest] show ?thesis
    by simp
qed (use assms(4) in simp_all)

lemma fetches_ok_perform_all:
  "fetches_ok b \<Longrightarrow> who \<noteq> FromCache \<Longrightarrow> fetches_ok (perform_all who cs b)"
  by (rule perform_all_preserves) (simp_all add: fetches_ok_def)

lemma fetches_ok_fields [simp]:
  "fetches_ok (b\<lparr>shown := v\<rparr>) = fetches_ok b"
  "fetches_ok (b\<lparr>pathname := l\<rparr>) = fetches_ok b"
  "fetches_ok (b\<lparr>answers := as\<rparr>) = fetches_ok b"
  "fetches_ok (b\<lparr>remote := xs\<rparr>) = fetches_ok b"
  "fetches_ok (b\<lparr>cache := c\<rparr>) = fetches_ok b"
  "fetches_ok (start_fetch b) = fetches_ok b"
  "fetches_ok (show_page p b) = fetches_ok b"
  by (cases p; simp add: fetches_ok_def show_page_def)+

lemma fetches_ok_unmount_view [simp]: "fetches_ok (unmount_view b) = fetches_ok b"
  by (auto simp: fetches_ok_def unmount_view_def list_all_iff orphan_def)

lemma fetches_ok_receive: "fetches_ok b \<Longrightarrow> fetches_ok (receive who a b)"
  by (cases who; cases "shown b")
    (auto simp: receive_def split_beta simp del: AddItemForm_step.simps intro!: fetches_ok_perform_all)

lemma fetches_ok_step: "fetches_ok b \<Longrightarrow> fetches_ok (board_step b e)"
proof (cases e)
  case (Serve k new)
  then show "fetches_ok b \<Longrightarrow> ?thesis"
    by (auto simp: split_beta fetches_ok_def dest: list_all_remove_nth)
next
  case (LoseRequest k)
  then show "fetches_ok b \<Longrightarrow> ?thesis"
    by (auto simp: split_beta fetches_ok_def dest: list_all_remove_nth)
next
  case (Deliver k)
  then show "fetches_ok b \<Longrightarrow> ?thesis"
    by (simp add: split_beta fetches_ok_receive)
qed (auto simp: split_beta simp del: AddItemForm_step.simps split: mounted.splits option.splits
    intro!: fetches_ok_perform_all)

lemma fresh_init: "fresh (board_init loc xs)"
  by (auto simp: fresh_def board_init_def show_page_def settled_def latest_def cache_init_def
      split: option.splits page.splits)

lemma fetches_ok_init: "fetches_ok (board_init loc xs)"
  by (auto simp: board_init_def fetches_ok_def show_page_def split: option.splits page.splits)

lemma run_fresh:
  assumes "run_board b es = Some b'" and "list_all orderly es" and "fresh b" and "fetches_ok b"
  shows "fresh b' \<and> fetches_ok b'"
  using assms
  by (induction rule: run_board_induct) (simp_all add: fresh_step fetches_ok_step)


subsection \<open>Counting the fetches\<close>

lemma fetches_sent_fields [simp]:
  "fetches_sent (b\<lparr>shown := v\<rparr>) = fetches_sent b"
  "fetches_sent (b\<lparr>pathname := l\<rparr>) = fetches_sent b"
  "fetches_sent (b\<lparr>remote := xs\<rparr>) = fetches_sent b"
  "fetches_sent (b\<lparr>cache := c\<rparr>) = fetches_sent b"
  "fetches_sent (b\<lparr>requests := rs\<rparr>) = fetches_sent b"
  "fetches_sent (b\<lparr>answers := as\<rparr>) = fetches_sent b"
  "fetches_sent (unmount_view b) = fetches_sent b"
  "fetches_sent (start_fetch b) = Suc (fetches_sent b)"
  "fetches_sent (enqueue who r b) = fetches_sent b + (if who = FromCache then 1 else 0)"
  by (simp_all add: fetches_sent_def from_cache_pair)

lemma fetches_sent_perform_all:
  "who \<noteq> FromCache \<Longrightarrow>
     fetches_sent (perform_all who cs b) = fetches_sent b + count_list cs InvalidateItems"
proof (induction cs arbitrary: b)
  case Nil
  then show ?case by simp
next
  case (Cons c cs)
  then show ?case by (cases c) simp_all
qed

lemma form_step_invalidations:
  "count_list (snd (AddItemForm_step s e)) InvalidateItems = (if e = Succeed then 1 else 0)"
  by (cases e) (auto simp: form_defs Let_def split: prod.splits)

lemma fetches_sent_receive:
  "fetches_sent (receive who a b) = fetches_sent b + (if renews (who, a) then 1 else 0)"
  by (cases who; cases "shown b")
    (auto simp: receive_def split_beta renews_def fetches_sent_perform_all onMarkSuccess_def
      form_step_invalidations simp del: AddItemForm_step.simps)

lemma fetches_sent_step:
  "board_enabled b e \<Longrightarrow> fetches_sent (board_step b e) = fetches_sent b + refetch_due b e"
proof (cases e)
  case (Fill e')
  then show "board_enabled b e \<Longrightarrow> ?thesis"
    by (auto simp: split_beta fetches_sent_perform_all form_step_invalidations is_answer_def
        simp del: AddItemForm_step.simps split: mounted.splits)
next
  case (Deliver k)
  then show ?thesis
    by (cases "answers b ! k") (simp add: fetches_sent_receive)
next
  case (Go e')
  then show ?thesis
    by (cases "shown b")
      (auto simp: show_page_def split: option.splits page.splits)
qed (auto simp: split_beta fetches_sent_perform_all handleMarkAsDone_def split: mounted.splits)


subsection \<open>Round trips\<close>

lemma find_distinct_id:
  "distinct (map id' xs) \<Longrightarrow> it \<in> set xs \<Longrightarrow> find (\<lambda>x. id' x = id' it) xs = Some it"
  by (induction xs) (auto simp: image_iff)

lemma has_data_partial_of [simp]: "has_data (partial_of it)"
  by (simp add: has_data_def partial_of_def)

lemma replace_by_partial_of:
  "id' new = id' old \<Longrightarrow> createdAt new = createdAt old \<Longrightarrow> replace_by (partial_of new) old = new"
  by (cases new) (simp add: replace_by_def partial_of_def)

lemma serve_marked:
  assumes "remote_ok xs" and "it \<in> set xs"
  shows "respond (updateItem_req (id' it) (partial_of (it\<lparr>status := st\<rparr>))) new xs =
     (ItemAnswer (it\<lparr>status := st\<rparr>), map (\<lambda>x. if id' x = id' it then it\<lparr>status := st\<rparr> else x) xs)"
proof -
  from assms have "truthy (id' it)" and "find (\<lambda>x. id' x = id' it) xs = Some it"
    by (auto simp: remote_ok_def ids_ok_def list_all_iff find_distinct_id)
  moreover have "replace_by (partial_of (it\<lparr>status := st\<rparr>)) it = it\<lparr>status := st\<rparr>"
    by (rule replace_by_partial_of) simp_all
  ultimately show ?thesis
    by (simp add: respond_updateItem)
qed


subsection \<open>Example data\<close>

lemma remote_ok_scenario_items: "remote_ok scenario_items"
  by (simp add: remote_ok_def ids_ok_def scenario_items_def truthy_def)

lemma settle_list: "settle 2 ''/list'' = Some (''/list'', ItemListPage)"
  by (simp add: numeral_2_eq_2 matchRoutes_def routes_def stripSlashes_def string_defs)

lemma settle_add: "settle 2 ''/add'' = Some (''/add'', AddItemFormPage)"
  by (simp add: numeral_2_eq_2 matchRoutes_def routes_def stripSlashes_def string_defs)

lemma run_first_fetch:
  "run_board (board_init ''/list'' scenario_items) [Serve 0 ([], None), Deliver 0] = Some listed_board"
  by (simp add: board_init_def settle_list show_page_def start_fetch_def enqueue_def cache_init_def
      fetch_def receive_def fetched_def listed_board_def)

lemma filled_board_submit:
  "enabled (AddItemForm_init\<lparr>formData := keys_form\<rparr>) Submit"
  "snd (AddItemForm_step (AddItemForm_init\<lparr>formData := keys_form\<rparr>) Submit) = [Send (createItem keys_form)]"
  by code_simp+

lemma mark_bag_offered: "board_enabled listed_board (Mark bag)"
  by (simp add: listed_board_def mark_button_offered query_env_def items_of_def bag_def
      scenario_items_def paginatedItems_def filteredItems_all mount_def ItemList_init_def
      rerender_def debounceEffect_def resetPageEffect_def itemsPerPage_def slice_def
      relativeIndex_def Let_def)


section \<open>Properties\<close>

text \<open>
  Claim C14 (the invariant of the board). In every reachable state the
  identifiers of the remote collection are distinct and not empty; the cache
  counts exactly the list calls that are on the wire; every item of the
  snapshot and of an answer on the wire has an identifier; every request on
  the wire is a call of the interface; the cache sends list calls only; the
  mounted view has at most one call in flight and an unmounted view none; and
  the state of the mounted view is a reachable state of the machine of that
  view, so that the answer events the board raises are events the view can
  take.
\<close>

theorem board_reach_invariant:
  assumes "board_reach b"
  shows "board_inv b \<and> fetches_ok b \<and> waiting_ok b
     \<and> (case shown b of Browsing s p \<Rightarrow> ItemList_reach s | Adding s \<Rightarrow> AddItemForm_reach s)"
proof (intro conjI)
  from assms show "board_inv b"
    by (rule board_reach_inv)
  from assms show "fetches_ok b"
    by (induction rule: board_reach.induct) (simp_all add: fetches_ok_init fetches_ok_step)
  from assms show "waiting_ok b"
    by (rule board_reach_waiting)
  from assms show "case shown b of Browsing s p \<Rightarrow> ItemList_reach s | Adding s \<Rightarrow> AddItemForm_reach s"
    by (auto split: mounted.splits dest: browsing_reach adding_reach)
qed

theorem board_reach_invariant_witness:
  "board_reach listed_board \<and> board_inv listed_board \<and> fetches_ok listed_board
     \<and> waiting_ok listed_board \<and> ItemList_reach (mount ItemList_init)"
proof -
  have "board_reach listed_board"
    by (rule run_board_reach [OF run_first_fetch reach_open [OF remote_ok_scenario_items]])
  with board_reach_invariant [of listed_board] show ?thesis
    by (simp add: listed_board_def)
qed

text \<open>
  Claim C15 (a quiet board shows the remote collection). When no call is lost
  and the answers reach the client in the order in which the remote collection
  gave them, then in every state in which nothing is on the wire the snapshot
  of the cache is the remote collection, and the browse view renders from it;
  the snapshot is missing only when the browse view has never been shown and
  nothing has been written.
\<close>

theorem quiet_board_fresh:
  assumes "run_board (board_init loc xs) es = Some b" and "list_all orderly es" and "quiet b"
  shows "snapshot (cache b) = Some (remote b)
     \<or> (snapshot (cache b) = None \<and> page_of (shown b) = AddItemFormPage)"
proof -
  from run_fresh [OF assms(1,2) fresh_init fetches_ok_init] have "fresh b"
    by simp
  with assms(3) show ?thesis
    by (simp add: fresh_def quiet_def settled_def latest_def)
qed

theorem quiet_board_fresh_witness:
  "run_board (board_init ''/list'' scenario_items) [Serve 0 ([], None), Deliver 0] = Some listed_board
     \<and> list_all orderly [Serve 0 ([], None), Deliver 0] \<and> quiet listed_board
     \<and> snapshot (cache listed_board) = Some (remote listed_board)"
  using quiet_board_fresh [OF run_first_fetch] run_first_fetch
  by (simp add: quiet_def listed_board_def)

text \<open>
  Claim C16 (one fetch for each successful write). Along every run the client
  sends one list call for each answer of a successful create or update that
  reaches it, also when the view that sent the call is gone, one for each time
  the browse view is mounted, and no other.
\<close>

theorem refetch_once_per_success:
  assumes "run_board b es = Some b'"
  shows "fetches_sent b' = fetches_sent b + due b es"
  using assms
  by (induction rule: run_board_induct) (simp_all add: fetches_sent_step)

theorem refetch_once_per_success_witness:
  "run_board filled_board [Fill Submit, Serve 0 (''3'', None), Deliver 0] \<noteq> None
     \<and> fetches_sent filled_board = 0
     \<and> due filled_board [Fill Submit, Serve 0 (''3'', None), Deliver 0] = 1
     \<and> fetches_sent (the (run_board filled_board [Fill Submit, Serve 0 (''3'', None), Deliver 0])) = 1"
proof -
  have r: "run_board filled_board [Fill Submit, Serve 0 (''3'', None), Deliver 0] \<noteq> None"
    using filled_board_submit
    by (simp add: filled_board_def is_answer_def split_beta can_assign_def scenario_items_def truthy_def)
  have d: "due filled_board [Fill Submit, Serve 0 (''3'', None), Deliver 0] = 1"
    using filled_board_submit by (simp add: filled_board_def split_beta renews_def)
  have s: "fetches_sent filled_board = 0"
    by (simp add: fetches_sent_def filled_board_def)
  from r obtain b' where b': "run_board filled_board [Fill Submit, Serve 0 (''3'', None), Deliver 0] = Some b'"
    by blast
  from refetch_once_per_success [OF b'] r d s b' show ?thesis
    by simp
qed

text \<open>
  Claim C20 (a created item reaches the cache). From a quiet board that shows
  the create form, submitting a form that sends a create request, the service
  of that request with a new identifier, the delivery of its answer, and the
  service and delivery of the list call that follows are possible in this
  order; they end in a quiet board whose remote collection has the new item
  at its end and whose snapshot is that collection.
\<close>

theorem created_item_is_fetched:
  assumes "shown b = Adding s" and "quiet b" and "enabled s Submit"
    and "snd (AddItemForm_step s Submit) = [Send (createItem d)]"
    and "can_assign (fst new) (remote b)"
  shows "\<exists>b'. run_board b [Fill Submit, Serve 0 new, Deliver 0, Serve 0 new', Deliver 0] = Some b'
     \<and> quiet b' \<and> remote b' = remote b @ [assign new d] \<and> snapshot (cache b') = Some (remote b')"
  using assms
  by (simp add: quiet_def is_answer_def split_beta receive_def onSuccess_def fetched_def
      start_fetch_def enqueue_def)

theorem created_item_is_fetched_witness:
  "\<exists>b'. run_board filled_board
       [Fill Submit, Serve 0 (''3'', None), Deliver 0, Serve 0 ([], None), Deliver 0] = Some b'
     \<and> quiet b' \<and> remote b' = scenario_items @ [keys3] \<and> snapshot (cache b') = Some (remote b')"
  using created_item_is_fetched [of filled_board "AddItemForm_init\<lparr>formData := keys_form\<rparr>" keys_form
      "(''3'', None)" "([], None)"] filled_board_submit
  by (simp add: filled_board_def quiet_def can_assign_def scenario_items_def truthy_def keys3_def)

text \<open>
  Claim C21 (a marked item reaches the cache). From a quiet board whose browse
  view shows the remote collection, pressing the marking button of an item,
  the service of the update, the delivery of its answer, and the service and
  delivery of the list call that follows are possible in this order; they end
  in a quiet board in which the status of that item is flipped, in the remote
  collection and in the snapshot, and every other item is as before.
\<close>

theorem marked_item_is_fetched:
  assumes "shown b = Browsing s False" and "quiet b" and "snapshot (cache b) = Some (remote b)"
    and "remote_ok (remote b)" and "board_enabled b (Mark it)"
  shows "\<exists>b'. run_board b [Mark it, Serve 0 new, Deliver 0, Serve 0 new', Deliver 0] = Some b'
     \<and> quiet b'
     \<and> remote b' = map (\<lambda>x. if id' x = id' it then it\<lparr>status := toggle (status it)\<rparr> else x) (remote b)
     \<and> snapshot (cache b') = Some (remote b')"
proof -
  from assms(1,3,5) have "it \<in> set (remote b)"
    by (auto dest: mark_offered_shown)
  from serve_marked [OF assms(4) this] assms show ?thesis
    by (simp add: quiet_def handleMarkAsDone_def split_beta receive_def onMarkSuccess_def fetched_def
        start_fetch_def enqueue_def)
qed

theorem marked_item_is_fetched_witness:
  "\<exists>b'. run_board listed_board [Mark bag, Serve 0 ([], None), Deliver 0, Serve 0 ([], None), Deliver 0] = Some b'
     \<and> quiet b'
     \<and> remote b' = [example_item ''1'' ''Keys'' Lost Active, example_item ''2'' ''Bag'' Found Active]
     \<and> snapshot (cache b') = Some (remote b')"
  using marked_item_is_fetched [of listed_board "mount ItemList_init" bag "([], None)" "([], None)"]
    mark_bag_offered remote_ok_scenario_items
  by (simp add: listed_board_def quiet_def scenario_items_def bag_def toggle_def example_item_def)



end
