(* ===== verification/Spec2Isabelle.thy ===== *)
theory Spec2Isabelle
  imports JS_Prelude Regex Types Api Ui Store ItemList AddItemForm ItemDetails ImageUpload Navigation
    Board
begin

text \<open>
  \<^bold>\<open>A verification development for the Lost-and-Found board.\<close>

  The program is a single-page browser application written in TypeScript with
  React: users browse, filter and page through postings of lost and found
  items, add postings, and edit or delete them; the postings live in a remote
  REST collection. The sources are under \<^verbatim>\<open>src/src\<close>.

  \<^bold>\<open>Parts of the program and where they are modelled.\<close>
  \<^item> \<^verbatim>\<open>types.ts\<close> (the data model): theory \<open>Types\<close>. Records
    \<open>CreateItemData\<close>, \<open>Item\<close> (an extension of it), \<open>ItemsState\<close> and
    \<open>PartialItem\<close>; datatypes \<open>ItemType\<close> and \<open>ItemStatus\<close>.
  \<^item> \<^verbatim>\<open>services/api.ts\<close> (the HTTP client): theory \<open>Api\<close>. The
    requests \<open>getItems\<close>, \<open>createItem\<close>, \<open>updateItem_req\<close> and
    \<open>deleteItem\<close> as values of the record \<open>request\<close>, the datatype
    \<open>command\<close> of the calls that leave a view, and the interface of the
    remote collection: the calls \<open>api_call\<close>, their requests \<open>encode\<close>,
    and \<open>decode\<close>, which reads a request as the table of the interface
    says (\<open>wf_request\<close> when it can be read).
  \<^item> \<^verbatim>\<open>lib/store.ts\<close> (the Redux slice): theory \<open>Store\<close>. One definition
    per reducer (\<open>setItems\<close>, \<open>setLoading\<close>, \<open>setError\<close>, \<open>addItem\<close>,
    \<open>updateItem\<close>, \<open>removeItem\<close>), the slice reducer \<open>reducer\<close> over the
    datatype \<open>action\<close>, and \<open>dispatch_all\<close> for a sequence of dispatches.
  \<^item> \<^verbatim>\<open>pages/list.tsx\<close> (the browse view \<^verbatim>\<open>ItemList\<close>): theory
    \<open>ItemList\<close>. State record \<open>ItemList_state\<close>, the two effects, the
    handlers, the derived values \<open>filteredItems\<close>, \<open>paginatedItems\<close> and
    \<open>totalPages\<close>, the view \<open>render\<close>, and the machine \<open>ItemList_step\<close>
    with its reachable states \<open>ItemList_reach\<close>.
  \<^item> \<^verbatim>\<open>pages/add.tsx\<close> (the create form \<^verbatim>\<open>AddItemForm\<close>): theory
    \<open>AddItemForm\<close>. State record \<open>AddItemForm_state\<close>, \<open>validateForm\<close>
    with the error object \<open>newErrors\<close>, the handlers \<open>handleSubmit\<close> and
    \<open>handleInputChange\<close>, the mutation callback \<open>onSuccess\<close>, the view
    \<open>renderForm\<close>, and the machine \<open>AddItemForm_step\<close> with its runs
    \<open>run_form\<close> and reachable states \<open>AddItemForm_reach\<close>.
  \<^item> \<^verbatim>\<open>pages/detail.tsx\<close> (the detail dialog \<^verbatim>\<open>ItemDetails\<close>): theory
    \<open>ItemDetails\<close>. State record \<open>ItemDetails_state\<close>, the effect
    \<open>resetEffect\<close>, the handlers \<open>handleEdit\<close>, \<open>handleSave\<close>,
    \<open>handleCancel\<close>, \<open>handleDelete\<close>, \<open>handleDraftChange\<close> and
    \<open>handleClose\<close>, the callbacks of the two mutations, the view
    \<open>renderDetails\<close>, and the machine \<open>ItemDetails_step\<close> with
    \<open>run_details\<close> and \<open>ItemDetails_reach\<close>.
  \<^item> \<^verbatim>\<open>pages/img.tsx\<close> (the image upload \<^verbatim>\<open>ImageUploadSection\<close>): theory
    \<open>ImageUpload\<close>. State record \<open>ImageUpload_state\<close>, \<open>validateFile\<close>
    with the pattern \<open>imageTypePattern\<close>, the handlers
    \<open>handleImageUpload\<close> and \<open>removeImage\<close>, the effect \<open>imageEffect\<close>
    with its cleanup, the view \<open>renderUpload\<close>, and the machine
    \<open>ImageUpload_step\<close> with \<open>run_upload\<close> and \<open>ImageUpload_reach\<close>.
  \<^item> \<^verbatim>\<open>pages/header.tsx\<close>, \<^verbatim>\<open>routes/routes.tsx\<close>, \<^verbatim>\<open>main.tsx\<close> and
    \<^verbatim>\<open>heading.tsx\<close>: theory \<open>Navigation\<close>. The expression
    \<open>currentView\<close> and the header \<open>renderHeader\<close>, the table \<open>routes\<close>,
    the matching of the router (\<open>path_matches\<close>, \<open>matchRoutes\<close>) and the
    following of redirections (\<open>settle\<close>), and \<open>renderRoot\<close>, what the
    entry point renders.
  \<^item> The program as a whole: theory \<open>Board\<close>. The router with the browse
    view and the create form, over a query cache (\<open>query_cache\<close>,
    \<open>fetch\<close>, \<open>fetched\<close>) and a remote collection (\<open>serve\<close>,
    \<open>respond\<close>) that are stated after the specification, since the query
    library and the remote collection are not code of the sources. The machine
    \<open>board_step\<close> over the events \<open>board_event\<close>, with \<open>run_board\<close>
    and \<open>board_reach\<close>.
  \<^item> What the views pass to the component kit (\<open>variant\<close>,
    \<open>fallbackImage\<close>): theory \<open>Ui\<close>.
  \<^item> The ECMAScript built-ins that these files call: theory \<open>JS_Prelude\<close>
    (strings, arrays, numbers), theory \<open>Regex\<close> (the match of a string
    against a pattern, by derivatives) and \<open>split_on\<close> and \<open>pop\<close> in
    theory \<open>Navigation\<close>.

  \<^bold>\<open>How the parts interact.\<close> A view keeps local state in hooks, reads the
  fetched collection from the query library and turns user events into new
  local state and into requests. In the model a handler is a function from
  state to state; what the query library hands to a render is an explicit
  environment record that the view only reads; a request is a value of theory
  \<open>Api\<close> that the handler returns inside a \<open>command\<close>
  (\<open>handleMarkAsDone\<close>, \<open>handleSubmit\<close>, \<open>handleSave\<close>,
  \<open>handleDelete\<close>). A re-render after a
  state change runs the effects whose dependencies changed (\<open>rerender\<close>).
  Time is an event (\<open>Elapse\<close>, \<open>Tick\<close>) that counts a pending timer down
  and fires it; the answer of the server to a request is an event as well
  (\<open>Succeed\<close>, \<open>Fail\<close>, \<open>UpdateSucceeded\<close> and the like); the parent of
  the dialog changes its properties by the event \<open>SetProps\<close>. The views
  agree on the shape of a machine: a datatype of events, a predicate that says
  which events can happen, a step function, and the inductive set of reachable
  states; the form and the dialog also agree on the commands a step returns.
  Theory \<open>Board\<close> puts the parts together: it carries out the commands of
  the mounted view (a request goes on the wire, an invalidation starts a list
  call), lets the remote collection serve the requests and delivers the
  answers in any order, raising the answer events of the views and of the
  cache; the browse view renders from the snapshot of the cache.

  \<^bold>\<open>What the lemmas show.\<close>
  \<^item> \<open>JS_Prelude\<close>: \<open>includes_str\<close> is the sublist relation, \<open>trim\<close> is
    empty exactly on white space, \<open>slice\<close> with non-negative arguments is
    \<open>take\<close> after \<open>drop\<close>, \<open>findIndex\<close> returns the first matching
    index or \<open>-1\<close>, \<open>ceil_div\<close> is the least sufficient quotient.
  \<^item> \<open>Store\<close>: the effect of every reducer on every field; the invariant
    \<open>distinct_ids\<close> along a sequence of dispatches; refinement of a keyed
    collection \<open>abs_step\<close> through the abstraction \<open>item_map\<close>, which reads
    the cached list as a finite map.
  \<^item> \<open>ItemList\<close>: soundness, completeness and stability of the filter;
    the bound on a page, the page count, the partition of the filtered items
    into pages; refinement of the specification \<open>project\<close>; the page reset
    on a filter change; the invariant of the reachable states; the behaviour
    of the debounce timer; what the view offers; and a reachable state in
    which the page is out of range after the collection shrank.
  \<^item> \<open>AddItemForm\<close>: \<open>validateForm\<close> implements the validation rule
    \<open>fieldOK\<close>; both branches of a submission; the invariant \<open>form_inv\<close>
    of the reachable states; along every run only validated data is sent, at
    most one call is in flight and the cache is invalidated once per success;
    the success card is shown for \<open>successDelay\<close>; a failed create leaves no
    trace in the view.
  \<^item> \<open>ItemDetails\<close>: the invariant \<open>details_inv\<close> of the reachable
    states; a save sends a complete item to the path of its own identifier;
    cancelling discards the draft; deleting needs a confirmation; a failed
    save keeps the draft; and two ways in which a draft is lost without notice.
  \<^item> \<open>Api\<close>: the verb, path and body of each request, that a request
    determines the call that built it, and that \<open>decode\<close> is the inverse
    of \<open>encode\<close> on the calls whose identifier is not empty.
  \<^item> \<open>Regex\<close>: the matcher \<open>regex_test\<close> decides the language
    \<open>lang\<close> of a pattern.
  \<^item> \<open>ImageUpload\<close>: which files \<open>validateFile\<close> accepts; the
    invariant \<open>upload_inv\<close> of the reachable states; the parent is told the
    address of the image shown; removing an image revokes its address twice.
  \<^item> \<open>Navigation\<close>: \<open>split_on\<close> is inverted by joining; every location
    settles on a page within two locations; the header highlights the button
    of the page shown, except at a location with capital letters.
  \<^item> \<open>Board\<close>: the invariant \<open>board_inv\<close> of the reachable states
    (distinct identifiers in the remote collection, the count of list calls
    in flight, only calls of the interface on the wire); when nothing is lost
    and answers arrive in order, a board with nothing on the wire shows the
    remote collection; with answers out of order it can rest stale; one list
    call is sent per delivered success of a write and per mount of the browse
    view; a created and a marked item reach the snapshot.
  \<^item> This theory: the browse view and the detail dialog send the same request
    for the same change of status; every request that a view sends is a call
    of the interface, unless the item acted on has an empty identifier.

  \<^bold>\<open>Bounds and choices.\<close> Page numbers are \<^typ>\<open>int\<close>, as JavaScript numbers
  are signed, and the lemmas on \<open>paginatedItems\<close> hold for every integer.
  Timers hold natural numbers of milliseconds.
  \<open>Math.ceil\<close> of a quotient is modelled on the reals (\<open>ceil_div\<close>); it
  agrees with the floating-point computation for array lengths below
  \<open>2 ^ 53\<close>. The debounce delay is the source's 300 milliseconds, the page
  size its 6 items and the time of the success card its 3000 milliseconds; the
  lemmas use the constants \<open>debounceDelay\<close>, \<open>itemsPerPage\<close> and
  \<open>successDelay\<close> and their positivity only, except where a concrete
  scenario is computed. Every loop of the modelled code is a traversal of a
  list, and a run of a machine is a recursion over the list of its events;
  \<open>run_form\<close> returns \<open>None\<close> only when an event of the list cannot
  happen where it stands. \<open>split_on\<close> recurses on the rest of the string
  behind a separator and is total by the length of that rest. The one
  definition with fuel is \<open>settle\<close>, since a table of routes may redirect
  in a circle: its fuel bounds the locations visited, and
  \<open>settle_terminates\<close> shows that fuel 2 gives a page from every location
  for the table of the source. Patterns are those built from characters,
  concatenation and alternatives, which covers the one pattern of the
  sources; a file size is a natural number of bytes. The wire of the board
  is a pair of lists without a bound; an event names the position of the
  request it serves or of the answer it delivers, so every order of service
  and of delivery is a run. A run of the board is orderly when it loses
  nothing and always delivers the oldest answer.

  \<^bold>\<open>Not modelled.\<close> The transport of a request and the decoding of its
  answer (\<^verbatim>\<open>axios\<close>): an answer is a value of the model. Of the query
  library, the retries of a failed call, the timing of refetches (on focus,
  on reconnect) and the removal of unused queries; its cache is modelled
  after the specification, not after the library. The remote collection is
  modelled after the specification as well; whether it replaces or merges on
  an update is open there, and the model replaces. How the router matches a
  location is stated after the documentation of the router library, not taken
  from the sources. The Redux slice is verified on its own: no source
  dispatches to it. The entry point \<^verbatim>\<open>main.tsx\<close> renders the
  placeholder \<^verbatim>\<open>heading.tsx\<close> only, and no source mounts the detail dialog or
  the image upload; each view is verified as a component of its own, and the
  board composes what \<^verbatim>\<open>MyRouter\<close> mounts. The
  messages of the image upload are not ASCII and are kept as constructors. The
  callbacks of a mutation are taken to run with the properties of the latest
  render. The views are mounted once: unmounting and remounting a component is
  not an event. Style classes, icons, static text, scrolling and the
  locale-dependent display of dates are left out of the views. Case folding
  and white space are ASCII only.

  \<^bold>\<open>Plan.\<close> (1) Prelude, data model, store and browse view. (2) The create
  form with its validation and submission machine. (3) The requests of the
  HTTP client and the detail dialog as a state machine. (4) Header, routes and
  image upload, and the interface of the remote collection. (5) The remote
  collection and the query cache after the specification, with the router and
  the views composed over them. These five steps are this state of the
  development. What is left: the detail dialog over the board, under a parent
  that the sources do not have yet, and the retries of the query library.
\<close>

section \<open>The requests of the views\<close>

text \<open>
  The three places where a view issues commands, as one type: an event of the
  create form, an event of the detail dialog, and a click on the marking
  button of a card of the browse view. \<open>issued\<close> are the commands of an
  action and \<open>acts_on\<close> is the item it is about, if there is one.
\<close>

datatype view_action =
    FormAction AddItemForm_state AddItemForm_event
  | DialogAction ItemDetails_state ItemDetails_event
  | MarkAction Item

fun issued :: "view_action \<Rightarrow> command list" where
  "issued (FormAction s e) = snd (AddItemForm_step s e)"
| "issued (DialogAction s e) = snd (ItemDetails_step s e)"
| "issued (MarkAction it) = handleMarkAsDone it"

fun acts_on :: "view_action \<Rightarrow> Item option" where
  "acts_on (FormAction s e) = None"
| "acts_on (DialogAction s e) = itemProp s"
| "acts_on (MarkAction it) = Some it"


section \<open>Properties that span components\<close>

text \<open>
  Claim C31 (the two views send the same update). Changing the status of an
  item in the detail dialog (edit, set the status to the other value, save)
  sends the request that the marking button of the browse view sends for that
  item: both go through \<open>updateItem_req\<close> with the whole item as body.
\<close>

theorem views_agree_on_status_update:
  assumes "itemProp s = Some it" and "truthy (id' it)"
  shows "snd (ItemDetails_step (handleDraftChange (Set_status (toggle (status it))) (handleEdit it s)) ClickSave)
     = handleMarkAsDone it"
  using assms
  by (simp add: with_item_def handleSave_def handleDraftChange_def handleEdit_def
      handleMarkAsDone_def partial_of_def)

theorem views_agree_on_status_update_witness:
  "itemProp viewing_keys = Some keys_item \<and> truthy (id' keys_item)
     \<and> handleMarkAsDone keys_item =
         [Send (updateItem_req ''1'' (partial_of (example_item ''1'' ''Keys'' Lost Done)))]
     \<and> snd (ItemDetails_step
           (handleDraftChange (Set_status (toggle (status keys_item))) (handleEdit keys_item viewing_keys))
           ClickSave) =
         [Send (updateItem_req ''1'' (partial_of (example_item ''1'' ''Keys'' Lost Done)))]"
  using views_agree_on_status_update [of viewing_keys keys_item]
  by (simp add: viewing_keys_def mountDetails_def resetEffect_def keys_item_def truthy_def
      handleMarkAsDone_def toggle_def example_item_def)

text \<open>
  Claim C18 (the views send requests of the interface). A request that a view
  issues is one of the four calls of the interface of the remote collection,
  with one exception: an action on an item whose identifier is empty. The
  create form always sends a well-formed request; the marking button and the
  delete button send a request to the path \<^verbatim>\<open>/items/\<close>, which is no call of
  the interface, when the identifier of their item is empty; saving tests the
  identifier and sends nothing then.
\<close>

theorem views_send_wellformed:
  assumes "Send r \<in> set (issued a)"
  shows "wf_request r \<longleftrightarrow> (\<forall>it. acts_on a = Some it \<longrightarrow> truthy (id' it))"
proof (cases a)
  case (FormAction s e)
  with assms step_sends_create [of r s e] show ?thesis
    by auto
next
  case (DialogAction s e)
  with assms step_sends [of r s e] show ?thesis
    by auto
next
  case (MarkAction it)
  with assms show ?thesis
    by (simp add: handleMarkAsDone_def)
qed

theorem views_send_wellformed_witness:
  "Send (deleteItem ''1'') \<in> set (issued (DialogAction viewing_keys (ClickDelete True)))
     \<and> wf_request (deleteItem ''1'')
     \<and> Send (deleteItem []) \<in> set (issued (DialogAction
           (mountDetails (Some (example_item [] ''Keys'' Lost Active)) True) (ClickDelete True)))
     \<and> \<not> wf_request (deleteItem [])"
  using views_send_wellformed [of "deleteItem ''1''" "DialogAction viewing_keys (ClickDelete True)"]
    views_send_wellformed [of "deleteItem []"
      "DialogAction (mountDetails (Some (example_item [] ''Keys'' Lost Active)) True) (ClickDelete True)"]
  by (simp add: viewing_keys_def mountDetails_def resetEffect_def keys_item_def truthy_def
      with_item_def handleDelete_def example_item_def)

end
